(* ===== verification/Dart_Prelude.thy ===== *)
theory Dart_Prelude
  imports Main "HOL-Library.Word" "HOL-Library.AList"
begin

unbundle bit_operations_syntax

text \<open>
  The ground layer of the development: exceptions as values, the sequencing operators the
  models of the TypeScript code are written with, the JavaScript operators and containers the
  code uses, and the generic facts the component theories share.

  \<^item> An expression that may throw has type \<open>exn + 'a\<close> (\<open>Inl\<close> is the exception) and is
    sequenced with \<open>sbind\<close>.
  \<^item> A statement that may throw in the middle of its effects has type \<open>'s outcome\<close>: the state
    reached when the exception left is kept, as it is in JavaScript.
  \<^item> A \<^verbatim>\<open>Map\<close> is an association list in insertion order: \<^const>\<open>map_of\<close> is \<^verbatim>\<open>get\<close>,
    \<^const>\<open>AList.update\<close> is \<^verbatim>\<open>set\<close> (in place, or appended when the key is new) and
    \<^const>\<open>AList.delete\<close> is \<^verbatim>\<open>delete\<close>; the list is the iteration order.
\<close>

named_theorems js_defs \<open>unfolding rules for the JavaScript library models\<close>
named_theorems layout \<open>normal forms of frame layouts: writes into and reads from headers\<close>
named_theorems keeps \<open>frame rules: what an operation leaves unchanged\<close>

section \<open>Exceptions\<close>

datatype exn =
    RangeError          \<comment> \<open>a Buffer access outside the buffer, or a value too wide for its field\<close>
  | BufferTooShort      \<comment> \<open>\<^verbatim>\<open>throw new Error('buffer too short')\<close>\<close>
  | InvalidKeyLength    \<comment> \<open>\<^verbatim>\<open>createCipheriv\<close> with a key that is not 32 bytes\<close>
  | InvalidIV           \<comment> \<open>\<^verbatim>\<open>createCipheriv\<close> with an empty nonce\<close>
  | InvalidTagLength    \<comment> \<open>\<^verbatim>\<open>setAuthTag\<close> with a length GCM does not allow\<close>
  | AuthFailed          \<comment> \<open>\<^verbatim>\<open>decipher.final\<close> on a tag that does not verify\<close>
  | InvalidPublicKey    \<comment> \<open>\<^verbatim>\<open>computeSecret\<close> on bytes that are no curve point\<close>
  | InflateFailed       \<comment> \<open>\<^verbatim>\<open>pako.inflateRaw\<close> on a bad stream\<close>

definition sbind :: "exn + 'a \<Rightarrow> ('a \<Rightarrow> exn + 'b) \<Rightarrow> exn + 'b" where
  "sbind r f = (case r of Inl e \<Rightarrow> Inl e | Inr v \<Rightarrow> f v)"

definition sguard :: "bool \<Rightarrow> exn \<Rightarrow> exn + unit" where
  "sguard b e = (if b then Inr () else Inl e)"

lemma sbind_Inl [simp]: "sbind (Inl e) f = Inl e"
  by (simp add: sbind_def)

lemma sbind_Inr [simp]: "sbind (Inr v) f = f v"
  by (simp add: sbind_def)

lemma sbind_eq_Inr: "sbind r f = Inr b \<longleftrightarrow> (\<exists>v. r = Inr v \<and> f v = Inr b)"
  by (cases r) auto

lemma sbind_split_asm_Inr [elim!]:
  assumes "sbind r f = Inr b"
  obtains v where "r = Inr v" and "f v = Inr b"
  using assms by (auto simp: sbind_eq_Inr)

lemma sguard_simps [simp]:
  "sguard True e = Inr ()" "sguard False e = Inl e"
  by (simp_all add: sguard_def)

lemma sguard_eq_Inr [simp]: "sguard b e = Inr u \<longleftrightarrow> b"
  by (cases b) auto

lemma sbind_cong [fundef_cong]:
  "r = r' \<Longrightarrow> (\<And>v. r' = Inr v \<Longrightarrow> f v = g v) \<Longrightarrow> sbind r f = sbind r' g"
  by (cases r') auto

section \<open>Statements that may throw half way\<close>

datatype 's outcome = Done 's | Raised exn 's

primrec state_of :: "'s outcome \<Rightarrow> 's" where
  "state_of (Done s) = s"
| "state_of (Raised e s) = s"

primrec raised :: "'s outcome \<Rightarrow> bool" where
  "raised (Done s) = False"
| "raised (Raised e s) = True"

primrec and_then :: "'s outcome \<Rightarrow> ('s \<Rightarrow> 's outcome) \<Rightarrow> 's outcome" where
  "and_then (Done s) f = f s"
| "and_then (Raised e s) f = Raised e s"

text \<open>Evaluate an expression that may throw, then go on with its value.\<close>

definition eval_in :: "'s \<Rightarrow> exn + 'a \<Rightarrow> ('a \<Rightarrow> 's outcome) \<Rightarrow> 's outcome" where
  "eval_in s r f = (case r of Inl e \<Rightarrow> Raised e s | Inr v \<Rightarrow> f v)"

lemma eval_in_simps [simp]:
  "eval_in s (Inl e) f = Raised e s" "eval_in s (Inr v) f = f v"
  by (simp_all add: eval_in_def)

lemma eval_in_cases:
  obtains (throws) e where "r = Inl e" and "eval_in s r f = Raised e s"
    | (returns) v where "r = Inr v" and "eval_in s r f = f v"
  by (cases r) auto

text \<open>
  Two rules that lift a predicate on states through sequencing: a predicate that holds before a
  statement and is kept by each part holds in the state the statement leaves, thrown or not.
\<close>

lemma state_of_eval_in [intro]:
  "Q s \<Longrightarrow> (\<And>v. r = Inr v \<Longrightarrow> Q (state_of (f v))) \<Longrightarrow> Q (state_of (eval_in s r f))"
  by (cases r) auto

lemma state_of_and_then [intro]:
  "Q (state_of m) \<Longrightarrow> (\<And>s. m = Done s \<Longrightarrow> Q s \<Longrightarrow> Q (state_of (f s))) \<Longrightarrow> Q (state_of (and_then m f))"
  by (cases m) auto

section \<open>JavaScript operators\<close>

text \<open>
  \<^verbatim>\<open>a & b\<close> converts both operands to 32-bit two's complement first (\<^verbatim>\<open>ToInt32\<close>);
  \<^verbatim>\<open>a >>> 0\<close> is \<^verbatim>\<open>ToUint32\<close>. Numbers that occur in the code are integers.
\<close>

definition js_and :: "int \<Rightarrow> int \<Rightarrow> int" where
  "js_and a b = signed_take_bit 31 a AND signed_take_bit 31 b"

definition js_ushr0 :: "nat \<Rightarrow> nat" where
  "js_ushr0 a = a mod 2 ^ 32"

lemma js_and_mask24: "js_and a 0xFFFFFF = a mod 2 ^ 24"
proof -
  have "js_and a 0xFFFFFF = take_bit 24 (signed_take_bit 31 a)"
    by (simp add: js_and_def take_bit_eq_mask mask_eq_exp_minus_1 signed_take_bit_int_eq_self)
  also have "\<dots> = take_bit 24 a"
    by (simp add: bit_eq_iff bit_take_bit_iff bit_signed_take_bit_iff min_def)
  finally show ?thesis by (simp add: take_bit_eq_mod)
qed

lemma js_ushr0_small [simp]: "a < 4294967296 \<Longrightarrow> js_ushr0 a = a"
  by (simp add: js_ushr0_def)

text \<open>\<^verbatim>\<open>m.get(k) || d\<close> on a map of numbers: a missing entry and a stored 0 both give \<open>d\<close>.\<close>

definition or_default :: "nat option \<Rightarrow> nat \<Rightarrow> nat" where
  "or_default x d = (case x of None \<Rightarrow> d | Some n \<Rightarrow> if n = 0 then d else n)"

lemma or_default_simps [simp]:
  "or_default None d = d" "or_default (Some 0) d = d" "n \<noteq> 0 \<Longrightarrow> or_default (Some n) d = n"
  "or_default (Some m) 0 = m"
  by (simp_all add: or_default_def)

section \<open>Maps in insertion order\<close>

type_synonym ('k, 'v) jsmap = "('k \<times> 'v) list"

text \<open>The inner map (or array) under a key, or the empty one the code would create there.\<close>

definition sub :: "('a, 'x list) jsmap \<Rightarrow> 'a \<Rightarrow> 'x list" where
  "sub m a = (case map_of m a of None \<Rightarrow> [] | Some i \<Rightarrow> i)"

definition has :: "('a, 'v) jsmap \<Rightarrow> 'a \<Rightarrow> bool" where
  "has m a \<longleftrightarrow> map_of m a \<noteq> None"

text \<open>\<^verbatim>\<open>m.get(a)?.get(b)\<close>\<close>

definition get2 :: "('a, ('b, 'v) jsmap) jsmap \<Rightarrow> 'a \<Rightarrow> 'b \<Rightarrow> 'v option" where
  "get2 m a b = map_of (sub m a) b"

text \<open>\<^verbatim>\<open>if (!m.has(a)) m.set(a, new Map()); m.get(a)!.set(b, v)\<close>\<close>

definition set2 :: "('a, ('b, 'v) jsmap) jsmap \<Rightarrow> 'a \<Rightarrow> 'b \<Rightarrow> 'v \<Rightarrow> ('a, ('b, 'v) jsmap) jsmap" where
  "set2 m a b v = AList.update a (AList.update b v (sub m a)) m"

text \<open>\<^verbatim>\<open>if (!m.has(a)) m.set(a, new Map())\<close>\<close>

definition ensure :: "('a, 'x list) jsmap \<Rightarrow> 'a \<Rightarrow> ('a, 'x list) jsmap" where
  "ensure m a = (if has m a then m else AList.update a [] m)"

lemma map_of_update [simp]: "map_of (AList.update k v m) = (map_of m)(k \<mapsto> v)"
  by (rule update_conv')

lemma map_of_delete [simp]: "map_of (AList.delete k m) = (map_of m)(k := None)"
  by (rule delete_conv')

lemma has_update [simp]: "has (AList.update k v m) a \<longleftrightarrow> a = k \<or> has m a"
  by (simp add: has_def)

lemma has_delete [simp]: "has (AList.delete k m) a \<longleftrightarrow> a \<noteq> k \<and> has m a"
  by (simp add: has_def)

lemma has_Nil [simp]: "\<not> has [] a"
  by (simp add: has_def)

lemma has_Cons [simp]: "has ((k, v) # m) a \<longleftrightarrow> a = k \<or> has m a"
  by (simp add: has_def)

lemma in_set_update: "x \<in> set (AList.update k v m) \<Longrightarrow> x = (k, v) \<or> x \<in> set m"
  by (induction m) (auto split: if_splits)

lemma has_iff_key: "has m a \<longleftrightarrow> a \<in> fst ` set m"
  by (simp add: has_def map_of_eq_None_iff)

lemma sub_update [simp]: "sub (AList.update a i m) a' = (if a' = a then i else sub m a')"
  by (simp add: sub_def)

lemma sub_delete [simp]: "sub (AList.delete a m) a' = (if a' = a then [] else sub m a')"
  by (simp add: sub_def)

lemma sub_Nil [simp]: "sub [] a = []"
  by (simp add: sub_def)

lemma sub_set2: "sub (set2 m a b v) a' = (if a' = a then AList.update b v (sub m a) else sub m a')"
  by (simp add: set2_def)

lemma get2_set2 [simp]:
  "get2 (set2 m a b v) a' b' = (if a' = a \<and> b' = b then Some v else get2 m a' b')"
  by (simp add: get2_def set2_def)

lemma has_set2 [simp]: "has (set2 m a b v) a' \<longleftrightarrow> a' = a \<or> has m a'"
  by (simp add: set2_def)

lemma get2_Nil [simp]: "get2 [] a b = None"
  by (simp add: get2_def)

lemma sub_ensure [simp]: "sub (ensure m a) b = sub m b"
  by (auto simp: ensure_def has_def sub_def)

lemma has_ensure [simp]: "has (ensure m a) b \<longleftrightarrow> b = a \<or> has m b"
  by (auto simp: ensure_def)

text \<open>Distinct keys: what makes an association list the contents of a \<^verbatim>\<open>Map\<close>.\<close>

definition is_map :: "('k, 'v) jsmap \<Rightarrow> bool" where
  "is_map m \<longleftrightarrow> distinct (map fst m)"

lemma is_map_Nil [simp]: "is_map []"
  by (simp add: is_map_def)

lemma is_map_update [intro]: "is_map m \<Longrightarrow> is_map (AList.update k v m)"
  by (simp add: is_map_def distinct_update)

lemma is_map_delete [intro]: "is_map m \<Longrightarrow> is_map (AList.delete k m)"
  by (simp add: is_map_def distinct_delete)

lemma is_map_filter [intro]: "is_map m \<Longrightarrow> is_map (filter p m)"
  by (auto simp: is_map_def distinct_map inj_on_def)

text \<open>A deletion loop over a snapshot of the keys is a filter.\<close>

lemma delete_loop_eq_filter:
  "fold (\<lambda>k m. if p k then AList.delete k m else m) ks m
    = filter (\<lambda>(k, v). \<not> (k \<in> set ks \<and> p k)) m"
proof (induction ks arbitrary: m)
  case Nil
  then show ?case by (simp add: case_prod_unfold)
next
  case (Cons k ks)
  show ?case
  proof (cases "p k")
    case True
    then have "fold (\<lambda>k m. if p k then AList.delete k m else m) (k # ks) m
        = filter (\<lambda>(k', v). \<not> (k' \<in> set ks \<and> p k')) (AList.delete k m)"
      using Cons.IH by simp
    also have "\<dots> = filter (\<lambda>(k', v). \<not> (k' \<in> set (k # ks) \<and> p k')) m"
      using True by (auto simp: AList.delete_eq filter_filter case_prod_unfold intro!: filter_cong)
    finally show ?thesis .
  next
    case False
    then show ?thesis
      using Cons.IH by (auto simp: case_prod_unfold intro!: filter_cong)
  qed
qed

lemma delete_loop_all_keys:
  "fold (\<lambda>k m. if p k then AList.delete k m else m) (map fst m) m = filter (\<lambda>(k, v). \<not> p k) m"
  by (auto simp: delete_loop_eq_filter case_prod_unfold intro!: filter_cong)

text \<open>What no step of a fold changes, the fold does not change.\<close>

lemma fold_keeps: "(\<And>x d. g (f x d) = g d) \<Longrightarrow> g (fold f xs c) = g c"
  by (induction xs arbitrary: c) auto

end
