(* ===== verification/Dart_Bytes.thy ===== *)
theory Dart_Bytes
  imports Dart_Prelude
begin

text \<open>
  Node's \<^verbatim>\<open>Buffer\<close> as a list of bytes, with the reads, writes and slices the code uses.
  Every access outside the buffer and every value too wide for its field is a
  \<^const>\<open>RangeError\<close>, as in Node. The second half is the layout library: a header that the code
  fills by writes at increasing offsets is the concatenation of its big-endian fields, and a read
  at a field's offset gives the field back.
\<close>

type_synonym byte = "8 word"
type_synonym buffer = "byte list"

section \<open>Big-endian fields\<close>

primrec be :: "nat \<Rightarrow> nat \<Rightarrow> buffer" where
  "be 0 v = []"
| "be (Suc n) v = be n (v div 256) @ [word_of_nat v]"

definition unbe :: "buffer \<Rightarrow> nat" where
  "unbe bs = foldl (\<lambda>acc b. acc * 256 + unat b) 0 bs"

lemma length_be [simp]: "length (be n v) = n"
  by (induction n arbitrary: v) auto

lemma be_Suc: "be (Suc n) v = be n (v div 256) @ [word_of_nat v]"
  by (rule be.simps(2))

lemma unbe_snoc [simp]: "unbe (bs @ [b]) = unbe bs * 256 + unat b"
  by (simp add: unbe_def)

lemma unbe_Nil [simp]: "unbe [] = 0"
  by (simp add: unbe_def)

lemma unat_byte_of_nat: "unat (word_of_nat v :: byte) = v mod 256"
  by (simp add: unat_of_nat)

declare be.simps(2) [simp del]

lemma unat_byte_less [simp]: "unat (b :: byte) < 256"
proof -
  have "unat b < 2 ^ LENGTH(8)" by (rule unsigned_less)
  then show ?thesis by simp
qed

lemma unbe_be_mod: "unbe (be n v) = v mod 256 ^ n"
proof (induction n arbitrary: v)
  case (Suc n)
  have "unbe (be (Suc n) v) = (v div 256) mod 256 ^ n * 256 + v mod 256"
    by (simp add: be_Suc Suc.IH unat_byte_of_nat)
  also have "\<dots> = v mod (256 * 256 ^ n)"
    by (simp add: mod_mult2_eq)
  finally show ?case by simp
qed simp

lemma unbe_be: "v < 256 ^ n \<Longrightarrow> unbe (be n v) = v"
  by (simp add: unbe_be_mod)

lemma unbe_bound: "unbe bs < 256 ^ length bs"
proof (induction bs rule: rev_induct)
  case (snoc b bs)
  have b: "unat b < 256" by simp
  have "unbe bs + 1 \<le> 256 ^ length bs" using snoc by simp
  then have "(unbe bs + 1) * 256 \<le> 256 ^ length bs * 256" by (rule mult_le_mono1)
  moreover have "u * 256 + c < p" if "(u + 1) * 256 \<le> p" and "c < 256" for u c p :: nat
    using that by simp
  ultimately have "unbe bs * 256 + unat b < 256 ^ length bs * 256" using b by blast
  then show ?case by (simp add: mult.commute)
qed simp

lemma be_unbe: "be (length bs) (unbe bs) = bs"
proof (induction bs rule: rev_induct)
  case (snoc b bs)
  have b: "unat b < 256" by simp
  then have "(unbe bs * 256 + unat b) div 256 = unbe bs" by simp
  moreover have "(word_of_nat (unbe bs * 256 + unat b) :: byte) = b"
    by (simp only: word_unat_eq_iff unat_byte_of_nat) (use b in simp)
  ultimately show ?case using snoc by (simp add: be_Suc)
qed simp

lemma be_inject: "v < 256 ^ n \<Longrightarrow> w < 256 ^ n \<Longrightarrow> be n v = be n w \<longleftrightarrow> v = w"
  by (metis unbe_be)

section \<open>Buffer operations\<close>

definition Buffer_alloc :: "nat \<Rightarrow> buffer" where
  "Buffer_alloc n = replicate n 0"

definition readUIntBE :: "buffer \<Rightarrow> nat \<Rightarrow> nat \<Rightarrow> exn + nat" where
  "readUIntBE b off n =
     (if off + n \<le> length b then Inr (unbe (take n (drop off b))) else Inl RangeError)"

definition writeUIntBE :: "buffer \<Rightarrow> nat \<Rightarrow> nat \<Rightarrow> nat \<Rightarrow> exn + buffer" where
  "writeUIntBE b v off n =
     (if v < 256 ^ n \<and> off + n \<le> length b
      then Inr (take off b @ be n v @ drop (off + n) b) else Inl RangeError)"

abbreviation readUInt8 :: "buffer \<Rightarrow> nat \<Rightarrow> exn + nat" where
  "readUInt8 b off \<equiv> readUIntBE b off 1"

abbreviation readUInt16BE :: "buffer \<Rightarrow> nat \<Rightarrow> exn + nat" where
  "readUInt16BE b off \<equiv> readUIntBE b off 2"

abbreviation readUInt32BE :: "buffer \<Rightarrow> nat \<Rightarrow> exn + nat" where
  "readUInt32BE b off \<equiv> readUIntBE b off 4"

abbreviation writeUInt8 :: "buffer \<Rightarrow> nat \<Rightarrow> nat \<Rightarrow> exn + buffer" where
  "writeUInt8 b v off \<equiv> writeUIntBE b v off 1"

abbreviation writeUInt16BE :: "buffer \<Rightarrow> nat \<Rightarrow> nat \<Rightarrow> exn + buffer" where
  "writeUInt16BE b v off \<equiv> writeUIntBE b v off 2"

abbreviation writeUInt32BE :: "buffer \<Rightarrow> nat \<Rightarrow> nat \<Rightarrow> exn + buffer" where
  "writeUInt32BE b v off \<equiv> writeUIntBE b v off 4"

text \<open>\<^verbatim>\<open>src.copy(target, off)\<close>: as many bytes as fit, silently.\<close>

definition Buffer_copy :: "buffer \<Rightarrow> buffer \<Rightarrow> nat \<Rightarrow> buffer" where
  "Buffer_copy src b off = take off b @ take (length b - off) src @ drop (off + length src) b"

text \<open>\<^verbatim>\<open>b.subarray(start, end)\<close>: a negative index counts from the end, both are clamped.\<close>

definition clamp_index :: "nat \<Rightarrow> int \<Rightarrow> nat" where
  "clamp_index n i = (if i < 0 then nat (int n + i) else min n (nat i))"

definition subarray :: "buffer \<Rightarrow> int \<Rightarrow> int \<Rightarrow> buffer" where
  "subarray b s e = take (clamp_index (length b) e - clamp_index (length b) s)
                         (drop (clamp_index (length b) s) b)"

abbreviation subarray_from :: "buffer \<Rightarrow> int \<Rightarrow> buffer" where
  "subarray_from b s \<equiv> subarray b s (int (length b))"

lemma subarray_nonneg [layout]:
  "0 \<le> s \<Longrightarrow> 0 \<le> e \<Longrightarrow> subarray b s e = take (nat e - nat s) (drop (nat s) b)"
  by (auto simp: subarray_def clamp_index_def min_def)

lemma length_Buffer_alloc [simp]: "length (Buffer_alloc n) = n"
  by (simp add: Buffer_alloc_def)

lemma length_Buffer_copy [simp]: "length (Buffer_copy src b off) = length b"
  by (simp add: Buffer_copy_def)

lemma length_writeUIntBE: "writeUIntBE b v off n = Inr b' \<Longrightarrow> length b' = length b"
  by (auto simp: writeUIntBE_def split: if_splits)

lemma writeUIntBE_too_wide [simp]: "256 ^ n \<le> v \<Longrightarrow> writeUIntBE b v off n = Inl RangeError"
  by (simp add: writeUIntBE_def)

lemma readUIntBE_bound: "readUIntBE b off n = Inr v \<Longrightarrow> v < 256 ^ n"
proof -
  assume r: "readUIntBE b off n = Inr v"
  then have v: "v = unbe (take n (drop off b))" and len: "length (take n (drop off b)) = n"
    by (auto simp: readUIntBE_def split: if_splits)
  show "v < 256 ^ n"
    using unbe_bound [of "take n (drop off b)"] v len by simp
qed

lemma readUIntBE_range: "readUIntBE b off n = Inr v \<Longrightarrow> off + n \<le> length b"
  by (simp add: readUIntBE_def split: if_splits)

lemma readUIntBE_short [simp]: "length b < off + n \<Longrightarrow> readUIntBE b off n = Inl RangeError"
  by (simp add: readUIntBE_def)

text \<open>A successful read pins the bytes it read.\<close>

lemma readUIntBE_bytes: "readUIntBE b off n = Inr v \<Longrightarrow> take n (drop off b) = be n v"
proof -
  assume r: "readUIntBE b off n = Inr v"
  then have v: "v = unbe (take n (drop off b))" and len: "length (take n (drop off b)) = n"
    by (auto simp: readUIntBE_def split: if_splits)
  show ?thesis using be_unbe [of "take n (drop off b)"] by (simp only: v len)
qed

section \<open>The layout library\<close>

lemma write_skip [layout]:
  "length xs \<le> off \<Longrightarrow>
   writeUIntBE (xs @ ys) v off n = map_sum id ((@) xs) (writeUIntBE ys v (off - length xs) n)"
  by (auto simp: writeUIntBE_def)

lemma write_zeros [layout]:
  "v < 256 ^ n \<Longrightarrow> n \<le> m \<Longrightarrow> writeUIntBE (replicate m 0) v 0 n = Inr (be n v @ replicate (m - n) 0)"
  by (simp add: writeUIntBE_def)

lemma copy_skip [layout]:
  "length xs \<le> off \<Longrightarrow> Buffer_copy src (xs @ ys) off = xs @ Buffer_copy src ys (off - length xs)"
  by (simp add: Buffer_copy_def add.commute)

lemma copy_zeros [layout]:
  "length src \<le> m \<Longrightarrow> Buffer_copy src (replicate m 0) 0 = src @ replicate (m - length src) 0"
  by (simp add: Buffer_copy_def)

lemmas alloc_zeros [layout] = Buffer_alloc_def

lemma read_here [layout]: "v < 256 ^ n \<Longrightarrow> readUIntBE (be n v @ ys) 0 n = Inr v"
  by (simp add: readUIntBE_def unbe_be)

lemma read_here_end [layout]: "v < 256 ^ n \<Longrightarrow> readUIntBE (be n v) 0 n = Inr v"
  using read_here [of v n "[]"] by simp

lemma read_skip [layout]:
  "length xs \<le> off \<Longrightarrow> readUIntBE (xs @ ys) off n = readUIntBE ys (off - length xs) n"
  by (auto simp: readUIntBE_def)

text \<open>Reading inside a prefix that is known to be long enough.\<close>

lemma read_prefix: "off + n \<le> k \<Longrightarrow> k \<le> length b \<Longrightarrow> readUIntBE (take k b) off n = readUIntBE b off n"
  by (simp add: readUIntBE_def drop_take min_def)

lemma read_append: "off + n \<le> length xs \<Longrightarrow> readUIntBE (xs @ ys) off n = readUIntBE xs off n"
  by (simp add: readUIntBE_def)

end
