(* ===== verification/Dart_Seq.thy ===== *)
theory Dart_Seq
  imports Dart_Bytes
begin

text \<open>
  Sequence arithmetic of \<^verbatim>\<open>core.ts\<close>: 24-bit sequence numbers compared by their modular
  distance. The reference is an unbounded message counter: a sequence number is a counter value
  modulo \<^verbatim>\<open>SEQ_MOD\<close>, and as long as two counters are less than half the space apart the
  modular test orders them as the counters are ordered.
\<close>

definition SEQ_MOD :: nat where
  "SEQ_MOD = push_bit 24 1"

definition DICT_WINDOW :: nat where
  "DICT_WINDOW = 200"

definition seqMask :: "nat \<Rightarrow> nat" where
  "seqMask s = nat (js_and (int s) 0xFFFFFF)"

definition seqDelta :: "nat \<Rightarrow> nat \<Rightarrow> nat" where
  "seqDelta from to = nat (js_and (int to - int from) 0xFFFFFF)"

definition seqNext :: "nat \<Rightarrow> nat" where
  "seqNext s = nat (js_and (int s + 1) 0xFFFFFF)"

text \<open>\<^verbatim>\<open>(highest + k) & 0xFFFFFF\<close>, the \<open>k\<close>-th sequence number after \<open>h\<close>.\<close>

definition seqAdd :: "nat \<Rightarrow> nat \<Rightarrow> nat" where
  "seqAdd h k = nat (js_and (int h + int k) 0xFFFFFF)"

lemma SEQ_MOD_val: "SEQ_MOD = 16777216"
  by (simp add: SEQ_MOD_def push_bit_eq_mult)

lemma seqMask_mod: "seqMask s = s mod 16777216"
  by (simp add: seqMask_def js_and_mask24 nat_mod_as_int)

lemma seqMask_less [simp]: "seqMask s < 16777216"
  by (simp add: seqMask_mod)

lemma seqMask_id [simp]: "s < 16777216 \<Longrightarrow> seqMask s = s"
  by (simp add: seqMask_mod)

lemma seqDelta_mod: "seqDelta a b = nat ((int b - int a) mod 16777216)"
  by (simp add: seqDelta_def js_and_mask24)

lemma seqNext_mod: "seqNext s = Suc s mod 16777216"
  by (simp add: seqNext_def js_and_mask24 nat_mod_as_int add.commute)

lemma seqAdd_mod: "seqAdd h k = (h + k) mod 16777216"
  by (simp add: seqAdd_def js_and_mask24 nat_mod_as_int)

lemma seqDelta_less [simp]: "seqDelta a b < 16777216"
  by (simp add: seqDelta_mod nat_less_iff)

lemma seqNext_less [simp]: "seqNext s < 16777216"
  by (simp add: seqNext_mod)

lemma seqAdd_less [simp]: "seqAdd h k < 16777216"
  by (simp add: seqAdd_mod)

lemma seqDelta_self [simp]: "seqDelta a a = 0"
  by (simp add: seqDelta_mod)

lemma seqNext_as_add: "seqNext s = seqAdd s 1"
  by (simp add: seqNext_mod seqAdd_mod)

lemma seqAdd_Suc: "seqAdd h (Suc k) = seqNext (seqAdd h k)"
  by (simp add: seqNext_mod seqAdd_mod mod_Suc_eq)

lemma seqAdd_0: "h < 16777216 \<Longrightarrow> seqAdd h 0 = h"
  by (simp add: seqAdd_mod)

text \<open>The distance undoes the step count, and the step count the distance.\<close>

lemma seqDelta_seqAdd: "k < 16777216 \<Longrightarrow> seqDelta h (seqAdd h k) = k"
proof -
  assume k: "k < 16777216"
  have "(int ((h + k) mod 16777216) - int h) mod 16777216 = int k mod 16777216"
    by (simp add: zmod_int mod_diff_left_eq)
  then show ?thesis using k by (simp add: seqDelta_mod seqAdd_mod)
qed

lemma seqAdd_seqDelta: "s < 16777216 \<Longrightarrow> seqAdd h (seqDelta h s) = s"
proof -
  assume s: "s < 16777216"
  have "int (seqAdd h (seqDelta h s)) = (int h + (int s - int h) mod 16777216) mod 16777216"
    by (simp add: seqAdd_mod seqDelta_mod zmod_int)
  also have "\<dots> = int s mod 16777216" by (simp add: mod_add_right_eq)
  finally show ?thesis using s by simp
qed

lemma seqDelta_0_iff: "a < 16777216 \<Longrightarrow> b < 16777216 \<Longrightarrow> seqDelta a b = 0 \<longleftrightarrow> a = b"
  by (metis seqAdd_0 seqAdd_seqDelta seqDelta_self)

lemma seqDelta_1_iff: "b < 16777216 \<Longrightarrow> seqDelta a b = 1 \<longleftrightarrow> b = seqNext a"
  by (metis seqAdd_seqDelta seqDelta_seqAdd seqNext_as_add one_less_numeral_iff semiring_norm(76))

lemma seqDelta_next [simp]: "seqDelta a (seqNext a) = Suc 0"
  using seqDelta_1_iff [of "seqNext a" a] by simp

lemma seqDelta_swap:
  assumes "a < 16777216" "b < 16777216" "a \<noteq> b"
  shows "seqDelta a b + seqDelta b a = 16777216"
proof -
  have "(int b - int a) mod 16777216 + (int a - int b) mod 16777216 = 16777216"
  proof -
    have nz: "(int b - int a) mod 16777216 \<noteq> 0"
      using assms by (metis seqDelta_0_iff seqDelta_mod nat_0)
    have "(int a - int b) mod 16777216 = (- (int b - int a)) mod 16777216" by simp
    also have "\<dots> = 16777216 - (int b - int a) mod 16777216"
      using nz by (simp only: zmod_zminus1_eq_if if_False)
    finally show ?thesis by simp
  qed
  then show ?thesis
    by (simp add: seqDelta_mod flip: nat_add_distrib)
qed

text \<open>Distances to a common reference point separate sequence numbers.\<close>

lemma seqDelta_to_inj:
  assumes "a < 16777216" "b < 16777216" "seqDelta a r = seqDelta b r"
  shows "a = b"
proof -
  have "(int r - int a) mod 16777216 = (int r - int b) mod 16777216"
    using assms(3) by (simp add: seqDelta_mod eq_nat_nat_iff)
  then have "(int r - (int r - int a)) mod 16777216 = (int r - (int r - int b)) mod 16777216"
    by (metis mod_diff_right_eq)
  then show ?thesis using assms(1,2) by simp
qed

section \<open>The modular test against unbounded counters\<close>

lemma seqDelta_counter_mod: "seqDelta (n mod 16777216) (m mod 16777216) = seqDelta n m"
  by (simp add: seqDelta_mod zmod_int mod_diff_eq)

lemma seqDelta_counter:
  assumes "n \<le> m" "m < n + 16777216"
  shows "seqDelta (n mod 16777216) (m mod 16777216) = m - n"
proof -
  have "seqDelta n m = nat ((int (m - n)) mod 16777216)"
    using assms(1) by (simp add: seqDelta_mod of_nat_diff)
  then show ?thesis using assms by (simp add: seqDelta_counter_mod)
qed

definition seq_newer :: "nat \<Rightarrow> nat \<Rightarrow> bool" where
  "seq_newer h s \<longleftrightarrow> 0 < seqDelta h s \<and> seqDelta h s < SEQ_MOD div 2"

lemma seq_newer_counter:
  assumes "\<bar>int m - int n\<bar> < 8388608"
  shows "seq_newer (n mod 16777216) (m mod 16777216) \<longleftrightarrow> n < m"
proof (cases "n \<le> m")
  case True
  then have "seqDelta (n mod 16777216) (m mod 16777216) = m - n"
    using assms by (intro seqDelta_counter) auto
  with True assms show ?thesis by (auto simp: seq_newer_def SEQ_MOD_val)
next
  case False
  let ?a = "n mod 16777216" and ?b = "m mod 16777216"
  have dist: "seqDelta ?b ?a = n - m"
    using False assms by (intro seqDelta_counter) auto
  have "?a \<noteq> ?b"
    using dist False by auto
  then have "seqDelta ?a ?b = 16777216 - (n - m)"
    using seqDelta_swap [of ?a ?b] dist by (metis add_diff_cancel_right' mod_less_divisor zero_less_numeral)
  then show ?thesis using False assms by (simp add: seq_newer_def SEQ_MOD_val)
qed

lemma seq_newer_asym:
  "a < 16777216 \<Longrightarrow> b < 16777216 \<Longrightarrow> seq_newer a b \<Longrightarrow> \<not> seq_newer b a"
  using seqDelta_swap [of a b] by (cases "a = b") (auto simp: seq_newer_def SEQ_MOD_val)

lemma seq_newer_next [simp]: "seq_newer s (seqNext s)"
  by (simp add: seq_newer_def SEQ_MOD_val)

end
