(* ===== verification/Dart_Crypto.thy ===== *)
theory Dart_Crypto
  imports Dart_Seq
begin

text \<open>
  The primitives the program takes from Node's \<^verbatim>\<open>crypto\<close> and from \<^verbatim>\<open>pako\<close> are a parameter of
  the model (\<open>prims\<close>); what their documentation promises is stated by the named predicates below
  and appears as a hypothesis where a property needs it. On top of them the theory models the
  control-frame authentication of \<^verbatim>\<open>core.ts\<close>: \<^verbatim>\<open>safeEqual\<close>, \<^verbatim>\<open>pairwiseKey\<close>,
  \<^verbatim>\<open>signControlFrame\<close>, \<^verbatim>\<open>verifyControlFrame\<close>, \<^verbatim>\<open>stripControlFrame\<close>.
\<close>

section \<open>Primitives and their contracts\<close>

record prims =
  sha256 :: "buffer \<Rightarrow> buffer"
  hmacSha256 :: "buffer \<Rightarrow> buffer \<Rightarrow> buffer"                 \<comment> \<open>key, data\<close>
  gcmSeal :: "buffer \<Rightarrow> buffer \<Rightarrow> buffer \<Rightarrow> buffer \<Rightarrow> buffer \<times> buffer"
    \<comment> \<open>key, nonce, additional data, plaintext: ciphertext and 16-byte tag\<close>
  gcmOpen :: "buffer \<Rightarrow> buffer \<Rightarrow> buffer \<Rightarrow> buffer \<Rightarrow> buffer \<Rightarrow> buffer option"
    \<comment> \<open>key, nonce, additional data, ciphertext, tag\<close>
  ecdhPublic :: "buffer \<Rightarrow> buffer"                          \<comment> \<open>private key\<close>
  ecdhSecret :: "buffer \<Rightarrow> buffer \<Rightarrow> buffer option"          \<comment> \<open>private key, peer's public key\<close>
  deflateRaw :: "buffer \<Rightarrow> buffer \<Rightarrow> buffer"                 \<comment> \<open>dictionary, data\<close>
  inflateRaw :: "buffer \<Rightarrow> buffer \<Rightarrow> buffer option"          \<comment> \<open>dictionary, data\<close>
  randomBytes :: "nat \<Rightarrow> nat \<Rightarrow> buffer"                     \<comment> \<open>number of the draw, size\<close>

definition digests_sized :: "prims \<Rightarrow> bool" where
  "digests_sized P \<longleftrightarrow> (\<forall>x. length (sha256 P x) = 32) \<and> (\<forall>k x. length (hmacSha256 P k x) = 32)"

definition gcm_correct :: "prims \<Rightarrow> bool" where
  "gcm_correct P \<longleftrightarrow> (\<forall>k n a p. length k = 32 \<longrightarrow> n \<noteq> [] \<longrightarrow>
     length (fst (gcmSeal P k n a p)) = length p \<and> length (snd (gcmSeal P k n a p)) = 16 \<and>
     gcmOpen P k n a (fst (gcmSeal P k n a p)) (snd (gcmSeal P k n a p)) = Some p)"

text \<open>
  Decryption recomputes the tag: with a full-length tag it succeeds only on what encryption of the
  recovered plaintext under the same key, nonce and additional data gives.
\<close>

definition gcm_authentic :: "prims \<Rightarrow> bool" where
  "gcm_authentic P \<longleftrightarrow> (\<forall>k n a c t p. length t = 16 \<longrightarrow> gcmOpen P k n a c t = Some p \<longrightarrow>
     gcmSeal P k n a p = (c, t))"

definition ecdh_agrees :: "prims \<Rightarrow> bool" where
  "ecdh_agrees P \<longleftrightarrow>
     (\<forall>a b. ecdhSecret P a (ecdhPublic P b) \<noteq> None \<and>
            ecdhSecret P a (ecdhPublic P b) = ecdhSecret P b (ecdhPublic P a)) \<and>
     (\<forall>a. length (ecdhPublic P a) = 65)"

definition deflate_lossless :: "prims \<Rightarrow> bool" where
  "deflate_lossless P \<longleftrightarrow> (\<forall>d p. inflateRaw P d (deflateRaw P d p) = Some p)"

definition random_sized :: "prims \<Rightarrow> bool" where
  "random_sized P \<longleftrightarrow> (\<forall>i n. length (randomBytes P i n) = n)"

lemma digest_lengths:
  assumes "digests_sized P"
  shows "length (sha256 P x) = 32" and "length (hmacSha256 P k x) = 32"
  using assms by (auto simp: digests_sized_def)

section \<open>AES-256-GCM as the code calls it\<close>

text \<open>
  \<^verbatim>\<open>createCipheriv('aes-256-gcm', key, nonce)\<close>, \<^verbatim>\<open>setAAD\<close>, \<^verbatim>\<open>update\<close>, \<^verbatim>\<open>final\<close>,
  \<^verbatim>\<open>getAuthTag\<close>; and the same with a decipher and \<^verbatim>\<open>setAuthTag\<close>.
\<close>

definition gcm_encrypt :: "prims \<Rightarrow> buffer \<Rightarrow> buffer \<Rightarrow> buffer \<Rightarrow> buffer \<Rightarrow> exn + buffer \<times> buffer" where
  "gcm_encrypt P key nonce aad pt =
     sbind (sguard (length key = 32) InvalidKeyLength) (\<lambda>_.
     sbind (sguard (nonce \<noteq> []) InvalidIV) (\<lambda>_.
     Inr (gcmSeal P key nonce aad pt)))"

definition gcm_decrypt ::
    "prims \<Rightarrow> buffer \<Rightarrow> buffer \<Rightarrow> buffer \<Rightarrow> buffer \<Rightarrow> buffer \<Rightarrow> exn + buffer" where
  "gcm_decrypt P key nonce aad ct tag =
     sbind (sguard (length key = 32) InvalidKeyLength) (\<lambda>_.
     sbind (sguard (nonce \<noteq> []) InvalidIV) (\<lambda>_.
     sbind (sguard (length tag \<in> {4, 8, 12, 13, 14, 15, 16}) InvalidTagLength) (\<lambda>_.
     (case gcmOpen P key nonce aad ct tag of None \<Rightarrow> Inl AuthFailed | Some p \<Rightarrow> Inr p))))"

lemma gcm_encrypt_ok:
  "length key = 32 \<Longrightarrow> nonce \<noteq> [] \<Longrightarrow> gcm_encrypt P key nonce aad pt = Inr (gcmSeal P key nonce aad pt)"
  by (simp add: gcm_encrypt_def)

lemma gcm_sizes:
  assumes "gcm_correct P" "length key = 32" "nonce \<noteq> []"
  shows "length (fst (gcmSeal P key nonce aad pt)) = length pt"
    and "length (snd (gcmSeal P key nonce aad pt)) = 16"
  using assms by (auto simp: gcm_correct_def)

lemma gcm_roundtrip:
  assumes "gcm_correct P" "length key = 32" "nonce \<noteq> []"
  shows "gcm_decrypt P key nonce aad (fst (gcmSeal P key nonce aad pt))
           (snd (gcmSeal P key nonce aad pt)) = Inr pt"
  using assms by (simp add: gcm_decrypt_def gcm_correct_def)

lemma gcm_decrypt_Inr:
  assumes "gcm_authentic P" "gcm_decrypt P key nonce aad ct tag = Inr pt" "length tag = 16"
  shows "gcm_encrypt P key nonce aad pt = Inr (ct, tag)"
  using assms
  by (auto simp: gcm_decrypt_def gcm_encrypt_def gcm_authentic_def split: option.splits)

section \<open>Control-frame authentication\<close>

definition CTRL_MAC_LEN :: nat where
  "CTRL_MAC_LEN = 32"

definition safeEqual :: "buffer \<Rightarrow> buffer \<Rightarrow> bool" where
  "safeEqual a b =
     (if length a \<noteq> length b then False
      else fold (\<lambda>(x, y) diff. diff OR (x XOR y)) (zip a b) 0 = 0)"

definition pairwiseKey :: "prims \<Rightarrow> buffer \<Rightarrow> buffer \<Rightarrow> exn + buffer" where
  "pairwiseKey P myEcdh peerPubKey =
     (case ecdhSecret P myEcdh peerPubKey of
        None \<Rightarrow> Inl InvalidPublicKey
      | Some secret \<Rightarrow> Inr (sha256 P secret))"

definition signControlFrame :: "prims \<Rightarrow> buffer \<Rightarrow> buffer \<Rightarrow> buffer" where
  "signControlFrame P frame key = frame @ hmacSha256 P key frame"

definition verifyControlFrame :: "prims \<Rightarrow> buffer \<Rightarrow> buffer \<Rightarrow> buffer option" where
  "verifyControlFrame P frame key =
     (if length frame < CTRL_MAC_LEN then None
      else
        let payload = subarray frame 0 (int (length frame) - int CTRL_MAC_LEN);
            mac = subarray_from frame (int (length frame) - int CTRL_MAC_LEN);
            expected = hmacSha256 P key payload
        in if \<not> safeEqual expected mac then None else Some payload)"

definition stripControlFrame :: "buffer \<Rightarrow> buffer option" where
  "stripControlFrame frame =
     (if length frame < CTRL_MAC_LEN then None
      else Some (subarray frame 0 (int (length frame) - int CTRL_MAC_LEN)))"

text \<open>The accumulator only grows, so it is zero in the end exactly when no byte differed.\<close>

lemma or_eq_0_iff: "(a OR b = 0) \<longleftrightarrow> a = 0 \<and> b = (0 :: byte)"
  by (auto simp: bit_eq_iff bit_or_iff)

lemma xor_eq_0_iff: "(a XOR b = 0) \<longleftrightarrow> a = (b :: byte)"
  by (auto simp: bit_eq_iff bit_xor_iff)

lemma safeEqual_fold:
  "fold (\<lambda>(x, y) diff. diff OR (x XOR y)) ps d = 0 \<longleftrightarrow> d = (0 :: byte) \<and> (\<forall>(x, y) \<in> set ps. x = y)"
  by (induction ps arbitrary: d) (auto simp: or_eq_0_iff xor_eq_0_iff)

lemma safeEqual_iff: "safeEqual a b \<longleftrightarrow> a = b"
proof (cases "length a = length b")
  case True
  have "(\<forall>(x, y) \<in> set (zip a b). x = y) \<longleftrightarrow> a = b"
    using True by (induction rule: list_induct2) auto
  with True show ?thesis by (simp add: safeEqual_def safeEqual_fold)
qed (auto simp: safeEqual_def)

lemma split_mac:
  assumes "32 \<le> length f"
  shows "subarray f 0 (int (length f) - int CTRL_MAC_LEN) = take (length f - 32) f"
    and "subarray_from f (int (length f) - int CTRL_MAC_LEN) = drop (length f - 32) f"
  using assms by (simp_all add: subarray_nonneg CTRL_MAC_LEN_def nat_diff_distrib)

lemma strip_sign:
  assumes "digests_sized P"
  shows "stripControlFrame (signControlFrame P f k) = Some f"
proof -
  have "length (signControlFrame P f k) = length f + 32"
    using assms by (simp add: signControlFrame_def digest_lengths)
  then show ?thesis
    by (simp add: stripControlFrame_def CTRL_MAC_LEN_def subarray_nonneg) (simp add: signControlFrame_def)
qed

lemma verify_sign_iff:
  assumes "digests_sized P"
  shows "verifyControlFrame P f k = Some p \<longleftrightarrow> f = signControlFrame P p k"
proof (cases "length f < 32")
  case True
  then show ?thesis
    using assms by (auto simp: verifyControlFrame_def CTRL_MAC_LEN_def signControlFrame_def digest_lengths)
next
  case False
  then have len: "32 \<le> length f" by simp
  let ?p = "take (length f - 32) f" and ?m = "drop (length f - 32) f"
  have ver: "verifyControlFrame P f k = (if hmacSha256 P k ?p = ?m then Some ?p else None)"
    using len split_mac [OF len]
    by (simp add: verifyControlFrame_def safeEqual_iff CTRL_MAC_LEN_def Let_def)
  have sig: "f = signControlFrame P p k \<longleftrightarrow> p = ?p \<and> hmacSha256 P k p = ?m"
  proof
    assume f: "f = signControlFrame P p k"
    then have "length f - 32 = length p"
      using assms by (simp add: signControlFrame_def digest_lengths)
    then show "p = ?p \<and> hmacSha256 P k p = ?m"
      using f by (simp add: signControlFrame_def)
  next
    assume pm: "p = ?p \<and> hmacSha256 P k p = ?m"
    then have "signControlFrame P p k = ?p @ ?m"
      unfolding signControlFrame_def by metis
    then show "f = signControlFrame P p k" by simp
  qed
  show ?thesis unfolding ver sig by auto
qed

lemma verify_sign: "digests_sized P \<Longrightarrow> verifyControlFrame P (signControlFrame P f k) k = Some f"
  by (simp add: verify_sign_iff)

lemma verify_is_strip: "verifyControlFrame P f k = Some p \<Longrightarrow> stripControlFrame f = Some p"
  by (auto simp: verifyControlFrame_def stripControlFrame_def Let_def split: if_splits)

lemma pairwiseKey_agree:
  assumes "ecdh_agrees P"
  shows "\<exists>k. pairwiseKey P a (ecdhPublic P b) = Inr k \<and> pairwiseKey P b (ecdhPublic P a) = Inr k"
proof -
  from assms have ab: "ecdhSecret P a (ecdhPublic P b) = ecdhSecret P b (ecdhPublic P a)"
    and "ecdhSecret P a (ecdhPublic P b) \<noteq> None"
    unfolding ecdh_agrees_def by blast+
  then obtain s where "ecdhSecret P a (ecdhPublic P b) = Some s"
    and "ecdhSecret P b (ecdhPublic P a) = Some s" by auto
  then show ?thesis by (simp add: pairwiseKey_def)
qed

lemma pairwiseKey_length:
  "digests_sized P \<Longrightarrow> pairwiseKey P a b = Inr k \<Longrightarrow> length k = 32"
  by (auto simp: pairwiseKey_def digest_lengths split: option.splits)

section \<open>A concrete instance of the primitives\<close>

text \<open>
  Small executable functions that satisfy all the contracts at once, so that the hypotheses of the
  properties are known to be satisfiable together: checksums for digests and tags, the identity
  for encryption and compression, byte-wise addition for the key agreement.
\<close>

definition checksum :: "nat \<Rightarrow> buffer \<Rightarrow> buffer" where
  "checksum n bs = be n (sum_list (map unat bs) + length bs)"

definition demo_tag :: "buffer \<Rightarrow> buffer \<Rightarrow> buffer \<Rightarrow> buffer \<Rightarrow> buffer" where
  "demo_tag k n a p = checksum 16 (k @ n @ a @ p)"

definition demo :: prims where
  "demo = \<lparr>
     sha256 = checksum 32,
     hmacSha256 = (\<lambda>k x. checksum 32 (k @ x)),
     gcmSeal = (\<lambda>k n a p. (p, demo_tag k n a p)),
     gcmOpen = (\<lambda>k n a c t. if t = demo_tag k n a c then Some c else None),
     ecdhPublic = (\<lambda>a. 4 # checksum 64 a),
     ecdhSecret = (\<lambda>a q. if length q = 65 then Some (be 64 (unbe (checksum 64 a) + unbe (tl q))) else None),
     deflateRaw = (\<lambda>d x. x),
     inflateRaw = (\<lambda>d x. Some x),
     randomBytes = (\<lambda>i n. be n (i + 1)) \<rparr>"

lemma length_checksum [simp]: "length (checksum n x) = n"
  by (simp add: checksum_def)

lemma demo_contracts:
  shows "digests_sized demo" "gcm_correct demo" "gcm_authentic demo" "ecdh_agrees demo"
    "deflate_lossless demo" "random_sized demo"
  by (auto simp: demo_def digests_sized_def gcm_correct_def gcm_authentic_def ecdh_agrees_def
      deflate_lossless_def random_sized_def demo_tag_def add.commute split: if_splits)

end
