(* ===== verification/Dart_Ratchet.thy ===== *)
theory Dart_Ratchet
  imports Dart_Crypto
begin

text \<open>
  The per-sender message ratchet of \<^verbatim>\<open>core.ts\<close>: \<^verbatim>\<open>chainMessageKey\<close>,
  \<^verbatim>\<open>chainNextKey\<close>, \<^verbatim>\<open>advanceChain\<close>. The locale \<open>ratchet\<close> is what the clients rely on:
  advancing a state is a jump of as many chain steps as messages were skipped. From it follow, once,
  that every state on a sender's chain yields the same message key, whatever was lost or re-shared.
\<close>

record ChainState =
  cs_key :: buffer
  cs_index :: nat

text \<open>The two labels, as the bytes of the ASCII literals \<^verbatim>\<open>'DartMsgKey'\<close> and \<^verbatim>\<open>'DartChainKey'\<close>.\<close>

definition ascii :: "string \<Rightarrow> buffer" where
  "ascii s = map (\<lambda>c. word_of_nat (of_char c)) s"

definition chainMessageKey :: "prims \<Rightarrow> buffer \<Rightarrow> nat \<Rightarrow> buffer" where
  "chainMessageKey P chainKey index =
     hmacSha256 P chainKey (ascii ''DartMsgKey'' @ be 4 (js_ushr0 index))"

definition chainNextKey :: "prims \<Rightarrow> buffer \<Rightarrow> buffer" where
  "chainNextKey P chainKey = hmacSha256 P chainKey (ascii ''DartChainKey'')"

text \<open>The loop of \<^verbatim>\<open>advanceChain\<close>: \<^verbatim>\<open>while (index < targetIndex)\<close>.\<close>

function advance_loop :: "prims \<Rightarrow> buffer \<Rightarrow> nat \<Rightarrow> nat \<Rightarrow> buffer \<times> nat" where
  "advance_loop P key index targetIndex =
     (if index < targetIndex then advance_loop P (chainNextKey P key) (index + 1) targetIndex
      else (key, index))"
  by pat_completeness auto
termination
  by (relation "measure (\<lambda>(P, key, index, targetIndex). targetIndex - index)") auto

declare advance_loop.simps [simp del]

definition advanceChain :: "prims \<Rightarrow> ChainState \<Rightarrow> nat \<Rightarrow> buffer \<times> ChainState" where
  "advanceChain P state targetIndex =
     (let (key, index) = advance_loop P (cs_key state) (cs_index state) targetIndex;
          messageKey = chainMessageKey P key index
      in (messageKey, \<lparr>cs_key = chainNextKey P key, cs_index = index + 1\<rparr>))"

lemma advance_loop_skips:
  "i \<le> j \<Longrightarrow> advance_loop P k i j = ((chainNextKey P ^^ (j - i)) k, j)"
proof (induction P k i j rule: advance_loop.induct)
  case (1 P key index targetIndex)
  show ?case
  proof (cases "index < targetIndex")
    case True
    then have "targetIndex - index = Suc (targetIndex - (index + 1))" by simp
    then have "(chainNextKey P ^^ (targetIndex - index)) key
        = (chainNextKey P ^^ (targetIndex - (index + 1))) (chainNextKey P key)"
      by (simp only: funpow_Suc_right comp_apply)
    with True "1.IH" show ?thesis by (simp add: advance_loop.simps [of P key])
  next
    case False
    with "1.prems" show ?thesis by (simp add: advance_loop.simps [of P key])
  qed
qed

lemma advance_loop_past: "j \<le> i \<Longrightarrow> advance_loop P k i j = (k, i)"
  by (simp add: advance_loop.simps)

section \<open>What the clients rely on\<close>

text \<open>
  The locale talks about a chain by its seed: a state is on the chain when its key is as many steps
  from the seed as its index says.
\<close>

locale ratchet =
  fixes step :: "buffer \<Rightarrow> buffer"
    and msg :: "buffer \<Rightarrow> nat \<Rightarrow> buffer"
    and adv :: "ChainState \<Rightarrow> nat \<Rightarrow> buffer \<times> ChainState"
  assumes adv_jump: "cs_index s \<le> j \<Longrightarrow>
    adv s j = (msg ((step ^^ (j - cs_index s)) (cs_key s)) j,
               \<lparr>cs_key = (step ^^ (j - cs_index s + 1)) (cs_key s), cs_index = j + 1\<rparr>)"
begin

lemma adv_on_chain:
  assumes "cs_key s = (step ^^ cs_index s) seed" "cs_index s \<le> j"
  shows "adv s j = (msg ((step ^^ j) seed) j, \<lparr>cs_key = (step ^^ (j + 1)) seed, cs_index = j + 1\<rparr>)"
proof -
  have "(step ^^ (j - cs_index s)) (cs_key s) = (step ^^ j) seed"
    using assms by (simp add: funpow_add [symmetric, THEN fun_cong, unfolded comp_apply])
  moreover from this have "(step ^^ (j - cs_index s + 1)) (cs_key s) = (step ^^ (j + 1)) seed"
    by simp
  ultimately show ?thesis using assms(2) by (simp add: adv_jump)
qed

text \<open>Two holders of one chain, whatever each of them lost, derive the same key and state.\<close>

lemma adv_agree:
  assumes "cs_key s = (step ^^ cs_index s) seed" "cs_key t = (step ^^ cs_index t) seed"
    and "cs_index s \<le> j" "cs_index t \<le> j"
  shows "adv s j = adv t j"
  using assms by (simp add: adv_on_chain)

lemma adv_stays_on_chain:
  assumes "cs_key s = (step ^^ cs_index s) seed" "cs_index s \<le> j"
  shows "cs_key (snd (adv s j)) = (step ^^ cs_index (snd (adv s j))) seed"
    and "cs_index (snd (adv s j)) = j + 1"
  using assms by (simp_all add: adv_on_chain)

end

interpretation core: ratchet "chainNextKey P" "chainMessageKey P" "advanceChain P" for P
  by unfold_locales (simp add: advanceChain_def advance_loop_skips)

definition on_chain :: "prims \<Rightarrow> buffer \<Rightarrow> ChainState \<Rightarrow> bool" where
  "on_chain P seed s \<longleftrightarrow> cs_key s = (chainNextKey P ^^ cs_index s) seed"

lemma on_chain_seed [simp]: "on_chain P seed \<lparr>cs_key = seed, cs_index = 0\<rparr>"
  by (simp add: on_chain_def)

lemmas advanceChain_on_chain = core.adv_on_chain [folded on_chain_def]
lemmas advanceChain_agree = core.adv_agree [folded on_chain_def]
lemmas advanceChain_stays = core.adv_stays_on_chain [folded on_chain_def]

end
