(* ===== verification/Dart_Utf8.thy ===== *)
theory Dart_Utf8
  imports Dart_Bytes
begin

text \<open>
  JavaScript strings (sequences of UTF-16 code units) and the two conversions the codec uses:
  \<^verbatim>\<open>Buffer.from(s, 'utf-8')\<close>, which writes U+FFFD for a lone surrogate, and
  \<^verbatim>\<open>buf.toString('utf-8')\<close>, the standard decoder with U+FFFD for every malformed sequence.
  They are inverse on well-formed strings.
\<close>

type_synonym jsstring = "16 word list"

section \<open>Code points and UTF-16\<close>

definition is_high :: "nat \<Rightarrow> bool" where "is_high x \<longleftrightarrow> 0xD800 \<le> x \<and> x < 0xDC00"
definition is_low :: "nat \<Rightarrow> bool" where "is_low x \<longleftrightarrow> 0xDC00 \<le> x \<and> x < 0xE000"

definition is_scalar :: "nat \<Rightarrow> bool" where
  "is_scalar c \<longleftrightarrow> c < 0x110000 \<and> \<not> is_high c \<and> \<not> is_low c"

fun code_points :: "jsstring \<Rightarrow> nat list" where
  "code_points [] = []"
| "code_points [u] = [if is_high (unat u) \<or> is_low (unat u) then 0xFFFD else unat u]"
| "code_points (u # v # rest) =
     (if is_high (unat u) \<and> is_low (unat v)
      then (0x10000 + (unat u - 0xD800) * 1024 + (unat v - 0xDC00)) # code_points rest
      else (if is_high (unat u) \<or> is_low (unat u) then 0xFFFD else unat u) # code_points (v # rest))"

definition code_units :: "nat \<Rightarrow> jsstring" where
  "code_units c =
     (if c < 0x10000 then [word_of_nat c]
      else [word_of_nat (0xD800 + (c - 0x10000) div 1024), word_of_nat (0xDC00 + (c - 0x10000) mod 1024)])"

fun wf_utf16 :: "jsstring \<Rightarrow> bool" where
  "wf_utf16 [] = True"
| "wf_utf16 [u] = (\<not> is_high (unat u) \<and> \<not> is_low (unat u))"
| "wf_utf16 (u # v # rest) =
     (if is_high (unat u) then is_low (unat v) \<and> wf_utf16 rest
      else \<not> is_low (unat u) \<and> wf_utf16 (v # rest))"

section \<open>Encoding and decoding\<close>

definition utf8_point :: "nat \<Rightarrow> nat list" where
  "utf8_point c =
     (if c < 0x80 then [c]
      else if c < 0x800 then [0xC0 + c div 64, 0x80 + c mod 64]
      else if c < 0x10000 then [0xE0 + c div 4096, 0x80 + c div 64 mod 64, 0x80 + c mod 64]
      else [0xF0 + c div 262144, 0x80 + c div 4096 mod 64, 0x80 + c div 64 mod 64, 0x80 + c mod 64])"

definition utf8_encode :: "jsstring \<Rightarrow> buffer" where
  "utf8_encode s = map word_of_nat (concat (map utf8_point (code_points s)))"

text \<open>The decoder's state: the value so far, the bytes still needed and the bounds of the next one.\<close>

function (sequential) utf8_run :: "nat \<Rightarrow> nat \<Rightarrow> nat \<Rightarrow> nat \<Rightarrow> nat list \<Rightarrow> nat list" where
  "utf8_run c 0 lo hi [] = []"
| "utf8_run c (Suc n) lo hi [] = [0xFFFD]"
| "utf8_run c 0 lo hi (b # bs) =
     (if b < 0x80 then b # utf8_run 0 0 0x80 0xBF bs
      else if 0xC2 \<le> b \<and> b \<le> 0xDF then utf8_run (b - 0xC0) 1 0x80 0xBF bs
      else if 0xE0 \<le> b \<and> b \<le> 0xEF
        then utf8_run (b - 0xE0) 2 (if b = 0xE0 then 0xA0 else 0x80) (if b = 0xED then 0x9F else 0xBF) bs
      else if 0xF0 \<le> b \<and> b \<le> 0xF4
        then utf8_run (b - 0xF0) 3 (if b = 0xF0 then 0x90 else 0x80) (if b = 0xF4 then 0x8F else 0xBF) bs
      else 0xFFFD # utf8_run 0 0 0x80 0xBF bs)"
| "utf8_run c (Suc n) lo hi (b # bs) =
     (if b < lo \<or> hi < b then 0xFFFD # utf8_run 0 0 0x80 0xBF (b # bs)
      else if n = 0 then (c * 64 + (b - 0x80)) # utf8_run 0 0 0x80 0xBF bs
      else utf8_run (c * 64 + (b - 0x80)) n 0x80 0xBF bs)"
  by pat_completeness auto
termination
  by (relation "measure (\<lambda>(c, n, lo, hi, bs). 2 * length bs + (if n = 0 then 0 else 1))") auto

definition utf8_decode :: "buffer \<Rightarrow> jsstring" where
  "utf8_decode bs = concat (map code_units (utf8_run 0 0 0x80 0xBF (map unat bs)))"

section \<open>The round trip\<close>

lemma utf8_point_bytes: "is_scalar c \<Longrightarrow> b \<in> set (utf8_point c) \<Longrightarrow> b < 256"
  by (auto simp: utf8_point_def is_scalar_def split: if_splits) 

lemma utf8_run_point:
  assumes "is_scalar c"
  shows "utf8_run 0 0 0x80 0xBF (utf8_point c @ bs) = c # utf8_run 0 0 0x80 0xBF bs"
proof -
  consider "c < 0x80" | "0x80 \<le> c" "c < 0x800" | "0x800 \<le> c" "c < 0x10000" | "0x10000 \<le> c" "c < 0x110000"
    using assms by (fastforce simp: is_scalar_def)
  then show ?thesis
  proof cases
    case 1
    then show ?thesis by (simp add: utf8_point_def)
  next
    case 2
    then have "2 \<le> c div 64" "c div 64 < 32" by auto
    then show ?thesis using 2 by (simp add: utf8_point_def)
  next
    case 3
    define q where "q = c div 64"
    define h m r where "h = q div 64" and "m = q mod 64" and "r = c mod 64"
    have c: "c = 64 * q + r" and q: "q = 64 * h + m" and m: "m < 64" and r: "r < 64"
      by (simp_all add: q_def h_def m_def r_def)
    have h4096: "c div 4096 = h" by (simp add: h_def q_def div_mult2_eq [symmetric])
    have h: "h < 16" and lo: "h = 0 \<Longrightarrow> 32 \<le> m" using 3 c q m r by linarith+
    have hi: "h = 13 \<Longrightarrow> m < 32"
      using assms c q r m by (simp add: is_scalar_def is_high_def is_low_def) arith
    have point: "utf8_point c = [0xE0 + h, 0x80 + m, 0x80 + r]"
      using 3 by (simp add: utf8_point_def h4096 q_def [symmetric] m_def r_def)
    have "utf8_run 0 0 0x80 0xBF ([0xE0 + h, 0x80 + m, 0x80 + r] @ bs)
        = ((h * 64 + m) * 64 + r) # utf8_run 0 0 0x80 0xBF bs"
      using h lo hi m r by (simp add: numeral_2_eq_2) fastforce
    moreover have "(h * 64 + m) * 64 + r = c" using c q by simp
    ultimately show ?thesis by (simp only: point)
  next
    case 4
    define q where "q = c div 64"
    define p where "p = q div 64"
    define h m l r where "h = p div 64" and "m = p mod 64" and "l = q mod 64" and "r = c mod 64"
    have c: "c = 64 * q + r" and q: "q = 64 * p + l" and p: "p = 64 * h + m"
      and m: "m < 64" and l: "l < 64" and r: "r < 64"
      by (simp_all add: p_def q_def h_def m_def l_def r_def)
    have divs: "c div 262144 = h" "c div 4096 = p"
      by (simp_all add: h_def p_def q_def div_mult2_eq [symmetric])
    have h: "h < 5" and lo: "h = 0 \<Longrightarrow> 16 \<le> m" and hi: "h = 4 \<Longrightarrow> m < 16"
      using 4 c q p m l r by linarith+
    have point: "utf8_point c = [0xF0 + h, 0x80 + m, 0x80 + l, 0x80 + r]"
      using 4 by (simp add: utf8_point_def divs q_def [symmetric] m_def l_def r_def)
    have "utf8_run 0 0 0x80 0xBF ([0xF0 + h, 0x80 + m, 0x80 + l, 0x80 + r] @ bs)
        = (((h * 64 + m) * 64 + l) * 64 + r) # utf8_run 0 0 0x80 0xBF bs"
      using h lo hi m l r by (simp add: numeral_3_eq_3) fastforce
    moreover have "((h * 64 + m) * 64 + l) * 64 + r = c" using c q p by simp
    ultimately show ?thesis by (simp only: point)
  qed
qed

lemma utf8_run_points:
  "\<forall>c \<in> set cs. is_scalar c \<Longrightarrow> utf8_run 0 0 0x80 0xBF (concat (map utf8_point cs)) = cs"
  by (induction cs) (auto simp: utf8_run_point)

lemma code_points_scalar: "c \<in> set (code_points s) \<Longrightarrow> is_scalar c"
proof (induction s rule: code_points.induct)
  case (2 u)
  have "unat u < 65536" using unsigned_less [of u] by simp
  with 2 show ?case by (auto simp: is_scalar_def is_high_def is_low_def split: if_splits)
next
  case (3 u v rest)
  have "unat u < 65536" using unsigned_less [of u] by simp
  with 3 show ?case by (auto simp: is_scalar_def is_high_def is_low_def split: if_splits)
qed simp

lemma code_units_code_points: "wf_utf16 s \<Longrightarrow> concat (map code_units (code_points s)) = s"
proof (induction s rule: code_points.induct)
  case (2 u)
  have "unat u < 65536" using unsigned_less [of u] by simp
  with 2 show ?case by (simp add: code_units_def)
next
  case (3 u v rest)
  have u: "unat u < 65536" using unsigned_less [of u] by simp
  show ?case
  proof (cases "is_high (unat u)")
    case True
    with "3.prems" have low: "is_low (unat v)" and rest: "wf_utf16 rest" by auto
    let ?x = "unat u - 0xD800" and ?y = "unat v - 0xDC00"
    have y: "?y < 1024" using low by (auto simp: is_low_def)
    have "code_units (0x10000 + ?x * 1024 + ?y) = [word_of_nat (0xD800 + ?x), word_of_nat (0xDC00 + ?y)]"
      using y by (simp add: code_units_def)
    also have "\<dots> = [u, v]"
      using True low by (auto simp: is_high_def is_low_def)
    finally show ?thesis using True low rest "3.IH"(1) by simp
  next
    case False
    with 3 u show ?thesis by (simp add: code_units_def)
  qed
qed simp

lemma utf8_roundtrip: "wf_utf16 s \<Longrightarrow> utf8_decode (utf8_encode s) = s"
proof -
  assume wf: "wf_utf16 s"
  let ?bs = "concat (map utf8_point (code_points s))"
  have "b < 256" if "b \<in> set ?bs" for b
    using that utf8_point_bytes code_points_scalar by auto
  then have "map unat (map (word_of_nat :: nat \<Rightarrow> byte) ?bs) = ?bs"
    by (auto simp: unat_byte_of_nat intro!: map_idI)
  then have "utf8_decode (utf8_encode s) = concat (map code_units (utf8_run 0 0 0x80 0xBF ?bs))"
    by (simp only: utf8_decode_def utf8_encode_def)
  also have "\<dots> = concat (map code_units (code_points s))"
    by (simp add: utf8_run_points code_points_scalar)
  finally show ?thesis using wf by (simp add: code_units_code_points)
qed

end
