(* ===== verification/Dart_Codec.thy ===== *)
theory Dart_Codec
  imports Dart_Ratchet Dart_Utf8
begin

text \<open>
  The wire format: the frames of \<^verbatim>\<open>core.ts\<close> as records and the class \<^verbatim>\<open>Codec\<close>, one definition
  per static method. An encoder fills its header by the writes the code makes, at the offsets the
  code has; the optional nonce argument is explicit. The proofs about them are in
  \<^verbatim>\<open>Dart_Codec_Laws\<close>.
\<close>

definition TYPE_DATA :: nat where "TYPE_DATA = 0x01"
definition TYPE_NACK :: nat where "TYPE_NACK = 0x02"
definition TYPE_SYNC :: nat where "TYPE_SYNC = 0x03"
definition TYPE_KEY_REQ :: nat where "TYPE_KEY_REQ = 0x04"
definition TYPE_KEY_SHARE :: nat where "TYPE_KEY_SHARE = 0x08"
definition TYPE_MEMBER_INFO :: nat where "TYPE_MEMBER_INFO = 0x09"
definition TYPE_CHAIN_SHARE :: nat where "TYPE_CHAIN_SHARE = 0x0A"
definition TYPE_DICT_RESET :: nat where "TYPE_DICT_RESET = 0x06"
definition TYPE_ACK :: nat where "TYPE_ACK = 0x07"

lemmas TYPE_defs = TYPE_DATA_def TYPE_NACK_def TYPE_SYNC_def TYPE_KEY_REQ_def TYPE_KEY_SHARE_def
  TYPE_MEMBER_INFO_def TYPE_CHAIN_SHARE_def TYPE_DICT_RESET_def TYPE_ACK_def

definition DICT_FP_LEN :: nat where "DICT_FP_LEN = 4"

section \<open>Frames\<close>

record DataDart =
  dd_type :: nat
  dd_convId :: nat
  dd_senderId :: nat
  dd_seq :: nat
  dd_payload :: jsstring

record NackDart =
  nk_type :: nat
  nk_convId :: nat
  nk_senderId :: nat
  nk_targetId :: nat
  nk_missingSeq :: "nat list"

record SyncDart =
  sy_type :: nat
  sy_convId :: nat
  sy_senderId :: nat
  sy_highestSeq :: nat

record KeyReqDart =
  kr_type :: nat
  kr_convId :: nat
  kr_senderId :: nat
  kr_reqNonce :: buffer
  kr_clientPubKey :: buffer

record KeyShareDart =
  ks_type :: nat
  ks_convId :: nat
  ks_senderId :: nat
  ks_targetId :: nat
  ks_epoch :: nat
  ks_nonce :: buffer
  ks_encryptedKey :: buffer

record MemberInfo =
  mi_type :: nat
  mi_convId :: nat
  mi_senderId :: nat
  mi_serverPubKey :: buffer
  mi_creator :: bool
  mi_members :: "(nat \<times> buffer) list"

record DictResetDart =
  dr_type :: nat
  dr_convId :: nat
  dr_senderId :: nat
  dr_targetId :: nat

record AckDart =
  ak_type :: nat
  ak_convId :: nat
  ak_senderId :: nat
  ak_targetId :: nat
  ak_seq :: nat

record DecryptedData =
  dc_type :: nat
  dc_convId :: nat
  dc_senderId :: nat
  dc_seq :: nat
  dc_compressed :: buffer
  dc_dictFp :: buffer
  dc_idx :: nat

record ChainShareDart =
  ch_type :: nat
  ch_convId :: nat
  ch_senderId :: nat
  ch_targetId :: nat
  ch_epoch :: nat
  ch_nonce :: buffer
  ch_chainKey :: buffer
  ch_chainIndex :: nat

definition dictFingerprint :: "prims \<Rightarrow> buffer \<Rightarrow> buffer" where
  "dictFingerprint P dict = subarray (sha256 P dict) 0 (int DICT_FP_LEN)"

section \<open>Data\<close>

definition encodeDataHelper ::
    "prims \<Rightarrow> DataDart \<Rightarrow> buffer \<Rightarrow> buffer \<Rightarrow> nat \<Rightarrow> nat \<Rightarrow> buffer \<Rightarrow> exn + buffer" where
  "encodeDataHelper P dart dict messageKey idx epoch nonce =
     (let payload = utf8_encode (dd_payload dart);
          compressed = deflateRaw P dict payload;
          dictFp = dictFingerprint P dict;
          prefix = Buffer_alloc (7 + 24) in
      sbind (writeUInt8 prefix (dd_type dart) 0) (\<lambda>prefix.
      sbind (writeUInt16BE prefix (dd_convId dart) 1) (\<lambda>prefix.
      sbind (writeUIntBE prefix (seqMask (dd_seq dart)) 3 3) (\<lambda>prefix.
      sbind (writeUInt8 prefix 24 6) (\<lambda>prefix.
      sbind (writeUInt16BE prefix (dd_senderId dart) 7) (\<lambda>prefix.
      let prefix = Buffer_copy nonce prefix 9 in
      sbind (writeUInt16BE prefix epoch 21) (\<lambda>prefix.
      let prefix = Buffer_copy dictFp prefix 23 in
      sbind (writeUInt32BE prefix (js_ushr0 idx) 27) (\<lambda>prefix.
      sbind (gcm_encrypt P messageKey nonce prefix compressed) (\<lambda>(encryptedPayload, tag).
      Inr (prefix @ encryptedPayload @ tag))))))))))"

definition decryptData :: "prims \<Rightarrow> buffer \<Rightarrow> buffer \<Rightarrow> exn + DecryptedData" where
  "decryptData P buf messageKey =
     sbind (readUInt8 buf 0) (\<lambda>type.
     sbind (readUInt16BE buf 1) (\<lambda>convId.
     sbind (readUIntBE buf 3 3) (\<lambda>seq.
     sbind (readUInt8 buf 6) (\<lambda>extLen.
     let prefix = subarray buf 0 (7 + int extLen) in
     sbind (readUInt16BE prefix 7) (\<lambda>senderId.
     let nonce = subarray prefix 9 (9 + 12) in
     sbind (readUInt16BE prefix 21) (\<lambda>epoch.
     let dictFp = subarray prefix 23 (23 + 4) in
     sbind (readUInt32BE prefix 27) (\<lambda>idx.
     let encryptedPayload = subarray buf (7 + int extLen) (int (length buf) - 16);
         tag = subarray_from buf (int (length buf) - 16) in
     sbind (gcm_decrypt P messageKey nonce prefix encryptedPayload tag) (\<lambda>compressed.
     Inr \<lparr>dc_type = type, dc_convId = convId, dc_senderId = senderId, dc_seq = seq,
          dc_compressed = compressed, dc_dictFp = dictFp, dc_idx = idx\<rparr>))))))))"

definition inflateData :: "prims \<Rightarrow> buffer \<Rightarrow> buffer \<Rightarrow> exn + jsstring" where
  "inflateData P compressed dict =
     (case inflateRaw P dict compressed of
        None \<Rightarrow> Inl InflateFailed
      | Some payloadBuffer \<Rightarrow> Inr (utf8_decode payloadBuffer))"

section \<open>NACK\<close>

definition nackPrefixLen :: "nat \<Rightarrow> nat" where
  "nackPrefixLen missingCount = 21 + missingCount * 3"

text \<open>The two loops over the gap list, from index \<open>i\<close> on.\<close>

fun read_seqs :: "buffer \<Rightarrow> nat \<Rightarrow> nat \<Rightarrow> exn + nat list" where
  "read_seqs buf i 0 = Inr []"
| "read_seqs buf i (Suc n) =
     sbind (readUIntBE buf (21 + i * 3) 3) (\<lambda>s.
     sbind (read_seqs buf (i + 1) n) (\<lambda>ss. Inr (s # ss)))"

fun write_seqs :: "buffer \<Rightarrow> nat \<Rightarrow> nat list \<Rightarrow> exn + buffer" where
  "write_seqs header i [] = Inr header"
| "write_seqs header i (s # ss) =
     sbind (writeUIntBE header (seqMask s) (21 + i * 3) 3) (\<lambda>header. write_seqs header (i + 1) ss)"

definition parseNack :: "buffer \<Rightarrow> exn + NackDart" where
  "parseNack buf =
     sbind (sguard (21 \<le> length buf) BufferTooShort) (\<lambda>_.
     sbind (readUInt8 buf 0) (\<lambda>type.
     sbind (readUInt16BE buf 1) (\<lambda>convId.
     sbind (readUInt16BE buf 3) (\<lambda>senderId.
     sbind (readUInt16BE buf 5) (\<lambda>targetId.
     sbind (readUInt16BE buf 19) (\<lambda>count.
     let headerLen = nackPrefixLen count in
     sbind (sguard (headerLen \<le> length buf) BufferTooShort) (\<lambda>_.
     sbind (read_seqs buf 0 count) (\<lambda>missingSeq.
     Inr \<lparr>nk_type = type, nk_convId = convId, nk_senderId = senderId, nk_targetId = targetId,
          nk_missingSeq = missingSeq\<rparr>))))))))"

definition encodeNack :: "prims \<Rightarrow> NackDart \<Rightarrow> buffer \<Rightarrow> buffer \<Rightarrow> exn + buffer" where
  "encodeNack P nack convKey nonce =
     (let count = length (nk_missingSeq nack);
          header = Buffer_alloc (nackPrefixLen count) in
      sbind (writeUInt8 header (nk_type nack) 0) (\<lambda>header.
      sbind (writeUInt16BE header (nk_convId nack) 1) (\<lambda>header.
      sbind (writeUInt16BE header (nk_senderId nack) 3) (\<lambda>header.
      sbind (writeUInt16BE header (nk_targetId nack) 5) (\<lambda>header.
      let header = Buffer_copy nonce header 7 in
      sbind (writeUInt16BE header count 19) (\<lambda>header.
      sbind (write_seqs header 0 (nk_missingSeq nack)) (\<lambda>header.
      sbind (gcm_encrypt P convKey nonce header []) (\<lambda>(_, tag).
      Inr (header @ tag)))))))))"

definition decodeNack :: "prims \<Rightarrow> buffer \<Rightarrow> buffer \<Rightarrow> exn + NackDart" where
  "decodeNack P buf convKey =
     sbind (parseNack buf) (\<lambda>nack.
     let headerLen = nackPrefixLen (length (nk_missingSeq nack)) in
     sbind (sguard (headerLen + 16 \<le> length buf) BufferTooShort) (\<lambda>_.
     let header = subarray buf 0 (int headerLen);
         nonce = subarray header 7 19;
         tag = subarray buf (int headerLen) (int headerLen + 16) in
     sbind (gcm_decrypt P convKey nonce header [] tag) (\<lambda>_.
     Inr nack)))"

section \<open>SYNC\<close>

definition encodeSync :: "prims \<Rightarrow> SyncDart \<Rightarrow> buffer \<Rightarrow> buffer \<Rightarrow> exn + buffer" where
  "encodeSync P sync convKey nonce =
     (let header = Buffer_alloc 17 in
      sbind (writeUInt8 header (sy_type sync) 0) (\<lambda>header.
      sbind (writeUInt16BE header (sy_convId sync) 1) (\<lambda>header.
      sbind (writeUInt16BE header (sy_senderId sync) 3) (\<lambda>header.
      let header = Buffer_copy nonce header 5;
          payload = Buffer_alloc 3 in
      sbind (writeUIntBE payload (seqMask (sy_highestSeq sync)) 0 3) (\<lambda>payload.
      sbind (gcm_encrypt P convKey nonce header payload) (\<lambda>(encryptedPayload, tag).
      Inr (header @ encryptedPayload @ tag)))))))"

definition decodeSync :: "prims \<Rightarrow> buffer \<Rightarrow> buffer \<Rightarrow> exn + SyncDart" where
  "decodeSync P buf convKey =
     sbind (readUInt8 buf 0) (\<lambda>type.
     sbind (readUInt16BE buf 1) (\<lambda>convId.
     sbind (readUInt16BE buf 3) (\<lambda>senderId.
     let header = subarray buf 0 17;
         nonce = subarray_from header 5;
         encryptedPayload = subarray buf 17 (int (length buf) - 16);
         tag = subarray_from buf (int (length buf) - 16) in
     sbind (gcm_decrypt P convKey nonce header encryptedPayload tag) (\<lambda>payload.
     sbind (readUIntBE payload 0 3) (\<lambda>highestSeq.
     Inr \<lparr>sy_type = type, sy_convId = convId, sy_senderId = senderId, sy_highestSeq = highestSeq\<rparr>)))))"

section \<open>Key requests, key shares and chain shares\<close>

definition encodeKeyReq :: "KeyReqDart \<Rightarrow> exn + buffer" where
  "encodeKeyReq req =
     (let header = Buffer_alloc 5 in
      sbind (writeUInt8 header (kr_type req) 0) (\<lambda>header.
      sbind (writeUInt16BE header (kr_convId req) 1) (\<lambda>header.
      sbind (writeUInt16BE header (kr_senderId req) 3) (\<lambda>header.
      Inr (header @ kr_reqNonce req @ kr_clientPubKey req)))))"

definition decodeKeyReq :: "buffer \<Rightarrow> exn + KeyReqDart" where
  "decodeKeyReq buf =
     sbind (readUInt8 buf 0) (\<lambda>type.
     sbind (readUInt16BE buf 1) (\<lambda>convId.
     sbind (readUInt16BE buf 3) (\<lambda>senderId.
     let reqNonce = subarray buf 5 21;
         clientPubKey = subarray_from buf 21 in
     Inr \<lparr>kr_type = type, kr_convId = convId, kr_senderId = senderId,
          kr_reqNonce = reqNonce, kr_clientPubKey = clientPubKey\<rparr>)))"

text \<open>The hexadecimal SHA-256 of the server's public key.\<close>

definition hex_digit :: "nat \<Rightarrow> char" where
  "hex_digit n = (''0123456789abcdef'' ! (n mod 16))"

definition to_hex :: "buffer \<Rightarrow> string" where
  "to_hex bs = concat (map (\<lambda>b. [hex_digit (unat b div 16), hex_digit (unat b)]) bs)"

definition serverFingerprint :: "prims \<Rightarrow> buffer \<Rightarrow> string" where
  "serverFingerprint P serverPubKey = to_hex (sha256 P serverPubKey)"

definition encodeKeyShare :: "prims \<Rightarrow> KeyShareDart \<Rightarrow> buffer \<Rightarrow> exn + buffer" where
  "encodeKeyShare P share transportKey =
     (let header = Buffer_alloc 21 in
      sbind (writeUInt8 header (ks_type share) 0) (\<lambda>header.
      sbind (writeUInt16BE header (ks_convId share) 1) (\<lambda>header.
      sbind (writeUInt16BE header (ks_senderId share) 3) (\<lambda>header.
      sbind (writeUInt16BE header (ks_targetId share) 5) (\<lambda>header.
      sbind (writeUInt16BE header (ks_epoch share) 7) (\<lambda>header.
      let header = Buffer_copy (ks_nonce share) header 9 in
      sbind (gcm_encrypt P transportKey (ks_nonce share) header (ks_encryptedKey share)) (\<lambda>(ct, tag).
      Inr (header @ ct @ tag))))))))"

definition decodeKeyShare :: "prims \<Rightarrow> buffer \<Rightarrow> buffer \<Rightarrow> exn + nat \<times> buffer" where
  "decodeKeyShare P buf transportKey =
     sbind (sguard (21 + 48 \<le> length buf) BufferTooShort) (\<lambda>_.
     sbind (readUInt16BE buf 7) (\<lambda>epoch.
     let header = subarray buf 0 21;
         nonce = subarray_from header 9;
         encryptedKey = subarray buf 21 (int (length buf) - 16);
         tag = subarray_from buf (int (length buf) - 16) in
     sbind (gcm_decrypt P transportKey nonce header encryptedKey tag) (\<lambda>groupKey.
     Inr (epoch, groupKey))))"

definition encodeChainShare :: "prims \<Rightarrow> ChainShareDart \<Rightarrow> buffer \<Rightarrow> exn + buffer" where
  "encodeChainShare P share transportKey =
     (let header = Buffer_alloc 21 in
      sbind (writeUInt8 header (ch_type share) 0) (\<lambda>header.
      sbind (writeUInt16BE header (ch_convId share) 1) (\<lambda>header.
      sbind (writeUInt16BE header (ch_senderId share) 3) (\<lambda>header.
      sbind (writeUInt16BE header (ch_targetId share) 5) (\<lambda>header.
      sbind (writeUInt16BE header (ch_epoch share) 7) (\<lambda>header.
      let header = Buffer_copy (ch_nonce share) header 9;
          payload = Buffer_copy (ch_chainKey share) (Buffer_alloc 36) 0 in
      sbind (writeUInt32BE payload (js_ushr0 (ch_chainIndex share)) 32) (\<lambda>payload.
      sbind (gcm_encrypt P transportKey (ch_nonce share) header payload) (\<lambda>(ct, tag).
      Inr (header @ ct @ tag)))))))))"

definition decodeChainShare :: "prims \<Rightarrow> buffer \<Rightarrow> buffer \<Rightarrow> exn + ChainShareDart" where
  "decodeChainShare P buf transportKey =
     sbind (sguard (21 + 36 + 16 \<le> length buf) BufferTooShort) (\<lambda>_.
     sbind (readUInt8 buf 0) (\<lambda>type.
     sbind (readUInt16BE buf 1) (\<lambda>convId.
     sbind (readUInt16BE buf 3) (\<lambda>senderId.
     sbind (readUInt16BE buf 5) (\<lambda>targetId.
     sbind (readUInt16BE buf 7) (\<lambda>epoch.
     let header = subarray buf 0 21;
         nonce = subarray_from header 9;
         encrypted = subarray buf 21 (int (length buf) - 16);
         tag = subarray_from buf (int (length buf) - 16) in
     sbind (gcm_decrypt P transportKey nonce header encrypted tag) (\<lambda>payload.
     sbind (readUInt32BE payload 32) (\<lambda>chainIndex.
     Inr \<lparr>ch_type = type, ch_convId = convId, ch_senderId = senderId, ch_targetId = targetId,
          ch_epoch = epoch, ch_nonce = nonce, ch_chainKey = subarray payload 0 32,
          ch_chainIndex = chainIndex\<rparr>))))))))"

section \<open>Membership\<close>

fun write_members :: "buffer \<Rightarrow> nat \<Rightarrow> (nat \<times> buffer) list \<Rightarrow> exn + buffer" where
  "write_members payload offset [] = Inr payload"
| "write_members payload offset ((mSenderId, pubKey) # ms) =
     sbind (writeUInt16BE payload mSenderId offset) (\<lambda>payload.
     write_members (Buffer_copy pubKey payload (offset + 2)) (offset + 67) ms)"

fun read_members :: "buffer \<Rightarrow> nat \<Rightarrow> nat \<Rightarrow> exn + (nat \<times> buffer) list" where
  "read_members payload offset 0 = Inr []"
| "read_members payload offset (Suc n) =
     sbind (readUInt16BE payload offset) (\<lambda>mSenderId.
     let pubKey = subarray payload (int offset + 2) (int offset + 67) in
     sbind (read_members payload (offset + 67) n) (\<lambda>ms. Inr ((mSenderId, pubKey) # ms)))"

definition encodeMemberInfo :: "prims \<Rightarrow> MemberInfo \<Rightarrow> buffer \<Rightarrow> buffer \<Rightarrow> exn + buffer" where
  "encodeMemberInfo P info transportKey nonce =
     (let header = Buffer_alloc 5 in
      sbind (writeUInt8 header (mi_type info) 0) (\<lambda>header.
      sbind (writeUInt16BE header (mi_convId info) 1) (\<lambda>header.
      sbind (writeUInt16BE header (mi_senderId info) 3) (\<lambda>header.
      let payload = Buffer_alloc (1 + 2 + length (mi_members info) * 67) in
      sbind (writeUInt8 payload (if mi_creator info then 1 else 0) 0) (\<lambda>payload.
      sbind (writeUInt16BE payload (length (mi_members info)) 1) (\<lambda>payload.
      sbind (write_members payload 3 (mi_members info)) (\<lambda>payload.
      let aad = header @ mi_serverPubKey info @ nonce in
      sbind (gcm_encrypt P transportKey nonce aad payload) (\<lambda>(ct, tag).
      Inr (header @ mi_serverPubKey info @ nonce @ ct @ tag)))))))))"

definition memberInfoServerKey :: "buffer \<Rightarrow> exn + buffer" where
  "memberInfoServerKey buf =
     sbind (sguard (70 \<le> length buf) BufferTooShort) (\<lambda>_. Inr (subarray buf 5 70))"

definition decodeMemberInfo :: "prims \<Rightarrow> buffer \<Rightarrow> buffer \<Rightarrow> exn + MemberInfo" where
  "decodeMemberInfo P buf transportKey =
     sbind (sguard (5 + 65 + 12 + 16 \<le> length buf) BufferTooShort) (\<lambda>_.
     sbind (readUInt8 buf 0) (\<lambda>type.
     sbind (readUInt16BE buf 1) (\<lambda>convId.
     sbind (readUInt16BE buf 3) (\<lambda>senderId.
     let serverPubKey = subarray buf 5 70;
         nonce = subarray buf 70 82;
         encrypted = subarray_from buf 82;
         header = subarray buf 0 5;
         aad = header @ serverPubKey @ nonce in
     sbind (gcm_decrypt P transportKey nonce aad
              (subarray encrypted 0 (int (length encrypted) - 16))
              (subarray_from encrypted (int (length encrypted) - 16))) (\<lambda>payload.
     sbind (readUInt8 payload 0) (\<lambda>creator.
     sbind (readUInt16BE payload 1) (\<lambda>count.
     sbind (read_members payload 3 count) (\<lambda>members.
     Inr \<lparr>mi_type = type, mi_convId = convId, mi_senderId = senderId,
          mi_serverPubKey = serverPubKey, mi_creator = (creator = 1), mi_members = members\<rparr>))))))))"

section \<open>Dictionary reset and ACK\<close>

definition encodeDictReset :: "prims \<Rightarrow> DictResetDart \<Rightarrow> buffer \<Rightarrow> buffer \<Rightarrow> exn + buffer" where
  "encodeDictReset P reset convKey nonce =
     (let header = Buffer_alloc 19 in
      sbind (writeUInt8 header (dr_type reset) 0) (\<lambda>header.
      sbind (writeUInt16BE header (dr_convId reset) 1) (\<lambda>header.
      sbind (writeUInt16BE header (dr_senderId reset) 3) (\<lambda>header.
      sbind (writeUInt16BE header (dr_targetId reset) 5) (\<lambda>header.
      let header = Buffer_copy nonce header 7 in
      sbind (gcm_encrypt P convKey nonce header []) (\<lambda>(_, tag).
      Inr (header @ tag)))))))"

definition decodeDictReset :: "prims \<Rightarrow> buffer \<Rightarrow> buffer \<Rightarrow> exn + DictResetDart" where
  "decodeDictReset P buf convKey =
     sbind (sguard (19 \<le> length buf) BufferTooShort) (\<lambda>_.
     sbind (readUInt8 buf 0) (\<lambda>type.
     sbind (readUInt16BE buf 1) (\<lambda>convId.
     sbind (readUInt16BE buf 3) (\<lambda>senderId.
     sbind (readUInt16BE buf 5) (\<lambda>targetId.
     let header = subarray buf 0 19;
         nonce = subarray_from header 7;
         encryptedPayload = subarray buf 19 (int (length buf) - 16);
         tag = subarray_from buf (int (length buf) - 16) in
     sbind (gcm_decrypt P convKey nonce header encryptedPayload tag) (\<lambda>_.
     Inr \<lparr>dr_type = type, dr_convId = convId, dr_senderId = senderId, dr_targetId = targetId\<rparr>))))))"

definition encodeAck :: "prims \<Rightarrow> AckDart \<Rightarrow> buffer \<Rightarrow> buffer \<Rightarrow> exn + buffer" where
  "encodeAck P ack convKey nonce =
     (let header = Buffer_alloc 22 in
      sbind (writeUInt8 header (ak_type ack) 0) (\<lambda>header.
      sbind (writeUInt16BE header (ak_convId ack) 1) (\<lambda>header.
      sbind (writeUInt16BE header (ak_senderId ack) 3) (\<lambda>header.
      sbind (writeUInt16BE header (ak_targetId ack) 5) (\<lambda>header.
      sbind (writeUIntBE header (seqMask (ak_seq ack)) 7 3) (\<lambda>header.
      let header = Buffer_copy nonce header 10 in
      sbind (gcm_encrypt P convKey nonce header []) (\<lambda>(_, tag).
      Inr (header @ tag))))))))"

definition decodeAck :: "prims \<Rightarrow> buffer \<Rightarrow> buffer \<Rightarrow> exn + AckDart" where
  "decodeAck P buf convKey =
     sbind (sguard (22 \<le> length buf) BufferTooShort) (\<lambda>_.
     sbind (readUInt8 buf 0) (\<lambda>type.
     sbind (readUInt16BE buf 1) (\<lambda>convId.
     sbind (readUInt16BE buf 3) (\<lambda>senderId.
     sbind (readUInt16BE buf 5) (\<lambda>targetId.
     sbind (readUIntBE buf 7 3) (\<lambda>seq.
     let header = subarray buf 0 22;
         nonce = subarray_from header 10;
         encryptedPayload = subarray buf 22 (int (length buf) - 16);
         tag = subarray_from buf (int (length buf) - 16) in
     sbind (gcm_decrypt P convKey nonce header encryptedPayload tag) (\<lambda>_.
     Inr \<lparr>ak_type = type, ak_convId = convId, ak_senderId = senderId, ak_targetId = targetId,
          ak_seq = seq\<rparr>)))))))"

end
