(* ===== verification/Dart_Codec_Laws.thy ===== *)
theory Dart_Codec_Laws
  imports Dart_Codec
begin

text \<open>
  The laws of the wire format. Each encoder is first brought to its layout (the concatenation of its
  fields and of the sealed payload); the round trips, sizes and rejections follow from the layouts.
  The locale \<open>frame_codec\<close> is the contract of an encoder/decoder pair; its consequences (an encoding
  determines its frame; a signed frame survives the relay and verification) are proved once and
  interpreted on every frame type.
\<close>

section \<open>The contract of a frame type\<close>

locale frame_codec =
  fixes ok :: "'c \<Rightarrow> 'f \<Rightarrow> bool"
    and enc :: "'c \<Rightarrow> 'f \<Rightarrow> exn + buffer"
    and dec :: "'c \<Rightarrow> buffer \<Rightarrow> exn + 'g"
    and view :: "'c \<Rightarrow> 'f \<Rightarrow> 'g"
    and fsize :: "'c \<Rightarrow> 'f \<Rightarrow> nat"
  assumes encodes: "ok c f \<Longrightarrow> \<exists>buf. enc c f = Inr buf \<and> length buf = fsize c f"
    and decodes: "ok c f \<Longrightarrow> enc c f = Inr buf \<Longrightarrow> dec c buf = Inr (view c f)"
begin

lemma roundtrip: "ok c f \<Longrightarrow> sbind (enc c f) (dec c) = Inr (view c f)"
  using encodes decodes by (metis sbind_Inr)

lemma enc_determines: "ok c f \<Longrightarrow> ok c g \<Longrightarrow> enc c f = enc c g \<Longrightarrow> view c f = view c g"
  using roundtrip by (metis sum.inject(2))

text \<open>A frame that is signed, relayed and then verified or stripped decodes to what was sent.\<close>

lemma signed_delivery:
  assumes "digests_sized P" "ok c f"
  shows "\<exists>buf. enc c f = Inr buf \<and> length (signControlFrame P buf k) = fsize c f + 32 \<and>
    verifyControlFrame P (signControlFrame P buf k) k = Some buf \<and>
    stripControlFrame (signControlFrame P buf k) = Some buf \<and> dec c buf = Inr (view c f)"
proof -
  obtain buf where buf: "enc c f = Inr buf" "length buf = fsize c f"
    using encodes [OF assms(2)] by blast
  moreover have "length (signControlFrame P buf k) = fsize c f + 32"
    using assms(1) buf(2) by (simp add: signControlFrame_def digest_lengths)
  ultimately show ?thesis
    using assms by (simp add: verify_sign strip_sign decodes)
qed

end

section \<open>Sealing contexts\<close>

definition seal_ctx :: "prims \<times> buffer \<times> buffer \<Rightarrow> bool" where
  "seal_ctx c = (case c of (P, key, nonce) \<Rightarrow> gcm_correct P \<and> length key = 32 \<and> length nonce = 12)"

lemma seal_ctxD:
  assumes "seal_ctx (P, key, nonce)"
  shows "length key = 32" "length nonce = 12" "nonce \<noteq> []"
    "length (fst (gcmSeal P key nonce a p)) = length p"
    "length (snd (gcmSeal P key nonce a p)) = 16"
    "gcm_encrypt P key nonce a p = Inr (gcmSeal P key nonce a p)"
    "gcm_decrypt P key nonce a (fst (gcmSeal P key nonce a p)) (snd (gcmSeal P key nonce a p)) = Inr p"
proof -
  from assms show k: "length key = 32" "length nonce = 12" and n: "nonce \<noteq> []"
    by (auto simp: seal_ctx_def)
  from assms have P: "gcm_correct P" by (simp add: seal_ctx_def)
  show "length (fst (gcmSeal P key nonce a p)) = length p"
    "length (snd (gcmSeal P key nonce a p)) = 16"
    using P k(1) n by (rule gcm_sizes)+
  show "gcm_encrypt P key nonce a p = Inr (gcmSeal P key nonce a p)"
    using k(1) n by (rule gcm_encrypt_ok)
  show "gcm_decrypt P key nonce a (fst (gcmSeal P key nonce a p)) (snd (gcmSeal P key nonce a p)) = Inr p"
    using P k(1) n by (rule gcm_roundtrip)
qed

lemma seal_empty:
  assumes "seal_ctx (P, key, nonce)"
  shows "gcm_decrypt P key nonce a [] (snd (gcmSeal P key nonce a [])) = Inr []"
proof -
  have "fst (gcmSeal P key nonce a []) = []"
    using seal_ctxD(4) [OF assms, of a "[]"] by simp
  then show ?thesis using seal_ctxD(7) [OF assms, of a "[]"] by simp
qed

section \<open>ACK\<close>

definition wf_ack :: "AckDart \<Rightarrow> bool" where
  "wf_ack a \<longleftrightarrow> ak_type a < 256 \<and> ak_convId a < 65536 \<and> ak_senderId a < 65536 \<and> ak_targetId a < 65536"

definition ack_header :: "AckDart \<Rightarrow> buffer \<Rightarrow> buffer" where
  "ack_header a nonce = be 1 (ak_type a) @ be 2 (ak_convId a) @ be 2 (ak_senderId a)
     @ be 2 (ak_targetId a) @ be 3 (seqMask (ak_seq a)) @ nonce"

lemma encodeAck_layout:
  assumes "seal_ctx (P, key, nonce)" "wf_ack a"
  shows "encodeAck P a key nonce
    = Inr (ack_header a nonce @ snd (gcmSeal P key nonce (ack_header a nonce) []))"
  using assms(2) unfolding encodeAck_def Let_def ack_header_def wf_ack_def
  by (simp add: layout seal_ctxD [OF assms(1)] case_prod_unfold)

lemma decodeAck_layout:
  assumes "seal_ctx (P, key, nonce)" "wf_ack a"
  shows "decodeAck P (ack_header a nonce @ snd (gcmSeal P key nonce (ack_header a nonce) [])) key
    = Inr (a\<lparr>ak_seq := seqMask (ak_seq a)\<rparr>)"
  using assms(2) seal_empty [OF assms(1), of "ack_header a nonce"]
    seal_ctxD(5) [OF assms(1), of "ack_header a nonce" "[]"]
  unfolding decodeAck_def Let_def ack_header_def wf_ack_def
  by (simp add: layout seal_ctxD(2) [OF assms(1)])

interpretation ack: frame_codec
  "\<lambda>c a. seal_ctx c \<and> wf_ack a" "\<lambda>(P, key, nonce) a. encodeAck P a key nonce"
  "\<lambda>(P, key, nonce) buf. decodeAck P buf key" "\<lambda>c a. a\<lparr>ak_seq := seqMask (ak_seq a)\<rparr>" "\<lambda>c a. 38"
  by unfold_locales
    (auto simp: encodeAck_layout decodeAck_layout seal_ctxD, simp add: ack_header_def seal_ctxD)

section \<open>Dictionary reset\<close>

definition wf_reset :: "DictResetDart \<Rightarrow> bool" where
  "wf_reset r \<longleftrightarrow> dr_type r < 256 \<and> dr_convId r < 65536 \<and> dr_senderId r < 65536 \<and> dr_targetId r < 65536"

definition reset_header :: "DictResetDart \<Rightarrow> buffer \<Rightarrow> buffer" where
  "reset_header r nonce =
     be 1 (dr_type r) @ be 2 (dr_convId r) @ be 2 (dr_senderId r) @ be 2 (dr_targetId r) @ nonce"

lemma encodeDictReset_layout:
  assumes "seal_ctx (P, key, nonce)" "wf_reset r"
  shows "encodeDictReset P r key nonce
    = Inr (reset_header r nonce @ snd (gcmSeal P key nonce (reset_header r nonce) []))"
  using assms(2) unfolding encodeDictReset_def Let_def reset_header_def wf_reset_def
  by (simp add: layout seal_ctxD [OF assms(1)] case_prod_unfold)

lemma decodeDictReset_layout:
  assumes "seal_ctx (P, key, nonce)" "wf_reset r"
  shows "decodeDictReset P (reset_header r nonce @ snd (gcmSeal P key nonce (reset_header r nonce) [])) key
    = Inr r"
  using assms(2) seal_empty [OF assms(1), of "reset_header r nonce"]
    seal_ctxD(5) [OF assms(1), of "reset_header r nonce" "[]"]
  unfolding decodeDictReset_def Let_def reset_header_def wf_reset_def
  by (simp add: layout seal_ctxD(2) [OF assms(1)])

interpretation reset: frame_codec
  "\<lambda>c r. seal_ctx c \<and> wf_reset r" "\<lambda>(P, key, nonce) r. encodeDictReset P r key nonce"
  "\<lambda>(P, key, nonce) buf. decodeDictReset P buf key" "\<lambda>c r. r" "\<lambda>c r. 35"
  by unfold_locales
    (auto simp: encodeDictReset_layout decodeDictReset_layout seal_ctxD, simp add: reset_header_def seal_ctxD)

section \<open>SYNC\<close>

definition wf_sync :: "SyncDart \<Rightarrow> bool" where
  "wf_sync s \<longleftrightarrow> sy_type s < 256 \<and> sy_convId s < 65536 \<and> sy_senderId s < 65536"

definition sync_header :: "SyncDart \<Rightarrow> buffer \<Rightarrow> buffer" where
  "sync_header s nonce = be 1 (sy_type s) @ be 2 (sy_convId s) @ be 2 (sy_senderId s) @ nonce"

definition sealed :: "prims \<Rightarrow> buffer \<Rightarrow> buffer \<Rightarrow> buffer \<Rightarrow> buffer \<Rightarrow> buffer" where
  "sealed P key nonce aad pt = fst (gcmSeal P key nonce aad pt) @ snd (gcmSeal P key nonce aad pt)"

lemma length_sealed:
  "seal_ctx (P, key, nonce) \<Longrightarrow> length (sealed P key nonce aad pt) = length pt + 16"
  by (simp add: sealed_def seal_ctxD)

lemma encodeSync_layout:
  assumes "seal_ctx (P, key, nonce)" "wf_sync s"
  shows "encodeSync P s key nonce
    = Inr (sync_header s nonce @ sealed P key nonce (sync_header s nonce) (be 3 (seqMask (sy_highestSeq s))))"
  using assms(2) unfolding encodeSync_def Let_def sync_header_def wf_sync_def sealed_def
  by (simp add: layout seal_ctxD [OF assms(1)] case_prod_unfold)

lemma decodeSync_layout:
  assumes "seal_ctx (P, key, nonce)" "wf_sync s"
  shows "decodeSync P (sync_header s nonce @
      sealed P key nonce (sync_header s nonce) (be 3 (seqMask (sy_highestSeq s)))) key
    = Inr (s\<lparr>sy_highestSeq := seqMask (sy_highestSeq s)\<rparr>)"
  using assms(2) seal_ctxD(4,5,7) [OF assms(1), of "sync_header s nonce" "be 3 (seqMask (sy_highestSeq s))"]
  unfolding decodeSync_def Let_def sync_header_def wf_sync_def sealed_def
  by (simp add: layout seal_ctxD(2) [OF assms(1)])

interpretation sync: frame_codec
  "\<lambda>c s. seal_ctx c \<and> wf_sync s" "\<lambda>(P, key, nonce) s. encodeSync P s key nonce"
  "\<lambda>(P, key, nonce) buf. decodeSync P buf key" "\<lambda>c s. s\<lparr>sy_highestSeq := seqMask (sy_highestSeq s)\<rparr>" "\<lambda>c s. 36"
  by unfold_locales
    (auto simp: encodeSync_layout decodeSync_layout length_sealed, simp add: sync_header_def seal_ctxD)

section \<open>NACK\<close>

definition wf_nack :: "NackDart \<Rightarrow> bool" where
  "wf_nack n \<longleftrightarrow> nk_type n < 256 \<and> nk_convId n < 65536 \<and> nk_senderId n < 65536 \<and> nk_targetId n < 65536
     \<and> length (nk_missingSeq n) < 65536"

definition nack_header :: "NackDart \<Rightarrow> buffer \<Rightarrow> buffer" where
  "nack_header n nonce = be 1 (nk_type n) @ be 2 (nk_convId n) @ be 2 (nk_senderId n)
     @ be 2 (nk_targetId n) @ nonce @ be 2 (length (nk_missingSeq n))
     @ concat (map (be 3) (map seqMask (nk_missingSeq n)))"

lemma length_concat_be3 [simp]: "length (concat (map (be 3) ss)) = length ss * 3"
  by (induction ss) auto

lemma length_concat_be3_comp [simp]: "length (concat (map (be 3 \<circ> f) ss)) = length ss * 3"
  using length_concat_be3 [of "map f ss"] by simp

lemma write_seqs_layout:
  "length xs = 21 + i * 3 \<Longrightarrow>
   write_seqs (xs @ replicate (length ss * 3) 0) i ss = Inr (xs @ concat (map (be 3) (map seqMask ss)))"
proof (induction ss arbitrary: i xs)
  case (Cons s ss)
  have len: "length (xs @ be 3 (seqMask s)) = 21 + (i + 1) * 3"
    using Cons.prems by simp
  have "writeUIntBE (xs @ replicate (length (s # ss) * 3) 0) (seqMask s) (21 + i * 3) 3
      = Inr ((xs @ be 3 (seqMask s)) @ replicate (length ss * 3) 0)"
    using Cons.prems by (simp add: layout)
  then show ?case using Cons.IH [OF len] by simp
qed simp

lemma read_seqs_layout:
  "length xs = 21 + i * 3 \<Longrightarrow> \<forall>s \<in> set ss. s < 16777216 \<Longrightarrow>
   read_seqs (xs @ concat (map (be 3) ss) @ ys) i (length ss) = Inr ss"
proof (induction ss arbitrary: i xs)
  case (Cons s ss)
  have "read_seqs ((xs @ be 3 s) @ concat (map (be 3) ss) @ ys) (i + 1) (length ss) = Inr ss"
    using Cons.prems by (intro Cons.IH) auto
  moreover have "readUIntBE (xs @ be 3 s @ concat (map (be 3) ss) @ ys) (21 + i * 3) 3 = Inr s"
    using Cons.prems by (simp add: layout)
  ultimately show ?case by simp
qed simp

lemma length_read_seqs: "read_seqs buf i n = Inr ss \<Longrightarrow> length ss = n"
  by (induction n arbitrary: i ss) auto

lemma encodeNack_layout:
  assumes "seal_ctx (P, key, nonce)" "wf_nack n"
  shows "encodeNack P n key nonce
    = Inr (nack_header n nonce @ snd (gcmSeal P key nonce (nack_header n nonce) []))"
proof -
  define pre where "pre = be 1 (nk_type n) @ be 2 (nk_convId n) @ be 2 (nk_senderId n)
     @ be 2 (nk_targetId n) @ nonce @ be 2 (length (nk_missingSeq n))"
  have "write_seqs (pre @ replicate (length (nk_missingSeq n) * 3) 0) 0 (nk_missingSeq n)
      = Inr (pre @ concat (map (be 3) (map seqMask (nk_missingSeq n))))"
    by (rule write_seqs_layout) (simp add: pre_def seal_ctxD(2) [OF assms(1)])
  then show ?thesis
    using assms(2) unfolding encodeNack_def Let_def nack_header_def wf_nack_def nackPrefixLen_def pre_def
    by (simp add: layout seal_ctxD [OF assms(1)] case_prod_unfold del: replicate.simps(2))
qed

lemma parseNack_layout:
  assumes "length nonce = 12" "wf_nack n"
  shows "parseNack (nack_header n nonce @ ys) = Inr (n\<lparr>nk_missingSeq := map seqMask (nk_missingSeq n)\<rparr>)"
proof -
  let ?pre = "be 1 (nk_type n) @ be 2 (nk_convId n) @ be 2 (nk_senderId n)
     @ be 2 (nk_targetId n) @ nonce @ be 2 (length (nk_missingSeq n))"
  have "read_seqs (?pre @ concat (map (be 3) (map seqMask (nk_missingSeq n))) @ ys) 0
      (length (map seqMask (nk_missingSeq n))) = Inr (map seqMask (nk_missingSeq n))"
    using assms by (intro read_seqs_layout) auto
  then show ?thesis
    using assms unfolding parseNack_def Let_def nack_header_def wf_nack_def nackPrefixLen_def
    by (simp add: layout)
qed

lemma decodeNack_layout:
  assumes "seal_ctx (P, key, nonce)" "wf_nack n"
  shows "decodeNack P (nack_header n nonce @ snd (gcmSeal P key nonce (nack_header n nonce) [])) key
    = Inr (n\<lparr>nk_missingSeq := map seqMask (nk_missingSeq n)\<rparr>)"
proof -
  let ?h = "nack_header n nonce"
  have len: "length ?h = nackPrefixLen (length (nk_missingSeq n))"
    by (simp add: nack_header_def nackPrefixLen_def seal_ctxD(2) [OF assms(1)])
  have nonce: "take 12 (drop 7 ?h) = nonce"
    by (simp add: nack_header_def seal_ctxD(2) [OF assms(1)])
  show ?thesis
    unfolding decodeNack_def Let_def
    using seal_empty [OF assms(1), of ?h]
    by (simp add: parseNack_layout seal_ctxD [OF assms(1)] assms(2) len [symmetric] subarray_nonneg nonce)
qed

interpretation nack: frame_codec
  "\<lambda>c n. seal_ctx c \<and> wf_nack n" "\<lambda>(P, key, nonce) n. encodeNack P n key nonce"
  "\<lambda>(P, key, nonce) buf. decodeNack P buf key"
  "\<lambda>c n. n\<lparr>nk_missingSeq := map seqMask (nk_missingSeq n)\<rparr>"
  "\<lambda>c n. nackPrefixLen (length (nk_missingSeq n)) + 16"
  by unfold_locales
    (auto simp: encodeNack_layout decodeNack_layout seal_ctxD, simp add: nack_header_def nackPrefixLen_def seal_ctxD)

text \<open>A gap list too long for its 16-bit count cannot be encoded at all.\<close>

lemma encodeNack_overflow:
  assumes "65536 \<le> length (nk_missingSeq n)"
  shows "encodeNack P n key nonce = Inl RangeError"
proof -
  have w: "writeUIntBE b v off k = Inl RangeError \<or> (\<exists>b'. writeUIntBE b v off k = Inr b')" for b v off k
    by (simp add: writeUIntBE_def)
  have "writeUInt16BE b (length (nk_missingSeq n)) 19 = Inl RangeError" for b
    using assms by (intro writeUIntBE_too_wide) simp
  then show ?thesis
    unfolding encodeNack_def Let_def
    by (auto simp: sbind_def split: sum.splits dest: w [THEN disjE]) (auto simp: writeUIntBE_def split: if_splits)
qed

section \<open>Key requests\<close>

definition wf_keyreq :: "KeyReqDart \<Rightarrow> bool" where
  "wf_keyreq r \<longleftrightarrow> kr_type r < 256 \<and> kr_convId r < 65536 \<and> kr_senderId r < 65536 \<and> length (kr_reqNonce r) = 16"

lemma encodeKeyReq_layout:
  assumes "wf_keyreq r"
  shows "encodeKeyReq r = Inr (be 1 (kr_type r) @ be 2 (kr_convId r) @ be 2 (kr_senderId r)
    @ kr_reqNonce r @ kr_clientPubKey r)"
  using assms unfolding encodeKeyReq_def Let_def wf_keyreq_def by (simp add: layout)

lemma decodeKeyReq_layout:
  assumes "wf_keyreq r"
  shows "decodeKeyReq (be 1 (kr_type r) @ be 2 (kr_convId r) @ be 2 (kr_senderId r)
    @ kr_reqNonce r @ kr_clientPubKey r) = Inr r"
  using assms unfolding decodeKeyReq_def Let_def wf_keyreq_def by (simp add: layout)

interpretation keyreq: frame_codec
  "\<lambda>(c :: unit) r. wf_keyreq r" "\<lambda>c r. encodeKeyReq r" "\<lambda>c buf. decodeKeyReq buf" "\<lambda>c r. r"
  "\<lambda>c r. 21 + length (kr_clientPubKey r)"
  by unfold_locales (auto simp: encodeKeyReq_layout decodeKeyReq_layout [simplified], simp add: wf_keyreq_def)

section \<open>Key shares and chain shares\<close>

definition wf_keyshare :: "KeyShareDart \<Rightarrow> bool" where
  "wf_keyshare s \<longleftrightarrow> ks_type s < 256 \<and> ks_convId s < 65536 \<and> ks_senderId s < 65536 \<and> ks_targetId s < 65536
     \<and> ks_epoch s < 65536 \<and> length (ks_encryptedKey s) = 32"

definition share_header :: "nat \<Rightarrow> nat \<Rightarrow> nat \<Rightarrow> nat \<Rightarrow> nat \<Rightarrow> buffer \<Rightarrow> buffer" where
  "share_header type convId senderId targetId epoch nonce =
     be 1 type @ be 2 convId @ be 2 senderId @ be 2 targetId @ be 2 epoch @ nonce"

abbreviation keyshare_header :: "KeyShareDart \<Rightarrow> buffer" where
  "keyshare_header s \<equiv>
     share_header (ks_type s) (ks_convId s) (ks_senderId s) (ks_targetId s) (ks_epoch s) (ks_nonce s)"

lemma encodeKeyShare_layout:
  assumes "seal_ctx (P, key, ks_nonce s)" "wf_keyshare s"
  shows "encodeKeyShare P s key
    = Inr (keyshare_header s @ sealed P key (ks_nonce s) (keyshare_header s) (ks_encryptedKey s))"
  using assms(2) unfolding encodeKeyShare_def Let_def share_header_def wf_keyshare_def sealed_def
  by (simp add: layout seal_ctxD [OF assms(1)] case_prod_unfold)

lemma decodeKeyShare_layout:
  assumes "seal_ctx (P, key, ks_nonce s)" "wf_keyshare s"
  shows "decodeKeyShare P (keyshare_header s @ sealed P key (ks_nonce s) (keyshare_header s) (ks_encryptedKey s)) key
    = Inr (ks_epoch s, ks_encryptedKey s)"
  using assms(2) seal_ctxD(4,5,7) [OF assms(1), of "keyshare_header s" "ks_encryptedKey s"]
  unfolding decodeKeyShare_def Let_def share_header_def wf_keyshare_def sealed_def
  by (simp add: layout seal_ctxD(2) [OF assms(1)])

interpretation keyshare: frame_codec
  "\<lambda>(P, key) s. seal_ctx (P, key, ks_nonce s) \<and> wf_keyshare s" "\<lambda>(P, key) s. encodeKeyShare P s key"
  "\<lambda>(P, key) buf. decodeKeyShare P buf key" "\<lambda>c s. (ks_epoch s, ks_encryptedKey s)" "\<lambda>c s. 69"
  by unfold_locales
    (auto simp: encodeKeyShare_layout decodeKeyShare_layout length_sealed,
     simp add: share_header_def seal_ctxD wf_keyshare_def)

definition wf_chainshare :: "ChainShareDart \<Rightarrow> bool" where
  "wf_chainshare s \<longleftrightarrow> ch_type s < 256 \<and> ch_convId s < 65536 \<and> ch_senderId s < 65536 \<and> ch_targetId s < 65536
     \<and> ch_epoch s < 65536 \<and> length (ch_chainKey s) = 32"

abbreviation chainshare_header :: "ChainShareDart \<Rightarrow> buffer" where
  "chainshare_header s \<equiv>
     share_header (ch_type s) (ch_convId s) (ch_senderId s) (ch_targetId s) (ch_epoch s) (ch_nonce s)"

lemma js_ushr0_less [simp]: "js_ushr0 n < 4294967296"
  by (simp add: js_ushr0_def)

lemma encodeChainShare_layout:
  assumes "seal_ctx (P, key, ch_nonce s)" "wf_chainshare s"
  shows "encodeChainShare P s key
    = Inr (chainshare_header s @ sealed P key (ch_nonce s) (chainshare_header s)
        (ch_chainKey s @ be 4 (js_ushr0 (ch_chainIndex s))))"
  using assms(2) unfolding encodeChainShare_def Let_def share_header_def wf_chainshare_def sealed_def
  by (simp add: layout seal_ctxD [OF assms(1)] case_prod_unfold)

lemma decodeChainShare_layout:
  assumes "seal_ctx (P, key, ch_nonce s)" "wf_chainshare s"
  shows "decodeChainShare P (chainshare_header s @ sealed P key (ch_nonce s) (chainshare_header s)
        (ch_chainKey s @ be 4 (js_ushr0 (ch_chainIndex s)))) key
    = Inr (s\<lparr>ch_chainIndex := js_ushr0 (ch_chainIndex s)\<rparr>)"
  using assms(2) seal_ctxD(4,5,7) [OF assms(1), of "chainshare_header s"
      "ch_chainKey s @ be 4 (js_ushr0 (ch_chainIndex s))"]
  unfolding decodeChainShare_def Let_def share_header_def wf_chainshare_def sealed_def
  by (simp add: layout seal_ctxD(2) [OF assms(1)])

interpretation chainshare: frame_codec
  "\<lambda>(P, key) s. seal_ctx (P, key, ch_nonce s) \<and> wf_chainshare s" "\<lambda>(P, key) s. encodeChainShare P s key"
  "\<lambda>(P, key) buf. decodeChainShare P buf key" "\<lambda>c s. s\<lparr>ch_chainIndex := js_ushr0 (ch_chainIndex s)\<rparr>" "\<lambda>c s. 73"
  by unfold_locales
    (auto simp: encodeChainShare_layout decodeChainShare_layout length_sealed,
     simp add: share_header_def seal_ctxD wf_chainshare_def)

section \<open>Membership\<close>

definition wf_member :: "nat \<times> buffer \<Rightarrow> bool" where
  "wf_member m \<longleftrightarrow> fst m < 65536 \<and> length (snd m) = 65"

definition wf_memberinfo :: "MemberInfo \<Rightarrow> bool" where
  "wf_memberinfo i \<longleftrightarrow> mi_type i < 256 \<and> mi_convId i < 65536 \<and> mi_senderId i < 65536
     \<and> length (mi_serverPubKey i) = 65 \<and> length (mi_members i) < 65536 \<and> (\<forall>m \<in> set (mi_members i). wf_member m)"

definition member_bytes :: "nat \<times> buffer \<Rightarrow> buffer" where
  "member_bytes m = be 2 (fst m) @ snd m"

definition roster_bytes :: "bool \<Rightarrow> (nat \<times> buffer) list \<Rightarrow> buffer" where
  "roster_bytes c ms = be 1 (if c then 1 else 0) @ be 2 (length ms) @ concat (map member_bytes ms)"

lemma length_members:
  "\<forall>m \<in> set ms. wf_member m \<Longrightarrow> length (concat (map member_bytes ms)) = length ms * 67"
  by (induction ms) (auto simp: wf_member_def member_bytes_def)

lemma write_members_layout:
  "length xs = off \<Longrightarrow> \<forall>m \<in> set ms. wf_member m \<Longrightarrow>
   write_members (xs @ replicate (length ms * 67) 0) off ms = Inr (xs @ concat (map member_bytes ms))"
proof (induction ms arbitrary: off xs)
  case (Cons m ms)
  obtain i pk where m: "m = (i, pk)" by (cases m)
  have wf: "i < 65536" "length pk = 65" using Cons.prems by (auto simp: m wf_member_def)
  have "Buffer_copy pk (xs @ be 2 i @ replicate (length ms * 67 + 65) 0) (off + 2)
      = (xs @ member_bytes m) @ replicate (length ms * 67) 0"
    using Cons.prems(1) wf(2)
    by (simp add: layout m member_bytes_def add.commute del: replicate.simps(2))
  moreover have "writeUInt16BE (xs @ replicate (length (m # ms) * 67) 0) i off
      = Inr (xs @ be 2 i @ replicate (length ms * 67 + 65) 0)"
    using Cons.prems(1) wf(1) by (simp add: layout del: replicate.simps(2))
  moreover have "write_members ((xs @ member_bytes m) @ replicate (length ms * 67) 0) (off + 67) ms
      = Inr ((xs @ member_bytes m) @ concat (map member_bytes ms))"
    using Cons.prems wf by (intro Cons.IH) (auto simp: m member_bytes_def)
  ultimately show ?case by (simp add: m del: replicate.simps(2))
qed simp

lemma read_members_layout:
  "length xs = off \<Longrightarrow> \<forall>m \<in> set ms. wf_member m \<Longrightarrow>
   read_members (xs @ concat (map member_bytes ms)) off (length ms) = Inr ms"
proof (induction ms arbitrary: off xs)
  case (Cons m ms)
  obtain i pk where m: "m = (i, pk)" by (cases m)
  have wf: "i < 65536" "length pk = 65" using Cons.prems by (auto simp: m wf_member_def)
  let ?b = "xs @ concat (map member_bytes (m # ms))"
  have "readUInt16BE ?b off = Inr i"
    using Cons.prems(1) wf(1) by (simp add: layout m member_bytes_def)
  moreover have "subarray ?b (int off + 2) (int off + 67) = pk"
    using Cons.prems(1) wf(2) by (simp add: subarray_nonneg m member_bytes_def nat_add_distrib)
  moreover have "read_members ((xs @ member_bytes m) @ concat (map member_bytes ms)) (off + 67) (length ms) = Inr ms"
    using Cons.prems wf by (intro Cons.IH) (auto simp: m member_bytes_def)
  ultimately show ?case by (simp add: m)
qed simp

definition memberinfo_aad :: "MemberInfo \<Rightarrow> buffer \<Rightarrow> buffer" where
  "memberinfo_aad i nonce =
     be 1 (mi_type i) @ be 2 (mi_convId i) @ be 2 (mi_senderId i) @ mi_serverPubKey i @ nonce"

lemma encodeMemberInfo_layout:
  assumes "seal_ctx (P, key, nonce)" "wf_memberinfo i"
  shows "encodeMemberInfo P i key nonce = Inr (memberinfo_aad i nonce
    @ sealed P key nonce (memberinfo_aad i nonce) (roster_bytes (mi_creator i) (mi_members i)))"
proof -
  let ?pre = "be 1 (if mi_creator i then 1 else 0) @ be 2 (length (mi_members i))"
  have "write_members (?pre @ replicate (length (mi_members i) * 67) 0) 3 (mi_members i)
      = Inr (?pre @ concat (map member_bytes (mi_members i)))"
    using assms(2) by (intro write_members_layout) (auto simp: wf_memberinfo_def)
  then show ?thesis
    using assms(2) unfolding encodeMemberInfo_def Let_def memberinfo_aad_def wf_memberinfo_def
      sealed_def roster_bytes_def
    by (simp add: layout seal_ctxD [OF assms(1)] case_prod_unfold del: replicate.simps(2))
qed

lemma length_roster_bytes:
  "\<forall>m \<in> set ms. wf_member m \<Longrightarrow> length (roster_bytes c ms) = 3 + length ms * 67"
  by (simp add: roster_bytes_def length_members)

lemma decodeMemberInfo_layout:
  assumes "seal_ctx (P, key, nonce)" "wf_memberinfo i"
  shows "decodeMemberInfo P (memberinfo_aad i nonce
    @ sealed P key nonce (memberinfo_aad i nonce) (roster_bytes (mi_creator i) (mi_members i))) key = Inr i"
proof -
  let ?aad = "memberinfo_aad i nonce" and ?pt = "roster_bytes (mi_creator i) (mi_members i)"
  have read: "sbind (readUInt8 ?pt 0) (\<lambda>creator. sbind (readUInt16BE ?pt 1) (\<lambda>count.
      sbind (read_members ?pt 3 count) (\<lambda>ms. Inr (creator, ms))))
      = Inr (if mi_creator i then 1 else 0, mi_members i)"
    using assms(2) read_members_layout [of "be 1 (if mi_creator i then 1 else 0) @ be 2 (length (mi_members i))"
        3 "mi_members i"]
    by (simp add: roster_bytes_def layout wf_memberinfo_def)
  then obtain creator count where r: "readUInt8 ?pt 0 = Inr creator" "readUInt16BE ?pt 1 = Inr count"
    "read_members ?pt 3 count = Inr (mi_members i)" "creator = (if mi_creator i then 1 else 0)"
    by auto
  show ?thesis
    using assms(2) r seal_ctxD(4,5,7) [OF assms(1), of ?aad ?pt]
    unfolding decodeMemberInfo_def Let_def memberinfo_aad_def wf_memberinfo_def sealed_def
    by (simp add: layout seal_ctxD(2) [OF assms(1)])
qed

interpretation memberinfo: frame_codec
  "\<lambda>c i. seal_ctx c \<and> wf_memberinfo i" "\<lambda>(P, key, nonce) i. encodeMemberInfo P i key nonce"
  "\<lambda>(P, key, nonce) buf. decodeMemberInfo P buf key" "\<lambda>c i. i" "\<lambda>c i. 101 + length (mi_members i) * 67"
  by unfold_locales
    (auto simp: encodeMemberInfo_layout decodeMemberInfo_layout length_sealed,
     simp add: memberinfo_aad_def seal_ctxD wf_memberinfo_def length_roster_bytes)

lemma memberInfoServerKey_layout:
  assumes "wf_memberinfo i"
  shows "memberInfoServerKey (memberinfo_aad i nonce @ ys) = Inr (mi_serverPubKey i)"
  using assms by (simp add: memberInfoServerKey_def memberinfo_aad_def layout wf_memberinfo_def)

section \<open>Data\<close>

definition wf_data :: "DataDart \<Rightarrow> bool" where
  "wf_data d \<longleftrightarrow> dd_type d < 256 \<and> dd_convId d < 65536 \<and> dd_senderId d < 65536"

definition data_prefix :: "prims \<Rightarrow> DataDart \<Rightarrow> buffer \<Rightarrow> nat \<Rightarrow> nat \<Rightarrow> buffer \<Rightarrow> buffer" where
  "data_prefix P d dict idx epoch nonce =
     be 1 (dd_type d) @ be 2 (dd_convId d) @ be 3 (seqMask (dd_seq d)) @ be 1 24 @ be 2 (dd_senderId d)
     @ nonce @ be 2 epoch @ dictFingerprint P dict @ be 4 (js_ushr0 idx)"

definition data_plain :: "prims \<Rightarrow> DataDart \<Rightarrow> buffer \<Rightarrow> buffer" where
  "data_plain P d dict = deflateRaw P dict (utf8_encode (dd_payload d))"

definition data_decrypted :: "prims \<Rightarrow> DataDart \<Rightarrow> buffer \<Rightarrow> nat \<Rightarrow> DecryptedData" where
  "data_decrypted P d dict idx =
     \<lparr>dc_type = dd_type d, dc_convId = dd_convId d, dc_senderId = dd_senderId d,
      dc_seq = seqMask (dd_seq d), dc_compressed = data_plain P d dict,
      dc_dictFp = dictFingerprint P dict, dc_idx = js_ushr0 idx\<rparr>"

lemma length_dictFingerprint: "digests_sized P \<Longrightarrow> length (dictFingerprint P dict) = 4"
  by (simp add: dictFingerprint_def DICT_FP_LEN_def layout digest_lengths)

lemma length_data_prefix:
  "digests_sized P \<Longrightarrow> length nonce = 12 \<Longrightarrow> length (data_prefix P d dict idx epoch nonce) = 31"
  by (simp add: data_prefix_def length_dictFingerprint)

lemma encodeData_layout:
  assumes "seal_ctx (P, key, nonce)" "digests_sized P" "wf_data d" "epoch < 65536"
  shows "encodeDataHelper P d dict key idx epoch nonce = Inr (data_prefix P d dict idx epoch nonce
    @ sealed P key nonce (data_prefix P d dict idx epoch nonce) (data_plain P d dict))"
  using assms(3,4) unfolding encodeDataHelper_def Let_def data_prefix_def wf_data_def sealed_def data_plain_def
  by (simp add: layout seal_ctxD [OF assms(1)] length_dictFingerprint [OF assms(2)] case_prod_unfold)

text \<open>The cleartext fields a receiver or the relay reads from a data packet.\<close>

lemma data_prefix_reads:
  fixes dict ys :: buffer and idx :: nat
  assumes "length nonce = 12" "digests_sized P" "wf_data d" "epoch < 65536"
  defines "pre \<equiv> data_prefix P d dict idx epoch nonce"
  shows "readUInt8 (pre @ ys) 0 = Inr (dd_type d)" "readUInt16BE (pre @ ys) 1 = Inr (dd_convId d)"
    "readUIntBE (pre @ ys) 3 3 = Inr (seqMask (dd_seq d))" "readUInt8 (pre @ ys) 6 = Inr 24"
    "readUInt16BE (pre @ ys) 7 = Inr (dd_senderId d)" "readUInt16BE (pre @ ys) 21 = Inr epoch"
    "readUInt32BE (pre @ ys) 27 = Inr (js_ushr0 idx)"
    "take 12 (drop 9 pre) = nonce" "take 4 (drop 23 pre) = dictFingerprint P dict"
  using assms(1,3,4) unfolding pre_def data_prefix_def wf_data_def
  by (simp_all add: layout length_dictFingerprint [OF assms(2)])

lemma decryptData_layout:
  assumes "seal_ctx (P, key, nonce)" "digests_sized P" "wf_data d" "epoch < 65536"
  shows "decryptData P (data_prefix P d dict idx epoch nonce
      @ sealed P key nonce (data_prefix P d dict idx epoch nonce) (data_plain P d dict)) key
    = Inr (data_decrypted P d dict idx)"
proof -
  let ?pre = "data_prefix P d dict idx epoch nonce" and ?pt = "data_plain P d dict"
  note nonce = seal_ctxD(2) [OF assms(1)]
  note reads = data_prefix_reads [OF nonce assms(2-4), where dict = dict and idx = idx]
  have pre: "length ?pre = 31" using assms(2) nonce by (rule length_data_prefix)
  have "length (fst (gcmSeal P key nonce ?pre ?pt)) = length ?pt"
    "length (snd (gcmSeal P key nonce ?pre ?pt)) = 16"
    "gcm_decrypt P key nonce ?pre (fst (gcmSeal P key nonce ?pre ?pt)) (snd (gcmSeal P key nonce ?pre ?pt)) = Inr ?pt"
    using seal_ctxD(4,5,7) [OF assms(1)] by blast+
  then show ?thesis
    using pre reads reads(5-7) [where ys = "[]"]
    by (simp add: decryptData_def Let_def subarray_nonneg sealed_def data_decrypted_def)
qed

lemma inflateData_plain:
  assumes "deflate_lossless P" "wf_utf16 (dd_payload d)"
  shows "inflateData P (data_plain P d dict) dict = Inr (dd_payload d)"
  using assms by (simp add: inflateData_def data_plain_def deflate_lossless_def utf8_roundtrip)

definition data_ok :: "prims \<times> buffer \<times> buffer \<times> buffer \<times> nat \<times> nat \<Rightarrow> DataDart \<Rightarrow> bool" where
  "data_ok c d = (case c of (P, key, nonce, dict, idx, epoch) \<Rightarrow>
     seal_ctx (P, key, nonce) \<and> digests_sized P \<and> wf_data d \<and> epoch < 65536)"

interpretation data: frame_codec
  data_ok
  "\<lambda>(P, key, nonce, dict, idx, epoch) d. encodeDataHelper P d dict key idx epoch nonce"
  "\<lambda>(P, key, nonce, dict, idx, epoch) buf. decryptData P buf key"
  "\<lambda>(P, key, nonce, dict, idx, epoch) d. data_decrypted P d dict idx"
  "\<lambda>(P, key, nonce, dict, idx, epoch) d. 47 + length (data_plain P d dict)"
  by unfold_locales
    (auto simp: data_ok_def encodeData_layout decryptData_layout length_sealed,
     simp add: length_data_prefix seal_ctxD)

section \<open>What a successful decryption says about the bytes received\<close>

text \<open>
  With a full-length tag, a packet that decrypts is, byte for byte, its cleartext prefix followed by
  the seal of the recovered plaintext over that prefix.
\<close>

lemma decryptData_authentic:
  assumes auth: "gcm_authentic P" and dec: "decryptData P buf key = Inr d"
    and ext: "readUInt8 buf 6 = Inr 24" and len: "47 \<le> length buf"
  shows "buf = take 31 buf @ sealed P key (take 12 (drop 9 buf)) (take 31 buf) (dc_compressed d)"
    and "readUInt16BE buf 1 = Inr (dc_convId d)" and "readUIntBE buf 3 3 = Inr (dc_seq d)"
    and "readUInt16BE buf 7 = Inr (dc_senderId d)" and "readUInt32BE buf 27 = Inr (dc_idx d)"
proof -
  let ?ct = "take (length buf - 16 - 31) (drop 31 buf)" and ?tag = "drop (length buf - 16) buf"
  from dec ext len have g: "gcm_decrypt P key (take 12 (drop 9 buf)) (take 31 buf) ?ct ?tag = Inr (dc_compressed d)"
    and fields: "readUInt16BE buf 1 = Inr (dc_convId d)" "readUIntBE buf 3 3 = Inr (dc_seq d)"
      "readUInt16BE (take 31 buf) 7 = Inr (dc_senderId d)" "readUInt32BE (take 31 buf) 27 = Inr (dc_idx d)"
    by (auto simp: decryptData_def Let_def subarray_nonneg drop_take nat_diff_distrib min_def)
  have "gcm_encrypt P key (take 12 (drop 9 buf)) (take 31 buf) (dc_compressed d) = Inr (?ct, ?tag)"
    using auth g len by (intro gcm_decrypt_Inr) simp_all
  then have "gcmSeal P key (take 12 (drop 9 buf)) (take 31 buf) (dc_compressed d) = (?ct, ?tag)"
    by (auto simp: gcm_encrypt_def)
  moreover have "buf = take 31 buf @ ?ct @ ?tag"
  proof -
    have "drop 31 buf = ?ct @ drop (length buf - 16 - 31) (drop 31 buf)"
      by (rule append_take_drop_id [symmetric])
    also have "drop (length buf - 16 - 31) (drop 31 buf) = ?tag" using len by simp
    finally have "drop 31 buf = ?ct @ ?tag" .
    then show ?thesis by (metis append_take_drop_id)
  qed
  ultimately show "buf = take 31 buf @ sealed P key (take 12 (drop 9 buf)) (take 31 buf) (dc_compressed d)"
    by (simp add: sealed_def)
  show "readUInt16BE buf 1 = Inr (dc_convId d)" "readUIntBE buf 3 3 = Inr (dc_seq d)"
    "readUInt16BE buf 7 = Inr (dc_senderId d)" "readUInt32BE buf 27 = Inr (dc_idx d)"
    using fields len by (simp_all add: read_prefix)
qed

end
