(* ===== verification/Dart_Window.thy ===== *)
theory Dart_Window
  imports Dart_Codec "HOL-Library.Multiset"
begin

text \<open>
  Bounded history. The server's cache and the client's histories are maps keyed by sequence number
  from which every entry further than a fixed modular distance behind a reference point is deleted;
  the locale \<open>window\<close> is that contract. The compression dictionary is built from the last
  \<^verbatim>\<open>DICT_WINDOW\<close> messages of such a history.
\<close>

section \<open>Sliding windows\<close>

definition window_gc :: "nat \<Rightarrow> nat \<Rightarrow> (nat, 'v) jsmap \<Rightarrow> (nat, 'v) jsmap" where
  "window_gc width ref m = fold (\<lambda>k m. if seqDelta k ref > width then AList.delete k m else m) (map fst m) m"

definition seq_keys :: "(nat, 'v) jsmap \<Rightarrow> bool" where
  "seq_keys m \<longleftrightarrow> is_map m \<and> (\<forall>k \<in> fst ` set m. k < 16777216)"

lemma seq_keys_Nil [simp]: "seq_keys []"
  by (simp add: seq_keys_def)

lemma seq_keys_update: "seq_keys m \<Longrightarrow> k < 16777216 \<Longrightarrow> seq_keys (AList.update k v m)"
  by (auto simp: seq_keys_def dom_update)

lemma map_of_filter_key: "map_of (filter (\<lambda>(k, v). p k) m) k = (if p k then map_of m k else None)"
  by (induction m) auto

locale window =
  fixes width :: nat
    and gc :: "nat \<Rightarrow> (nat, 'v) jsmap \<Rightarrow> (nat, 'v) jsmap"
  assumes gc_filter: "gc ref m = filter (\<lambda>(k, v). seqDelta k ref \<le> width) m"
begin

lemma map_of_gc: "map_of (gc ref m) k = (if seqDelta k ref \<le> width then map_of m k else None)"
  by (simp add: gc_filter map_of_filter_key)

lemma gc_idem: "gc ref (gc ref m) = gc ref m"
  by (simp add: gc_filter)

lemma gc_keys: "(k, v) \<in> set (gc ref m) \<Longrightarrow> (k, v) \<in> set m \<and> seqDelta k ref \<le> width"
  by (simp add: gc_filter)

lemma gc_seq_keys: "seq_keys m \<Longrightarrow> seq_keys (gc ref m)"
  by (auto simp: seq_keys_def gc_filter is_map_def distinct_map inj_on_def)

text \<open>However many entries went in, at most \<open>width + 1\<close> are left.\<close>

lemma gc_bounded:
  assumes "seq_keys m"
  shows "length (gc ref m) \<le> width + 1"
proof -
  let ?ks = "map fst (gc ref m)"
  have ok: "distinct ?ks" "\<forall>k \<in> set ?ks. k < 16777216"
    using gc_seq_keys [OF assms, of ref] by (auto simp: seq_keys_def is_map_def)
  have "inj_on (\<lambda>k. seqDelta k ref) (set ?ks)"
    using ok(2) by (auto intro!: inj_onI dest: seqDelta_to_inj)
  then have "card ((\<lambda>k. seqDelta k ref) ` set ?ks) = length ?ks"
    using ok(1) by (simp add: card_image distinct_card del: set_map)
  moreover have "(\<lambda>k. seqDelta k ref) ` set ?ks \<subseteq> {..width}"
    by (auto simp: gc_filter)
  then have "card ((\<lambda>k. seqDelta k ref) ` set ?ks) \<le> card {..width}"
    by (rule card_mono [rotated]) simp
  ultimately show ?thesis by simp
qed

end

interpretation gc: window width "window_gc width" for width
proof unfold_locales
  show "window_gc width ref m = filter (\<lambda>(k, v). seqDelta k ref \<le> width) m" for ref and m :: "(nat, 'v) jsmap"
    by (simp add: window_gc_def delete_loop_all_keys not_less)
qed

section \<open>The compression dictionary\<close>

text \<open>
  \<^verbatim>\<open>getDictionary\<close> on a history: the messages at distance 1 to \<^verbatim>\<open>DICT_WINDOW\<close> behind
  \<open>maxSeq\<close>, sorted oldest first, payloads concatenated.
\<close>

definition in_window :: "nat \<Rightarrow> DataDart \<Rightarrow> bool" where
  "in_window maxSeq d \<longleftrightarrow> 1 \<le> seqDelta (dd_seq d) maxSeq \<and> seqDelta (dd_seq d) maxSeq \<le> DICT_WINDOW"

definition dict_of :: "DataDart list \<Rightarrow> nat \<Rightarrow> buffer" where
  "dict_of msgs maxSeq =
     (let msgsToConcat = filter (in_window maxSeq) msgs;
          sorted = sort_key (\<lambda>d. - int (seqDelta (dd_seq d) maxSeq)) msgsToConcat
      in concat (map (\<lambda>d. utf8_encode (dd_payload d)) sorted))"

text \<open>The order in which the history was filled does not matter.\<close>

lemma dict_of_perm:
  assumes same: "filter_mset (in_window r) (mset ms) = filter_mset (in_window r) (mset ns)"
    and inj: "inj_on dd_seq (set (filter (in_window r) ms))"
    and range: "\<forall>d \<in> set ms. dd_seq d < 16777216"
  shows "dict_of ms r = dict_of ns r"
proof -
  let ?f = "\<lambda>d. - int (seqDelta (dd_seq d) r)"
  have m: "mset (filter (in_window r) ms) = mset (filter (in_window r) ns)"
    using same by (simp add: mset_filter)
  have "inj_on ?f (set (filter (in_window r) ms))"
  proof (rule inj_onI)
    fix d e assume d: "d \<in> set (filter (in_window r) ms)" and e: "e \<in> set (filter (in_window r) ms)"
      and "?f d = ?f e"
    then have "seqDelta (dd_seq d) r = seqDelta (dd_seq e) r" by simp
    then have "dd_seq d = dd_seq e" using d e range by (auto intro: seqDelta_to_inj)
    then show "d = e" using inj d e by (auto dest: inj_onD)
  qed
  then have "sort_key ?f (filter (in_window r) ms) = sort_key ?f (filter (in_window r) ns)"
    using m by (intro sort_key_inj_key_eq) simp_all
  then show ?thesis by (simp add: dict_of_def Let_def)
qed

end
