(* ===== verification/Dart_Framing.thy ===== *)
theory Dart_Framing
  imports Dart_Bytes
begin

text \<open>
  The TCP transport: a 2-byte big-endian length before every datagram. \<open>tcp_frame\<close> is the writer in
  the server's \<^verbatim>\<open>sendToPeer\<close> and the client's \<^verbatim>\<open>broadcast\<close>; \<open>tcp_loop\<close> is the reader loop in
  the server's and the client's \<^verbatim>\<open>data\<close> handlers, over the state and the per-datagram action of
  either. The locale \<open>framing\<close> is the contract between the two ends.
\<close>

text \<open>What leaves the process, by transport: the sockets are handles.\<close>

datatype wire_out =
    UdpSend string nat buffer   \<comment> \<open>address, port, datagram\<close>
  | TcpWrite nat buffer         \<comment> \<open>socket, framed bytes\<close>
  | WsSend nat buffer           \<comment> \<open>web socket, message\<close>

definition tcp_frame :: "buffer \<Rightarrow> exn + buffer" where
  "tcp_frame buf =
     (let out = Buffer_alloc (2 + length buf) in
      sbind (writeUInt16BE out (length buf) 0) (\<lambda>out.
      Inr (Buffer_copy buf out 2)))"

function tcp_loop :: "('s \<Rightarrow> buffer \<Rightarrow> 's) \<Rightarrow> 's \<Rightarrow> buffer \<Rightarrow> 's \<times> buffer" where
  "tcp_loop f s buffer =
     (if 2 \<le> length buffer then
        (case readUInt16BE buffer 0 of
           Inl e \<Rightarrow> (s, buffer)
         | Inr len \<Rightarrow>
             if 2 + len \<le> length buffer
             then tcp_loop f (f s (subarray buffer 2 (2 + int len))) (subarray_from buffer (2 + int len))
             else (s, buffer))
      else (s, buffer))"
  by pat_completeness auto
termination
  by (relation "measure (\<lambda>(f, s, buffer). length buffer)") (auto simp: subarray_nonneg)

declare tcp_loop.simps [simp del]

text \<open>A buffer that holds no complete datagram yet.\<close>

definition incomplete :: "buffer \<Rightarrow> bool" where
  "incomplete b \<longleftrightarrow> length b < 2 \<or> length b < 2 + unbe (take 2 b)"

lemma incomplete_Nil [simp]: "incomplete []"
  by (simp add: incomplete_def)

lemma tcp_loop_stop: "incomplete b \<Longrightarrow> tcp_loop f s b = (s, b)"
  by (subst tcp_loop.simps) (auto simp: incomplete_def readUIntBE_def split: sum.splits)

lemma tcp_loop_step:
  assumes "length p < 65536"
  shows "tcp_loop f s (be 2 (length p) @ p @ rest) = tcp_loop f (f s p) rest"
  using assms by (subst tcp_loop.simps) (simp add: layout)

lemma complete_split:
  assumes "\<not> incomplete b"
  obtains p rest where "b = be 2 (length p) @ p @ rest" and "length p < 65536"
proof -
  from assms have two: "2 \<le> length b" and len: "2 + unbe (take 2 b) \<le> length b"
    by (auto simp: incomplete_def)
  define n where "n = unbe (take 2 b)"
  have n: "n < 65536" using unbe_bound [of "take 2 b"] two by (simp add: n_def)
  have b: "b = take 2 b @ take n (drop 2 b) @ drop n (drop 2 b)"
    by (metis append_take_drop_id)
  have "take 2 b = be 2 n"
    using be_unbe [of "take 2 b"] two by (simp add: n_def)
  moreover have "length (take n (drop 2 b)) = n" using len by (simp add: n_def)
  ultimately show ?thesis
    using that [of "take n (drop 2 b)" "drop n (drop 2 b)"] b n by simp
qed

locale framing =
  fixes frame :: "buffer \<Rightarrow> exn + buffer"
    and drain :: "('s \<Rightarrow> buffer \<Rightarrow> 's) \<Rightarrow> 's \<Rightarrow> buffer \<Rightarrow> 's \<times> buffer"
  assumes frame_ok: "length p < 65536 \<Longrightarrow> frame p = Inr (be 2 (length p) @ p)"
    and frame_too_long: "65536 \<le> length p \<Longrightarrow> frame p = Inl RangeError"
    and drain_step: "length p < 65536 \<Longrightarrow> drain f s (be 2 (length p) @ p @ rest) = drain f (f s p) rest"
    and drain_stop: "incomplete b \<Longrightarrow> drain f s b = (s, b)"
begin

text \<open>The leftover is always incomplete, and the drain of a longer buffer starts with the drain of its prefix.\<close>

lemma drain_append: "drain f s (b @ c) = (case drain f s b of (s', b') \<Rightarrow> drain f s' (b' @ c))"
proof (induction "length b" arbitrary: b s rule: less_induct)
  case less
  show ?case
  proof (cases "incomplete b")
    case True
    then show ?thesis by (simp add: drain_stop)
  next
    case False
    then obtain p rest where b: "b = be 2 (length p) @ p @ rest" and p: "length p < 65536"
      by (rule complete_split)
    have "drain f (f s p) (rest @ c) = (case drain f (f s p) rest of (s', b') \<Rightarrow> drain f s' (b' @ c))"
      by (rule less) (simp add: b)
    then show ?thesis using p by (simp add: b drain_step)
  qed
qed

lemma drain_leftover: "incomplete (snd (drain f s b))"
proof (induction "length b" arbitrary: b s rule: less_induct)
  case less
  show ?case
  proof (cases "incomplete b")
    case True
    then show ?thesis by (simp add: drain_stop)
  next
    case False
    then obtain p rest where b: "b = be 2 (length p) @ p @ rest" and p: "length p < 65536"
      by (rule complete_split)
    have "incomplete (snd (drain f (f s p) rest))" by (rule less) (simp add: b)
    then show ?thesis using p by (simp add: b drain_step)
  qed
qed

lemma drain_frames:
  "\<forall>p \<in> set ps. length p < 65536 \<Longrightarrow>
   drain f s (concat (map (\<lambda>p. be 2 (length p) @ p) ps) @ rest) = drain f (foldl f s ps) rest"
  by (induction ps arbitrary: s) (auto simp: drain_step)

text \<open>However the bytes are cut into chunks, the same datagrams are handled in the same order.\<close>

lemma drain_chunks:
  "incomplete b \<Longrightarrow>
   foldl (\<lambda>(s, b) chunk. drain f s (b @ chunk)) (s, b) chunks = drain f s (b @ concat chunks)"
proof (induction chunks arbitrary: s b)
  case Nil
  then show ?case by (simp add: drain_stop)
next
  case (Cons c cs)
  obtain s' b' where d: "drain f s (b @ c) = (s', b')" by fastforce
  have "incomplete b'" using drain_leftover [of f s "b @ c"] d by simp
  then have "foldl (\<lambda>(s, b) chunk. drain f s (b @ chunk)) (s', b') cs = drain f s' (b' @ concat cs)"
    by (rule Cons.IH)
  then show ?case using drain_append [of f s "b @ c" "concat cs"] d by simp
qed

lemma stream_delivery:
  assumes "\<forall>p \<in> set ps. length p < 65536"
    and "concat chunks = concat (map (\<lambda>p. be 2 (length p) @ p) ps)"
  shows "foldl (\<lambda>(s, b) chunk. drain f s (b @ chunk)) (s, []) chunks = (foldl f s ps, [])"
  using drain_chunks [of "[]" f s chunks] drain_frames [OF assms(1), of f s "[]"] assms(2)
  by (simp add: drain_stop)

end

interpretation tcp: framing tcp_frame tcp_loop
  by unfold_locales
    (simp_all add: tcp_frame_def Let_def layout tcp_loop_step tcp_loop_stop del: replicate.simps(2))

end
