(* ===== verification/Dart_Core_Props.thy ===== *)
theory Dart_Core_Props
  imports Dart_Codec_Laws Dart_Window Dart_Framing
begin

text \<open>
  The properties of \<^verbatim>\<open>core.ts\<close>: sequence arithmetic, ratchet, control-frame authentication, the
  frame formats and the dictionary, each with a witness at a concrete input.
\<close>

section \<open>Sequence numbers and ratchet\<close>

text \<open>
  The modular comparison of 24-bit sequence numbers (\<^verbatim>\<open>seqDelta\<close> strictly between 0 and half
  of \<^verbatim>\<open>SEQ_MOD\<close>) agrees with the order of unbounded message counters, as long as the counters are
  less than half the sequence space apart. So "newer" is right across a wrap.
\<close>

lemma seq_order_is_counter_order:
  assumes "\<bar>int m - int n\<bar> < 8388608"
  shows "(0 < seqDelta (n mod SEQ_MOD) (m mod SEQ_MOD) \<and> seqDelta (n mod SEQ_MOD) (m mod SEQ_MOD) < SEQ_MOD div 2) \<longleftrightarrow> n < m"
  using seq_newer_counter [OF assms] by (simp add: seq_newer_def SEQ_MOD_val)

text \<open>
  Two holders of one ratchet chain derive the same message key and the same next state for
  message \<open>j\<close>, whatever index each of them was at: lost messages and stale or repeated chain shares
  do no harm.
\<close>

lemma ratchet_holders_agree:
  assumes "on_chain P seed s" "on_chain P seed t" "cs_index s \<le> j" "cs_index t \<le> j"
  shows "advanceChain P s j = advanceChain P t j \<and> on_chain P seed (snd (advanceChain P s j)) \<and>
    cs_index (snd (advanceChain P s j)) = j + 1"
  using advanceChain_agree [OF assms] advanceChain_stays [OF assms(1,3)] by auto

section \<open>Control-frame authentication\<close>

text \<open>
  A control frame verifies under a key exactly when it is the signed form of the payload that
  verification returns: no frame that was not signed with that key is accepted, and every signed one is.
\<close>

lemma verify_accepts_exactly_signed:
  assumes "digests_sized P"
  shows "verifyControlFrame P frame key = Some payload \<longleftrightarrow> frame = signControlFrame P payload key"
  using verify_sign_iff [OF assms] .

text \<open>The constant-time comparison \<^verbatim>\<open>safeEqual\<close> is equality of buffers.\<close>

lemma safeEqual_is_equality: "safeEqual a b \<longleftrightarrow> a = b"
  by (rule safeEqual_iff)

text \<open>
  The two ends of an ECDH pair derive the same 32-byte pairwise key from their own private and
  the other's public key.
\<close>

lemma pairwiseKey_symmetric:
  assumes "ecdh_agrees P" "digests_sized P"
  shows "\<exists>k. pairwiseKey P a (ecdhPublic P b) = Inr k \<and> pairwiseKey P b (ecdhPublic P a) = Inr k \<and> length k = 32"
  using pairwiseKey_agree [OF assms(1)] pairwiseKey_length [OF assms(2)] by blast

section \<open>Frames\<close>

text \<open>
  C7. Data: what \<^verbatim>\<open>encodeDataHelper\<close> produces, \<^verbatim>\<open>decryptData\<close> under the same message key turns
  back into the header fields, and \<^verbatim>\<open>inflateData\<close> with the same dictionary into the payload text.
\<close>

theorem data_packet_roundtrip:
  assumes "digests_sized P" "gcm_correct P" "deflate_lossless P" "wf_data d" "wf_utf16 (dd_payload d)"
    and "length key = 32" "length nonce = 12" "epoch < 65536"
  shows "\<exists>buf dec. encodeDataHelper P d dict key idx epoch nonce = Inr buf \<and> decryptData P buf key = Inr dec \<and>
    dc_convId dec = dd_convId d \<and> dc_senderId dec = dd_senderId d \<and> dc_seq dec = seqMask (dd_seq d) \<and>
    dc_idx dec = js_ushr0 idx \<and> dc_dictFp dec = dictFingerprint P dict \<and>
    inflateData P (dc_compressed dec) dict = Inr (dd_payload d)"
proof -
  have "data_ok (P, key, nonce, dict, idx, epoch) d" using assms by (simp add: data_ok_def seal_ctx_def)
  from data.roundtrip [OF this] show ?thesis
    using inflateData_plain [OF assms(3,5)] by (auto simp: sbind_eq_Inr data_decrypted_def)
qed

theorem data_packet_roundtrip_witness:
  "\<exists>buf dec. encodeDataHelper demo \<lparr>dd_type = 1, dd_convId = 5, dd_senderId = 7, dd_seq = 1, dd_payload = [104, 105]\<rparr>
      [] (replicate 32 3) 0 1 (replicate 12 0) = Inr buf \<and> decryptData demo buf (replicate 32 3) = Inr dec \<and>
    inflateData demo (dc_compressed dec) [] = Inr [104, 105]"
  using data_packet_roundtrip [OF demo_contracts(1,2,5),
      of "\<lparr>dd_type = 1, dd_convId = 5, dd_senderId = 7, dd_seq = 1, dd_payload = [104, 105]\<rparr>"
        "replicate 32 3" "replicate 12 0" 1 "[]" 0]
  by (auto simp: wf_data_def is_high_def is_low_def)

text \<open>
  C8. A data packet of full length that decrypts is, byte for byte, its cleartext header followed
  by the seal of the recovered plaintext over that header under the message key: conversation,
  sender, sequence number and chain index cannot have been altered.
\<close>

theorem data_packet_authentic:
  assumes "gcm_authentic P" "decryptData P buf key = Inr d" "readUInt8 buf 6 = Inr 24" "47 \<le> length buf"
  shows "buf = take 31 buf @ sealed P key (take 12 (drop 9 buf)) (take 31 buf) (dc_compressed d) \<and>
    readUInt16BE buf 1 = Inr (dc_convId d) \<and> readUIntBE buf 3 3 = Inr (dc_seq d) \<and>
    readUInt16BE buf 7 = Inr (dc_senderId d) \<and> readUInt32BE buf 27 = Inr (dc_idx d)"
  using decryptData_authentic [OF assms] by blast

theorem data_packet_authentic_witness:
  "\<exists>buf d. decryptData demo buf (replicate 32 3) = Inr d \<and>
    buf = take 31 buf @ sealed demo (replicate 32 3) (take 12 (drop 9 buf)) (take 31 buf) (dc_compressed d)"
proof -
  let ?d = "\<lparr>dd_type = 1, dd_convId = 5, dd_senderId = 7, dd_seq = 1, dd_payload = [104]\<rparr>"
  let ?pre = "data_prefix demo ?d [] 0 1 (replicate 12 0)"
  let ?buf = "?pre @ sealed demo (replicate 32 3) (replicate 12 0) ?pre (data_plain demo ?d [])"
  have ctx: "seal_ctx (demo, replicate 32 3, replicate 12 0)" and wf: "wf_data ?d"
    by (simp_all add: seal_ctx_def demo_contracts(2) wf_data_def)
  have dec: "decryptData demo ?buf (replicate 32 3) = Inr (data_decrypted demo ?d [] 0)"
    by (rule decryptData_layout [OF ctx demo_contracts(1) wf]) simp
  have "readUInt8 ?buf 6 = Inr 24"
    by (rule data_prefix_reads(4) [OF _ demo_contracts(1) wf]) simp_all
  moreover have "47 \<le> length ?buf"
    using length_data_prefix [OF demo_contracts(1), of "replicate 12 0" ?d "[]" 0 1]
    by (simp add: length_sealed [OF ctx] del: replicate.simps)
  ultimately show ?thesis using data_packet_authentic [OF demo_contracts(3) dec] dec by blast
qed

text \<open>
  NACK: a signed NACK passes verification and stripping, the keyed decoder returns it with its
  sequence numbers reduced to 24 bits, and the relay's keyless \<^verbatim>\<open>parseNack\<close> reads the same gap list.
\<close>

lemma nack_signed_roundtrip:
  assumes "digests_sized P" "gcm_correct P" "length key = 32" "length nonce = 12" "wf_nack n"
  shows "\<exists>buf. encodeNack P n key nonce = Inr buf \<and> verifyControlFrame P (signControlFrame P buf k) k = Some buf \<and>
    stripControlFrame (signControlFrame P buf k) = Some buf \<and>
    decodeNack P buf key = Inr (n\<lparr>nk_missingSeq := map seqMask (nk_missingSeq n)\<rparr>) \<and>
    parseNack buf = Inr (n\<lparr>nk_missingSeq := map seqMask (nk_missingSeq n)\<rparr>)"
proof -
  have ctx: "seal_ctx (P, key, nonce)" using assms by (simp add: seal_ctx_def)
  show ?thesis
    using nack.signed_delivery [of P "(P, key, nonce)" n k] assms(1,5) ctx
      encodeNack_layout [OF ctx assms(5)] parseNack_layout [OF assms(4,5)] by auto
qed

text \<open>A NACK for more than 65535 sequence numbers is never built: the encoder throws.\<close>

lemma nack_too_long:
  assumes "65535 < length (nk_missingSeq n)"
  shows "encodeNack P n key nonce = Inl RangeError"
  using assms by (intro encodeNack_overflow) simp

text \<open>SYNC: signed, verified by the relay, stripped and decoded, it is the announcement that was sent.\<close>

lemma sync_signed_roundtrip:
  assumes "digests_sized P" "gcm_correct P" "length key = 32" "length nonce = 12" "wf_sync s"
  shows "\<exists>buf. encodeSync P s key nonce = Inr buf \<and> verifyControlFrame P (signControlFrame P buf k) k = Some buf \<and>
    stripControlFrame (signControlFrame P buf k) = Some buf \<and>
    decodeSync P buf key = Inr (s\<lparr>sy_highestSeq := seqMask (sy_highestSeq s)\<rparr>)"
  using sync.signed_delivery [of P "(P, key, nonce)" s k] assms by (auto simp: seal_ctx_def)

text \<open>ACK: signed, verified and decoded, it names the sender, the target and the acknowledged sequence number.\<close>

lemma ack_signed_roundtrip:
  assumes "digests_sized P" "gcm_correct P" "length key = 32" "length nonce = 12" "wf_ack a"
  shows "\<exists>buf. encodeAck P a key nonce = Inr buf \<and> verifyControlFrame P (signControlFrame P buf k) k = Some buf \<and>
    decodeAck P buf key = Inr (a\<lparr>ak_seq := seqMask (ak_seq a)\<rparr>)"
  using ack.signed_delivery [of P "(P, key, nonce)" a k] assms by (auto simp: seal_ctx_def)

text \<open>Dict-Reset: signed, verified by the relay, stripped and decoded, it is the reset that was sent.\<close>

lemma reset_signed_roundtrip:
  assumes "digests_sized P" "gcm_correct P" "length key = 32" "length nonce = 12" "wf_reset r"
  shows "\<exists>buf. encodeDictReset P r key nonce = Inr buf \<and> verifyControlFrame P (signControlFrame P buf k) k = Some buf \<and>
    stripControlFrame (signControlFrame P buf k) = Some buf \<and> decodeDictReset P buf key = Inr r"
  using reset.signed_delivery [of P "(P, key, nonce)" r k] assms by (auto simp: seal_ctx_def)

text \<open>KEY_REQ: the join request decodes to itself, whatever public key it carries.\<close>

lemma keyreq_roundtrip:
  assumes "wf_keyreq r"
  shows "sbind (encodeKeyReq r) decodeKeyReq = Inr r"
  using keyreq.roundtrip [OF assms] .

text \<open>KEY_SHARE: under the pairwise transport key the share opens to the epoch and the group key.\<close>

lemma keyshare_roundtrip:
  assumes "gcm_correct P" "length key = 32" "length (ks_nonce s) = 12" "wf_keyshare s"
  shows "sbind (encodeKeyShare P s key) (\<lambda>buf. decodeKeyShare P buf key) = Inr (ks_epoch s, ks_encryptedKey s)"
  using keyshare.roundtrip [of "(P, key)" s] assms by (simp add: seal_ctx_def)

text \<open>
  CHAIN_SHARE: under the pairwise transport key the share opens to the same chain state, with
  the index reduced to 32 bits.
\<close>

lemma chainshare_roundtrip:
  assumes "gcm_correct P" "length key = 32" "length (ch_nonce s) = 12" "wf_chainshare s"
  shows "sbind (encodeChainShare P s key) (\<lambda>buf. decodeChainShare P buf key)
    = Inr (s\<lparr>ch_chainIndex := js_ushr0 (ch_chainIndex s)\<rparr>)"
  using chainshare.roundtrip [of "(P, key)" s] assms by (simp add: seal_ctx_def)

text \<open>
  C28. MEMBER_INFO: the announcement carries the server's public key in clear and opens, under the
  pairwise key of the member it is for, to the same roster and creator flag, for rosters of any size
  the count field can hold.
\<close>

theorem memberinfo_roundtrip:
  assumes "gcm_correct P" "length key = 32" "length nonce = 12" "wf_memberinfo i"
  shows "\<exists>buf. encodeMemberInfo P i key nonce = Inr buf \<and> memberInfoServerKey buf = Inr (mi_serverPubKey i) \<and>
    decodeMemberInfo P buf key = Inr i \<and> length buf = 101 + length (mi_members i) * 67"
proof -
  have ctx: "seal_ctx (P, key, nonce)" using assms by (simp add: seal_ctx_def)
  then show ?thesis
    using encodeMemberInfo_layout [OF ctx assms(4)] decodeMemberInfo_layout [OF ctx assms(4)]
      memberInfoServerKey_layout [OF assms(4)] memberinfo.encodes [of "(P, key, nonce)" i] assms(4) by auto
qed

theorem memberinfo_roundtrip_witness:
  "\<exists>buf. encodeMemberInfo demo \<lparr>mi_type = 9, mi_convId = 5, mi_senderId = 7, mi_serverPubKey = replicate 65 4,
      mi_creator = True, mi_members = [(7, replicate 65 1), (9, replicate 65 2)]\<rparr> (replicate 32 3) (replicate 12 0) = Inr buf \<and>
    length buf = 235"
  using memberinfo_roundtrip [OF demo_contracts(2), of "replicate 32 3" "replicate 12 0"
      "\<lparr>mi_type = 9, mi_convId = 5, mi_senderId = 7, mi_serverPubKey = replicate 65 4,
        mi_creator = True, mi_members = [(7, replicate 65 1), (9, replicate 65 2)]\<rparr>"]
  by (auto simp: wf_memberinfo_def wf_member_def)

section \<open>Dictionary and transport\<close>

text \<open>
  C29. The dictionary built for a sequence number depends only on which messages of the window a
  history holds, not on the order in which they arrived: two ends with the same messages build
  byte-identical dictionaries.
\<close>

theorem dictionary_order_irrelevant:
  assumes "mset (filter (in_window r) ms) = mset (filter (in_window r) ns)"
    and "distinct (map dd_seq (filter (in_window r) ms))" "\<forall>d \<in> set ms. dd_seq d < SEQ_MOD"
  shows "dict_of ms r = dict_of ns r"
  using assms by (intro dict_of_perm) (auto simp: mset_filter distinct_map SEQ_MOD_val)

theorem dictionary_order_irrelevant_witness:
  "dict_of [\<lparr>dd_type = 1, dd_convId = 5, dd_senderId = 7, dd_seq = 2, dd_payload = [98]\<rparr>,
            \<lparr>dd_type = 1, dd_convId = 5, dd_senderId = 7, dd_seq = 1, dd_payload = [97]\<rparr>] 3
   = dict_of [\<lparr>dd_type = 1, dd_convId = 5, dd_senderId = 7, dd_seq = 1, dd_payload = [97]\<rparr>,
              \<lparr>dd_type = 1, dd_convId = 5, dd_senderId = 7, dd_seq = 2, dd_payload = [98]\<rparr>] 3"
  by (rule dictionary_order_irrelevant)
    (auto simp: SEQ_MOD_val in_window_def seqDelta_mod DICT_WINDOW_def)

text \<open>Text without lone surrogates survives UTF-8 encoding and decoding.\<close>

lemma utf8_text_roundtrip:
  assumes "wf_utf16 s"
  shows "utf8_decode (utf8_encode s) = s"
  using assms by (rule utf8_roundtrip)

text \<open>
  C27. TCP: however the bytes of a run of framed datagrams are cut into chunks, the reader loop hands
  on exactly these datagrams, in order, and keeps nothing back.
\<close>

theorem tcp_chunking_irrelevant:
  assumes "\<forall>p \<in> set ps. length p < 65536" "map tcp_frame ps = map Inr frames" "concat chunks = concat frames"
  shows "foldl (\<lambda>(s, kept) chunk. tcp_loop f s (kept @ chunk)) (s, []) chunks = (foldl f s ps, [])"
proof -
  have "frames = map (\<lambda>p. be 2 (length p) @ p) ps"
    using assms(1,2) tcp.frame_ok by (induction ps arbitrary: frames) auto
  then show ?thesis using tcp.stream_delivery [OF assms(1), of chunks f s] assms(3) by simp
qed

theorem tcp_chunking_irrelevant_witness:
  "foldl (\<lambda>(s, kept) chunk. tcp_loop (\<lambda>s p. s @ [p]) s (kept @ chunk)) ([], []) [[0], [2, 8], [9, 0, 1], [5]] = ([[8, 9], [5]], [])"
proof -
  have "be 2 2 = [0, 2]" "be 2 1 = [0, 1]" by code_simp+
  then have frames: "map tcp_frame [[8, 9], [5]] = map Inr [[0, 2, 8, 9], [0, 1, 5]]"
    by (simp add: tcp.frame_ok numeral_2_eq_2)
  show ?thesis
    using tcp_chunking_irrelevant [OF _ frames, of "[[0], [2, 8], [9, 0, 1], [5]]" "\<lambda>s p. s @ [p]" "[]"] by simp
qed

end
