(* ===== verification/Dart_Client.thy ===== *)
theory Dart_Client
  imports Dart_Codec Dart_Framing Dart_Window
begin

text \<open>
  The client of \<^verbatim>\<open>client.ts\<close>: the class \<^verbatim>\<open>DartClient\<close> as a record and one definition per
  method. Datagrams and framed writes are recorded in \<open>c_outbox\<close>, oldest first. \<^verbatim>\<open>setTimeout\<close>
  adds an entry to \<open>c_timers\<close>: a handle, the delay in milliseconds and the callback as a value of
  \<open>task\<close>; \<open>fire\<close> runs the callback of a pending entry. Random bytes are numbered by
  \<open>c_draws\<close>. An exception inside \<^verbatim>\<open>handleMessage\<close> is caught there and the state reached is kept.
\<close>

section \<open>State\<close>

record ClientStats =
  st_packetsSent :: nat
  st_packetsReceived :: nat
  st_bytesSent :: nat
  st_bytesReceived :: nat
  st_nacksSent :: nat
  st_nacksReceived :: nat
  st_retransmits :: nat
  st_syncsSent :: nat

datatype status = Sent | AssumedDelivered

record MessageKey =
  mk_key :: buffer
  mk_idx :: nat
  mk_epoch :: nat

text \<open>The callbacks given to \<^verbatim>\<open>setTimeout\<close>, with the variables they capture.\<close>

datatype task =
    ResendKeyReq KeyReqDart
  | ShareKey nat nat "(nat, buffer) jsmap" buffer "nat list"   \<comment> \<open>convId, epoch, roster, key, targets\<close>
  | ShareChain nat nat ChainState "nat list"                  \<comment> \<open>convId, epoch, chain, targets\<close>
  | Rekey nat
  | Probe nat
  | AssumeDelivered nat
  | SendAck nat nat nat                                      \<comment> \<open>convId, targetId, seq\<close>
  | NackRetry nat nat                                        \<comment> \<open>convId, senderId\<close>

record Client =
  c_port :: nat
  c_senderId :: nat
  c_nextSeq :: nat
  c_highestReceivedSeq :: "(nat, nat) jsmap"
  c_highestSentSeq :: nat
  c_sentMessages :: "(nat, DataDart) jsmap"
  c_receivedMessages :: "(nat, (nat, DataDart) jsmap) jsmap"
  c_outOfOrderBuffer :: "(nat, (nat, buffer) jsmap) jsmap"
  c_messageStatus :: "(nat, status) jsmap"
  c_peers :: "(string \<times> nat) list"
  c_stats :: ClientStats
  c_probeTimer :: "nat option"
  c_ackedSeq :: "(nat, nat) jsmap"
  c_seenSeq :: "(nat, nat) jsmap"
  c_nackRetryTimers :: "(nat, nat) jsmap"
  c_optimisticTimers :: "(nat, nat) jsmap"
  c_ackTimers :: "(nat, nat) jsmap"
  c_tcpSocket :: "nat option"
  c_useFallback :: bool
  c_clientECDH :: buffer
  c_roster :: "(nat, (nat, buffer) jsmap) jsmap"
  c_sharedWith :: "(nat, nat list) jsmap"
  c_rekeyTimer :: "nat option"
  c_isCreator :: "(nat, bool) jsmap"
  c_serverFingerprint :: string
  c_serverPubKeys :: "(nat, buffer) jsmap"
  c_senderChains :: "(nat, (nat, (nat, ChainState) jsmap) jsmap) jsmap"
  c_chainSharedWith :: "(nat, nat list) jsmap"
  c_messageKeys :: "(nat, MessageKey) jsmap"
  c_chainSeeds :: "(nat, (nat, ChainState) jsmap) jsmap"
  c_adoptedEpochs :: "(nat, nat) jsmap"
  c_roomKeys :: "(nat, (nat, buffer) jsmap) jsmap"
  c_currentEpochs :: "(nat, nat) jsmap"
  c_closed :: bool
  c_rekeySeconds :: nat                       \<comment> \<open>\<^verbatim>\<open>DART_REKEY_SECONDS\<close>, 300 by default\<close>
  c_draws :: nat
  c_timers :: "(nat \<times> nat \<times> task) list"
  c_nextTimer :: nat
  c_outbox :: "wire_out list"

text \<open>The constructor: \<^verbatim>\<open>senderId || port\<close>, a fresh key pair, everything else empty.\<close>

definition new_client :: "nat \<Rightarrow> nat option \<Rightarrow> buffer \<Rightarrow> nat \<Rightarrow> Client" where
  "new_client port senderId ecdh secs =
     \<lparr>c_port = port, c_senderId = or_default senderId port, c_nextSeq = 1, c_highestReceivedSeq = [],
      c_highestSentSeq = 0, c_sentMessages = [], c_receivedMessages = [], c_outOfOrderBuffer = [],
      c_messageStatus = [], c_peers = [],
      c_stats = \<lparr>st_packetsSent = 0, st_packetsReceived = 0, st_bytesSent = 0, st_bytesReceived = 0,
                 st_nacksSent = 0, st_nacksReceived = 0, st_retransmits = 0, st_syncsSent = 0\<rparr>,
      c_probeTimer = None, c_ackedSeq = [], c_seenSeq = [], c_nackRetryTimers = [],
      c_optimisticTimers = [], c_ackTimers = [], c_tcpSocket = None, c_useFallback = False,
      c_clientECDH = ecdh, c_roster = [], c_sharedWith = [], c_rekeyTimer = None, c_isCreator = [],
      c_serverFingerprint = '''', c_serverPubKeys = [], c_senderChains = [], c_chainSharedWith = [],
      c_messageKeys = [], c_chainSeeds = [], c_adoptedEpochs = [], c_roomKeys = [],
      c_currentEpochs = [], c_closed = False, c_rekeySeconds = secs, c_draws = 0, c_timers = [],
      c_nextTimer = 0, c_outbox = []\<rparr>"

section \<open>Timers, sending, small accessors\<close>

definition setTimeout :: "task \<Rightarrow> nat \<Rightarrow> Client \<Rightarrow> Client" where
  "setTimeout t ms c =
     c\<lparr>c_timers := c_timers c @ [(c_nextTimer c, ms, t)], c_nextTimer := c_nextTimer c + 1\<rparr>"

definition clearTimeout :: "nat option \<Rightarrow> Client \<Rightarrow> Client" where
  "clearTimeout handle c =
     (case handle of None \<Rightarrow> c
      | Some i \<Rightarrow> c\<lparr>c_timers := filter (\<lambda>(j, ms, t). j \<noteq> i) (c_timers c)\<rparr>)"

definition broadcast :: "buffer \<Rightarrow> Client \<Rightarrow> Client outcome" where
  "broadcast buf c =
     (if c_closed c then Done c
      else let c = c\<lparr>c_stats := (c_stats c)\<lparr>st_packetsSent := st_packetsSent (c_stats c) + 1,
                       st_bytesSent := st_bytesSent (c_stats c) + length buf\<rparr>\<rparr> in
        case (c_useFallback c, c_tcpSocket c) of
          (True, Some sock) \<Rightarrow>
            eval_in c (tcp_frame buf) (\<lambda>out. Done (c\<lparr>c_outbox := c_outbox c @ [TcpWrite sock out]\<rparr>))
        | _ \<Rightarrow> Done (c\<lparr>c_outbox := c_outbox c @ map (\<lambda>(address, port). UdpSend address port buf) (c_peers c)\<rparr>))"

text \<open>\<^verbatim>\<open>crypto.randomBytes(n)\<close>, also as the default nonce argument of an encoder.\<close>

definition with_random :: "prims \<Rightarrow> nat \<Rightarrow> Client \<Rightarrow> (buffer \<Rightarrow> Client \<Rightarrow> Client outcome) \<Rightarrow> Client outcome" where
  "with_random P n c f = f (randomBytes P (c_draws c) n) (c\<lparr>c_draws := c_draws c + 1\<rparr>)"

definition getCurrentKey :: "nat \<Rightarrow> Client \<Rightarrow> buffer option" where
  "getCurrentKey convId c = get2 (c_roomKeys c) convId (or_default (map_of (c_currentEpochs c) convId) 1)"

definition currentEpoch :: "nat \<Rightarrow> Client \<Rightarrow> nat" where
  "currentEpoch convId c = or_default (map_of (c_currentEpochs c) convId) 0"

definition hasJoined :: "nat \<Rightarrow> Client \<Rightarrow> bool" where
  "hasJoined convId c \<longleftrightarrow> getCurrentKey convId c \<noteq> None \<and> has (c_roster c) convId"

text \<open>\<^verbatim>\<open>fp.trim().toLowerCase()\<close>, on Latin-1 text.\<close>

definition is_space :: "char \<Rightarrow> bool" where
  "is_space ch \<longleftrightarrow> of_char ch \<in> {9, 10, 11, 12, 13, 32, 160 :: nat}"

definition js_trim :: "string \<Rightarrow> string" where
  "js_trim s = rev (dropWhile is_space (rev (dropWhile is_space s)))"

definition js_lower :: "string \<Rightarrow> string" where
  "js_lower = map (\<lambda>ch. let n = of_char ch :: nat in
     if 65 \<le> n \<and> n \<le> 90 \<or> 192 \<le> n \<and> n \<le> 222 \<and> n \<noteq> 215 then char_of (n + 32) else ch)"

definition setServerFingerprint :: "string \<Rightarrow> Client \<Rightarrow> Client" where
  "setServerFingerprint fp c = c\<lparr>c_serverFingerprint := js_lower (js_trim fp)\<rparr>"

definition addPeer :: "string \<Rightarrow> nat \<Rightarrow> Client \<Rightarrow> Client" where
  "addPeer address port c = c\<lparr>c_peers := c_peers c @ [(address, port)]\<rparr>"

definition sendKeyReq :: "KeyReqDart \<Rightarrow> Client \<Rightarrow> Client outcome" where
  "sendKeyReq req c = eval_in c (encodeKeyReq req) (\<lambda>buf. broadcast buf c)"

definition joinConversation :: "prims \<Rightarrow> nat \<Rightarrow> Client \<Rightarrow> Client outcome" where
  "joinConversation P convId c =
     with_random P 16 c (\<lambda>reqNonce c.
     let req = \<lparr>kr_type = TYPE_KEY_REQ, kr_convId = convId, kr_senderId = c_senderId c,
                kr_reqNonce = reqNonce, kr_clientPubKey = ecdhPublic P (c_clientECDH c)\<rparr> in
     and_then (sendKeyReq req c) (\<lambda>c.
     Done (setTimeout (ResendKeyReq req) 3000 (setTimeout (ResendKeyReq req) 2000
            (setTimeout (ResendKeyReq req) 1000 c)))))"

section \<open>Group keys and ratchet chains\<close>

definition getChain :: "nat \<Rightarrow> nat \<Rightarrow> nat \<Rightarrow> Client \<Rightarrow> ChainState option" where
  "getChain convId epoch senderId c = get2 (sub (c_senderChains c) convId) epoch senderId"

definition setChain :: "nat \<Rightarrow> nat \<Rightarrow> nat \<Rightarrow> ChainState \<Rightarrow> Client \<Rightarrow> Client" where
  "setChain convId epoch senderId state c =
     c\<lparr>c_senderChains := AList.update convId (set2 (sub (c_senderChains c) convId) epoch senderId state)
                          (c_senderChains c)\<rparr>"

text \<open>The members not yet served, in roster order: \<open>targets\<close> of both share loops.\<close>

definition share_targets :: "nat \<Rightarrow> nat list \<Rightarrow> (nat, buffer) jsmap \<Rightarrow> nat list" where
  "share_targets me served roster = filter (\<lambda>mId. mId \<noteq> me \<and> mId \<notin> set served) (map fst roster)"

definition sendChainShare :: "prims \<Rightarrow> nat \<Rightarrow> nat \<Rightarrow> nat \<Rightarrow> ChainState \<Rightarrow> Client \<Rightarrow> Client outcome" where
  "sendChainShare P convId epoch targetId chain c =
     (case get2 (c_roster c) convId targetId of
        None \<Rightarrow> Done c
      | Some targetPubKey \<Rightarrow>
          eval_in c (pairwiseKey P (c_clientECDH c) targetPubKey) (\<lambda>transportKey.
          with_random P 12 c (\<lambda>nonce c.
          eval_in c (encodeChainShare P \<lparr>ch_type = TYPE_CHAIN_SHARE, ch_convId = convId,
              ch_senderId = c_senderId c, ch_targetId = targetId, ch_epoch = epoch, ch_nonce = nonce,
              ch_chainKey = cs_key chain, ch_chainIndex = cs_index chain\<rparr> transportKey) (\<lambda>buf.
          broadcast buf c))))"

fun share_chain_loop :: "prims \<Rightarrow> nat \<Rightarrow> nat \<Rightarrow> ChainState \<Rightarrow> nat list \<Rightarrow> Client \<Rightarrow> Client outcome" where
  "share_chain_loop P convId epoch chain [] c = Done c"
| "share_chain_loop P convId epoch chain (mId # ms) c =
     and_then (sendChainShare P convId epoch mId chain c) (share_chain_loop P convId epoch chain ms)"

definition shareChainWithMembers :: "prims \<Rightarrow> nat \<Rightarrow> nat \<Rightarrow> Client \<Rightarrow> Client outcome" where
  "shareChainWithMembers P convId epoch c =
     (case (getChain convId epoch (c_senderId c) c, map_of (c_roster c) convId) of
        (Some myChain, Some roster) \<Rightarrow>
          (let served = sub (c_chainSharedWith c) convId;
               targets = share_targets (c_senderId c) served roster;
               c = c\<lparr>c_chainSharedWith := AList.update convId (served @ targets) (c_chainSharedWith c)\<rparr>
           in if targets = [] then Done c
              else and_then (share_chain_loop P convId epoch myChain targets c) (\<lambda>c.
                Done (setTimeout (ShareChain convId epoch myChain targets) 1000
                       (setTimeout (ShareChain convId epoch myChain targets) 300 c))))
      | _ \<Rightarrow> Done c)"

definition initOwnChain :: "prims \<Rightarrow> nat \<Rightarrow> nat \<Rightarrow> Client \<Rightarrow> Client outcome" where
  "initOwnChain P convId epoch c =
     with_random P 32 c (\<lambda>seed c.
     let c = setChain convId epoch (c_senderId c) \<lparr>cs_key = seed, cs_index = 0\<rparr> c;
         c = c\<lparr>c_chainSeeds := set2 (c_chainSeeds c) convId epoch \<lparr>cs_key = seed, cs_index = 0\<rparr>,
               c_chainSharedWith := AList.update convId [] (c_chainSharedWith c)\<rparr>
     in shareChainWithMembers P convId epoch c)"

text \<open>
  The loop of \<^verbatim>\<open>shareWithNewMembers\<close>. Its targets are keys of the roster it captured, so the
  missing case (\<^verbatim>\<open>computeSecret(undefined)\<close>, which throws) does not occur.
\<close>

fun share_key_loop ::
    "prims \<Rightarrow> nat \<Rightarrow> nat \<Rightarrow> (nat, buffer) jsmap \<Rightarrow> buffer \<Rightarrow> nat list \<Rightarrow> Client \<Rightarrow> Client outcome" where
  "share_key_loop P convId epoch roster key [] c = Done c"
| "share_key_loop P convId epoch roster key (mId # ms) c =
     (case map_of roster mId of
        None \<Rightarrow> Raised InvalidPublicKey c
      | Some targetPubKey \<Rightarrow>
          eval_in c (pairwiseKey P (c_clientECDH c) targetPubKey) (\<lambda>transportKey.
          with_random P 12 c (\<lambda>nonce c.
          eval_in c (encodeKeyShare P \<lparr>ks_type = TYPE_KEY_SHARE, ks_convId = convId,
              ks_senderId = c_senderId c, ks_targetId = mId, ks_epoch = epoch, ks_nonce = nonce,
              ks_encryptedKey = key\<rparr> transportKey) (\<lambda>buf.
          and_then (broadcast buf c) (share_key_loop P convId epoch roster key ms)))))"

definition shareWithNewMembers :: "prims \<Rightarrow> nat \<Rightarrow> Client \<Rightarrow> Client outcome" where
  "shareWithNewMembers P convId c =
     (case (getCurrentKey convId c, map_of (c_roster c) convId) of
        (Some key, Some roster) \<Rightarrow>
          (let epoch = or_default (map_of (c_currentEpochs c) convId) 1;
               served = sub (c_sharedWith c) convId;
               targets = share_targets (c_senderId c) served roster;
               c = c\<lparr>c_sharedWith := AList.update convId (served @ targets) (c_sharedWith c)\<rparr>
           in if targets = [] then Done c
              else and_then (share_key_loop P convId epoch roster key targets c) (\<lambda>c.
                Done (setTimeout (ShareKey convId epoch roster key targets) 1000
                       (setTimeout (ShareKey convId epoch roster key targets) 300 c))))
      | _ \<Rightarrow> Done c)"

definition scheduleRekey :: "nat \<Rightarrow> Client \<Rightarrow> Client" where
  "scheduleRekey convId c =
     (let c = clearTimeout (c_rekeyTimer c) c
      in (setTimeout (Rekey convId) (c_rekeySeconds c * 1000) c)\<lparr>c_rekeyTimer := Some (c_nextTimer c)\<rparr>)"

definition adoptKey :: "prims \<Rightarrow> nat \<Rightarrow> nat \<Rightarrow> buffer \<Rightarrow> Client \<Rightarrow> Client outcome" where
  "adoptKey P convId epoch key c =
     (let c = c\<lparr>c_roomKeys := set2 (c_roomKeys c) convId epoch key,
                c_currentEpochs := AList.update convId epoch (c_currentEpochs c),
                c_adoptedEpochs := AList.update convId epoch (c_adoptedEpochs c),
                c_sharedWith := AList.update convId [] (c_sharedWith c)\<rparr>
      in and_then (shareWithNewMembers P convId c) (\<lambda>c.
         and_then (initOwnChain P convId epoch c) (\<lambda>c.
         Done (scheduleRekey convId c))))"

definition pruneOldEpochs :: "nat \<Rightarrow> Client \<Rightarrow> Client" where
  "pruneOldEpochs convId c =
     (let current = or_default (map_of (c_currentEpochs c) convId) 0 in
      case map_of (c_roomKeys c) convId of
        None \<Rightarrow> c
      | Some keys \<Rightarrow>
          fold (\<lambda>epoch c.
              if epoch + 4 < current
              then c\<lparr>c_roomKeys := AList.update convId (AList.delete epoch (sub (c_roomKeys c) convId)) (c_roomKeys c),
                     c_chainSeeds := (if has (c_chainSeeds c) convId
                       then AList.update convId (AList.delete epoch (sub (c_chainSeeds c) convId)) (c_chainSeeds c)
                       else c_chainSeeds c)\<rparr>
              else c)
            (map fst keys) c)"

definition rekey :: "prims \<Rightarrow> nat \<Rightarrow> Client \<Rightarrow> Client outcome" where
  "rekey P convId c =
     (if map_of (c_isCreator c) convId = Some True
      then with_random P 32 c (\<lambda>key c.
        and_then (adoptKey P convId (or_default (map_of (c_currentEpochs c) convId) 1 + 1) key c) (\<lambda>c.
        Done (pruneOldEpochs convId c)))
      else Done c)"

text \<open>
  A member whose public key changed loses its place in the shared-with sets:
  \<^verbatim>\<open>keyDone?.delete(mId); chainDone?.delete(mId)\<close>.
\<close>

definition rekeyed_members :: "(nat, buffer) jsmap \<Rightarrow> (nat, buffer) jsmap \<Rightarrow> nat list" where
  "rekeyed_members prevRoster roster =
     map fst (filter (\<lambda>(mId, pub). case map_of prevRoster mId of None \<Rightarrow> False | Some prev \<Rightarrow> prev \<noteq> pub) roster)"

definition forget_served :: "nat \<Rightarrow> nat list \<Rightarrow> (nat, nat list) jsmap \<Rightarrow> (nat, nat list) jsmap" where
  "forget_served convId changed m =
     (case map_of m convId of
        None \<Rightarrow> m
      | Some served \<Rightarrow> AList.update convId (filter (\<lambda>mId. mId \<notin> set changed) served) m)"

definition roster_of :: "(nat \<times> buffer) list \<Rightarrow> (nat, buffer) jsmap" where
  "roster_of ms = fold (\<lambda>(i, pub) m. AList.update i pub m) ms []"

definition applyRoster :: "buffer \<Rightarrow> MemberInfo \<Rightarrow> Client \<Rightarrow> Client" where
  "applyRoster serverPubKey info c =
     (let convId = mi_convId info;
          rosterMap = roster_of (mi_members info);
          changed = (case map_of (c_roster c) convId of None \<Rightarrow> [] | Some prev \<Rightarrow> rekeyed_members prev rosterMap)
      in c\<lparr>c_roster := AList.update convId rosterMap (c_roster c),
           c_sharedWith := forget_served convId changed (c_sharedWith c),
           c_chainSharedWith := forget_served convId changed (c_chainSharedWith c),
           c_serverPubKeys := AList.update convId serverPubKey (c_serverPubKeys c),
           c_isCreator := AList.update convId (mi_creator info) (c_isCreator c)\<rparr>)"

definition handleMemberInfo :: "prims \<Rightarrow> buffer \<Rightarrow> Client \<Rightarrow> Client outcome" where
  "handleMemberInfo P buf c =
     (case memberInfoServerKey buf of
        Inl e \<Rightarrow> Done c
      | Inr serverPubKey \<Rightarrow>
          if c_serverFingerprint c \<noteq> '''' \<and> serverFingerprint P serverPubKey \<noteq> c_serverFingerprint c then Done c
          else eval_in c (pairwiseKey P (c_clientECDH c) serverPubKey) (\<lambda>transportKey.
          case decodeMemberInfo P buf transportKey of
            Inl e \<Rightarrow> Done c
          | Inr info \<Rightarrow>
              let convId = mi_convId info;
                  prevCreator = (map_of (c_isCreator c) convId = Some True);
                  c = applyRoster serverPubKey info c;
                  myEpoch = or_default (map_of (c_adoptedEpochs c) convId) 0
              in and_then
                   (if mi_creator info \<and> myEpoch = 0
                    then with_random P 32 c (\<lambda>key c. adoptKey P convId 1 key c)
                    else if myEpoch \<noteq> 0 then shareWithNewMembers P convId c
                    else Done c) (\<lambda>c.
                 and_then
                   (if mi_creator info \<and> \<not> prevCreator \<and> myEpoch \<noteq> 0 then rekey P convId c else Done c) (\<lambda>c.
                 and_then
                   (shareChainWithMembers P convId (or_default (map_of (c_currentEpochs c) convId) 1) c) (\<lambda>c.
                 Done (scheduleRekey convId c))))))"

definition handleKeyShare :: "prims \<Rightarrow> buffer \<Rightarrow> Client \<Rightarrow> Client outcome" where
  "handleKeyShare P buf c =
     eval_in c (readUInt16BE buf 1) (\<lambda>convId.
     eval_in c (readUInt16BE buf 3) (\<lambda>senderId.
     eval_in c (readUInt16BE buf 5) (\<lambda>targetId.
     if targetId \<noteq> c_senderId c then Done c
     else case get2 (c_roster c) convId senderId of
       None \<Rightarrow> Done c
     | Some sharerPubKey \<Rightarrow>
         eval_in c (pairwiseKey P (c_clientECDH c) sharerPubKey) (\<lambda>transportKey.
         case decodeKeyShare P buf transportKey of
           Inl e \<Rightarrow> Done c
         | Inr (epoch, groupKey) \<Rightarrow>
             let myEpoch = or_default (map_of (c_adoptedEpochs c) convId) 0;
                 curKey = getCurrentKey convId c
             in if myEpoch = 0 \<or> myEpoch < epoch
                   \<or> (epoch = myEpoch \<and> curKey \<noteq> None \<and> curKey \<noteq> Some groupKey)
                then adoptKey P convId epoch groupKey c else Done c))))"

definition handleChainShare :: "prims \<Rightarrow> buffer \<Rightarrow> Client \<Rightarrow> Client outcome" where
  "handleChainShare P buf c =
     eval_in c (readUInt16BE buf 1) (\<lambda>convId.
     eval_in c (readUInt16BE buf 3) (\<lambda>senderId.
     eval_in c (readUInt16BE buf 5) (\<lambda>targetId.
     if targetId \<noteq> c_senderId c then Done c
     else case get2 (c_roster c) convId senderId of
       None \<Rightarrow> Done c
     | Some sharerPubKey \<Rightarrow>
         eval_in c (pairwiseKey P (c_clientECDH c) sharerPubKey) (\<lambda>transportKey.
         case decodeChainShare P buf transportKey of
           Inl e \<Rightarrow> Done c
         | Inr decoded \<Rightarrow>
             Done (setChain convId (ch_epoch decoded) (ch_senderId decoded)
                     \<lparr>cs_key = ch_chainKey decoded, cs_index = ch_chainIndex decoded\<rparr> c)))))"

section \<open>History and dictionary\<close>

definition getDictionary :: "nat \<Rightarrow> nat \<Rightarrow> Client \<Rightarrow> buffer" where
  "getDictionary senderId maxSeq c =
     (if senderId = c_senderId c then dict_of (map snd (c_sentMessages c)) maxSeq
      else dict_of (map snd (sub (c_receivedMessages c) senderId)) maxSeq)"

definition pruneSent :: "Client \<Rightarrow> Client" where
  "pruneSent c =
     fold (\<lambda>k c. if seqDelta k (c_highestSentSeq c) > DICT_WINDOW + 16
                 then c\<lparr>c_sentMessages := AList.delete k (c_sentMessages c),
                        c_messageKeys := AList.delete k (c_messageKeys c)\<rparr>
                 else c)
       (map fst (c_sentMessages c)) c"

definition pruneReceived :: "nat \<Rightarrow> Client \<Rightarrow> Client" where
  "pruneReceived senderId c =
     (let highest = or_default (map_of (c_highestReceivedSeq c) senderId) 0 in
      case map_of (c_receivedMessages c) senderId of
        None \<Rightarrow> c
      | Some msgs \<Rightarrow>
          c\<lparr>c_receivedMessages :=
             AList.update senderId (window_gc (DICT_WINDOW + 16) highest msgs) (c_receivedMessages c)\<rparr>)"

section \<open>Control frames\<close>

definition sendDictReset :: "prims \<Rightarrow> nat \<Rightarrow> nat \<Rightarrow> Client \<Rightarrow> Client outcome" where
  "sendDictReset P convId targetId c =
     (case (getCurrentKey convId c, map_of (c_serverPubKeys c) convId) of
        (Some convKey, Some serverPub) \<Rightarrow>
          with_random P 12 c (\<lambda>nonce c.
          eval_in c (encodeDictReset P \<lparr>dr_type = 0x06, dr_convId = convId, dr_senderId = c_senderId c,
                       dr_targetId = targetId\<rparr> convKey nonce) (\<lambda>buf.
          eval_in c (pairwiseKey P (c_clientECDH c) serverPub) (\<lambda>k.
          broadcast (signControlFrame P buf k) c)))
      | _ \<Rightarrow> Done c)"

definition sendAck :: "prims \<Rightarrow> nat \<Rightarrow> nat \<Rightarrow> nat \<Rightarrow> Client \<Rightarrow> Client outcome" where
  "sendAck P convId targetId seq c =
     (case (getCurrentKey convId c, get2 (c_roster c) convId targetId) of
        (Some convKey, Some peerPub) \<Rightarrow>
          with_random P 12 c (\<lambda>nonce c.
          eval_in c (encodeAck P \<lparr>ak_type = TYPE_ACK, ak_convId = convId, ak_senderId = c_senderId c,
                       ak_targetId = targetId, ak_seq = seq\<rparr> convKey nonce) (\<lambda>buf.
          eval_in c (pairwiseKey P (c_clientECDH c) peerPub) (\<lambda>k.
          broadcast (signControlFrame P buf k) c)))
      | _ \<Rightarrow> Done c)"

definition sendNack :: "prims \<Rightarrow> nat \<Rightarrow> nat \<Rightarrow> nat list \<Rightarrow> Client \<Rightarrow> Client outcome" where
  "sendNack P convId targetId missingSeq c =
     (let c = c\<lparr>c_stats := (c_stats c)\<lparr>st_nacksSent := st_nacksSent (c_stats c) + 1\<rparr>\<rparr> in
      case (getCurrentKey convId c, get2 (c_roster c) convId targetId) of
        (Some convKey, Some peerPub) \<Rightarrow>
          with_random P 12 c (\<lambda>nonce c.
          eval_in c (encodeNack P \<lparr>nk_type = TYPE_NACK, nk_convId = convId, nk_senderId = c_senderId c,
                       nk_targetId = targetId, nk_missingSeq = missingSeq\<rparr> convKey nonce) (\<lambda>buf.
          eval_in c (pairwiseKey P (c_clientECDH c) peerPub) (\<lambda>k.
          broadcast (signControlFrame P buf k) c)))
      | _ \<Rightarrow> Done c)"

definition sendSync :: "prims \<Rightarrow> nat \<Rightarrow> Client \<Rightarrow> Client outcome" where
  "sendSync P convId c =
     (if c_highestSentSeq c = 0 then Done c
      else let c = c\<lparr>c_stats := (c_stats c)\<lparr>st_syncsSent := st_syncsSent (c_stats c) + 1\<rparr>\<rparr> in
      case (getCurrentKey convId c, map_of (c_serverPubKeys c) convId) of
        (Some convKey, Some serverPub) \<Rightarrow>
          with_random P 12 c (\<lambda>nonce c.
          eval_in c (encodeSync P \<lparr>sy_type = TYPE_SYNC, sy_convId = convId, sy_senderId = c_senderId c,
                       sy_highestSeq = c_highestSentSeq c\<rparr> convKey nonce) (\<lambda>buf.
          eval_in c (pairwiseKey P (c_clientECDH c) serverPub) (\<lambda>k.
          broadcast (signControlFrame P buf k) c)))
      | _ \<Rightarrow> Done c)"

definition scheduleNackRetry :: "nat \<Rightarrow> nat \<Rightarrow> Client \<Rightarrow> Client" where
  "scheduleNackRetry convId senderId c =
     (if has (c_nackRetryTimers c) senderId then c
      else (setTimeout (NackRetry convId senderId) 800 c)
             \<lparr>c_nackRetryTimers := AList.update senderId (c_nextTimer c) (c_nackRetryTimers c)\<rparr>)"

definition scheduleProbe :: "nat \<Rightarrow> Client \<Rightarrow> Client" where
  "scheduleProbe convId c =
     (let c = clearTimeout (c_probeTimer c) c
      in (setTimeout (Probe convId) 400 c)\<lparr>c_probeTimer := Some (c_nextTimer c)\<rparr>)"

text \<open>The sequence numbers after \<open>highest\<close> that are neither buffered nor received.\<close>

definition missing_after :: "nat \<Rightarrow> nat \<Rightarrow> nat list \<Rightarrow> Client \<Rightarrow> nat list" where
  "missing_after senderId highest ks c =
     filter (\<lambda>i. \<not> has (sub (c_outOfOrderBuffer c) senderId) i \<and> \<not> has (sub (c_receivedMessages c) senderId) i)
       (map (seqAdd highest) ks)"

section \<open>Sending\<close>

text \<open>\<^verbatim>\<open>setTimeout(() => this.messageStatus.set(seq, 'assumed_delivered'), 600)\<close>, remembered by seq.\<close>

definition startOptimisticTimer :: "nat \<Rightarrow> Client \<Rightarrow> Client" where
  "startOptimisticTimer seq c =
     (setTimeout (AssumeDelivered seq) 600 c)
       \<lparr>c_optimisticTimers := AList.update seq (c_nextTimer c) (c_optimisticTimers c)\<rparr>"

definition sendData :: "prims \<Rightarrow> nat \<Rightarrow> jsstring \<Rightarrow> Client \<Rightarrow> Client outcome" where
  "sendData P convId payload c =
     (let seq = c_nextSeq c;
          c = c\<lparr>c_nextSeq := seqNext (c_nextSeq c)\<rparr>;
          dict = getDictionary (c_senderId c) seq c;
          epoch = or_default (map_of (c_currentEpochs c) convId) 1 in
      case getChain convId epoch (c_senderId c) c of
        None \<Rightarrow> Done c
      | Some myChain \<Rightarrow>
          let idx = cs_index myChain;
              (messageKey, state) = advanceChain P myChain idx;
              c = setChain convId epoch (c_senderId c) state c;
              dart = \<lparr>dd_type = TYPE_DATA, dd_convId = convId, dd_senderId = c_senderId c, dd_seq = seq,
                      dd_payload = payload\<rparr>;
              c = c\<lparr>c_highestSentSeq := seq,
                    c_sentMessages := AList.update seq dart (c_sentMessages c),
                    c_messageKeys := AList.update seq
                      \<lparr>mk_key = messageKey, mk_idx = idx, mk_epoch = epoch\<rparr> (c_messageKeys c)\<rparr>;
              c = pruneSent c;
              c = c\<lparr>c_messageStatus := AList.update seq Sent (c_messageStatus c)\<rparr>
          in with_random P 12 c (\<lambda>nonce c.
             eval_in c (encodeDataHelper P dart dict messageKey idx epoch nonce) (\<lambda>buf.
             and_then (broadcast buf c) (\<lambda>c.
             Done (startOptimisticTimer seq (scheduleProbe convId c))))))"

section \<open>Receiving data\<close>

text \<open>
  \<^verbatim>\<open>decryptDataInOrder\<close>: \<open>Inr None\<close> is the result \<^verbatim>\<open>null\<close>, with the state unchanged; the reads
  of the header are outside its \<^verbatim>\<open>try\<close> block.
\<close>

definition decryptDataInOrder ::
    "prims \<Rightarrow> buffer \<Rightarrow> nat \<Rightarrow> Client \<Rightarrow> exn + (DecryptedData \<times> Client) option" where
  "decryptDataInOrder P buf senderId c =
     sbind (readUInt16BE buf 21) (\<lambda>epoch.
     sbind (readUInt32BE buf 27) (\<lambda>idx.
     sbind (readUInt16BE buf 1) (\<lambda>convId.
     case getChain convId epoch senderId c of
       None \<Rightarrow> Inr None
     | Some chain \<Rightarrow>
         if idx < cs_index chain then Inr None
         else let (messageKey, state) = advanceChain P chain idx in
           (case decryptData P buf messageKey of
              Inl e \<Rightarrow> Inr None
            | Inr dec \<Rightarrow> Inr (Some (dec, setChain convId epoch senderId state c))))))"

definition processDataPacket :: "prims \<Rightarrow> DecryptedData \<Rightarrow> nat \<Rightarrow> nat \<Rightarrow> Client \<Rightarrow> Client outcome" where
  "processDataPacket P dec parsedSenderId seq c =
     (let dict = getDictionary parsedSenderId seq c in
      if dc_dictFp dec \<noteq> dictFingerprint P dict
      then sendDictReset P (dc_convId dec) parsedSenderId
             (if has (c_receivedMessages c) parsedSenderId
              then c\<lparr>c_receivedMessages := AList.update parsedSenderId [] (c_receivedMessages c)\<rparr> else c)
      else case inflateData P (dc_compressed dec) dict of
        Inl e \<Rightarrow> Done c
      | Inr payload \<Rightarrow>
          let dart = \<lparr>dd_type = TYPE_DATA, dd_convId = dc_convId dec, dd_senderId = parsedSenderId,
                      dd_seq = seq, dd_payload = payload\<rparr>;
              c = c\<lparr>c_receivedMessages := ensure (c_receivedMessages c) parsedSenderId\<rparr>
          in if has (sub (c_receivedMessages c) parsedSenderId) seq then Done c
             else
               let c = c\<lparr>c_receivedMessages := set2 (c_receivedMessages c) parsedSenderId seq dart\<rparr>;
                   hasBaseline = has (c_highestReceivedSeq c) parsedSenderId;
                   h = or_default (map_of (c_highestReceivedSeq c) parsedSenderId) 0;
                   d = (if hasBaseline then seqDelta h seq else 1);
                   c = (if d > 0 \<and> d < SEQ_MOD div 2
                        then c\<lparr>c_highestReceivedSeq := AList.update parsedSenderId seq (c_highestReceivedSeq c)\<rparr>
                        else c);
                   c = pruneReceived parsedSenderId c;
                   c = clearTimeout (map_of (c_ackTimers c) parsedSenderId) c
               in Done ((setTimeout (SendAck (dc_convId dec) parsedSenderId seq) 200 c)
                    \<lparr>c_ackTimers := AList.update parsedSenderId (c_nextTimer c) (c_ackTimers c)\<rparr>))"

text \<open>One round of the drain loop, with the \<^verbatim>\<open>catch\<close> around it.\<close>

definition processBuffered :: "prims \<Rightarrow> buffer \<Rightarrow> nat \<Rightarrow> nat \<Rightarrow> Client \<Rightarrow> Client" where
  "processBuffered P raw senderId seq c =
     (case decryptDataInOrder P raw senderId c of
        Inr (Some (dec, c')) \<Rightarrow>
          if dc_senderId dec = senderId then state_of (processDataPacket P dec senderId seq c') else c'
      | _ \<Rightarrow> c)"

text \<open>What the receive path never touches: the out-of-order buffers (and so the drain loop ends).\<close>

lemma buffer_helpers [simp]:
  "c_outOfOrderBuffer (setTimeout t ms c) = c_outOfOrderBuffer c"
  "c_outOfOrderBuffer (clearTimeout h c) = c_outOfOrderBuffer c"
  "c_outOfOrderBuffer (pruneReceived i c) = c_outOfOrderBuffer c"
  "c_outOfOrderBuffer (setChain a b i st c) = c_outOfOrderBuffer c"
  by (simp_all add: setTimeout_def clearTimeout_def pruneReceived_def setChain_def Let_def split: option.splits)

lemma buffer_broadcast [simp]: "c_outOfOrderBuffer (state_of (broadcast buf c)) = c_outOfOrderBuffer c"
  by (auto simp: broadcast_def Let_def eval_in_def split: sum.splits option.splits bool.splits)

lemma buffer_sendDictReset [simp]:
  "c_outOfOrderBuffer (state_of (sendDictReset P a b c)) = c_outOfOrderBuffer c"
  by (auto simp: sendDictReset_def with_random_def eval_in_def split: option.splits sum.splits)

lemma buffer_processDataPacket [simp]:
  "c_outOfOrderBuffer (state_of (processDataPacket P dec i seq c)) = c_outOfOrderBuffer c"
  by (simp add: processDataPacket_def Let_def split: sum.splits)

lemma buffer_decrypt:
  "decryptDataInOrder P raw i c = Inr (Some (dec, c')) \<Longrightarrow> c_outOfOrderBuffer c' = c_outOfOrderBuffer c"
  by (auto simp: decryptDataInOrder_def Let_def case_prod_unfold split: option.splits if_splits sum.splits)

lemma buffer_processBuffered [simp]:
  "c_outOfOrderBuffer (processBuffered P raw i seq c) = c_outOfOrderBuffer c"
  by (auto simp: processBuffered_def buffer_decrypt split: sum.splits option.splits)

lemma length_delete_less: "has m k \<Longrightarrow> length (AList.delete k m) < length m"
  by (auto simp: AList.delete_eq has_iff_key intro!: length_filter_less)

function buffered_loop :: "prims \<Rightarrow> nat \<Rightarrow> nat \<Rightarrow> Client \<Rightarrow> Client" where
  "buffered_loop P senderId nextSeq c =
     (case map_of (sub (c_outOfOrderBuffer c) senderId) nextSeq of
        None \<Rightarrow> c
      | Some raw \<Rightarrow>
          buffered_loop P senderId (seqNext nextSeq)
            (processBuffered P raw senderId nextSeq
              (c\<lparr>c_outOfOrderBuffer := AList.update senderId
                  (AList.delete nextSeq (sub (c_outOfOrderBuffer c) senderId)) (c_outOfOrderBuffer c)\<rparr>)))"
  by pat_completeness auto
termination
  by (relation "measure (\<lambda>(P, i, s, c). length (sub (c_outOfOrderBuffer c) i))")
    (auto intro: length_delete_less simp: has_def)

declare buffered_loop.simps [simp del]

definition processBufferedPackets :: "prims \<Rightarrow> nat \<Rightarrow> Client \<Rightarrow> Client" where
  "processBufferedPackets P senderId c =
     buffered_loop P senderId (seqNext (or_default (map_of (c_highestReceivedSeq c) senderId) 0)) c"

section \<open>handleMessage\<close>

text \<open>\<^verbatim>\<open>seenSeq\<close> follows the newest sequence number mentioned, whatever carried it.\<close>

definition noteSeen :: "nat \<Rightarrow> nat \<Rightarrow> Client \<Rightarrow> Client" where
  "noteSeen senderId seq c =
     (let seen = or_default (map_of (c_seenSeq c) senderId) 0 in
      if seqDelta seen seq > 0 \<and> seqDelta seen seq < SEQ_MOD div 2
      then c\<lparr>c_seenSeq := AList.update senderId seq (c_seenSeq c)\<rparr>
      else if \<not> has (c_seenSeq c) senderId
      then c\<lparr>c_seenSeq := AList.update senderId seq (c_seenSeq c)\<rparr>
      else c)"

definition onData :: "prims \<Rightarrow> buffer \<Rightarrow> Client \<Rightarrow> Client outcome" where
  "onData P buf c =
     eval_in c (readUInt16BE buf 1) (\<lambda>convId.
     eval_in c (readUIntBE buf 3 3) (\<lambda>seq.
     eval_in c (readUInt8 buf 6) (\<lambda>extLen.
     if extLen < 24 then Done c
     else eval_in c (readUInt16BE buf 7) (\<lambda>parsedSenderId.
       let hasBaseline = has (c_highestReceivedSeq c) parsedSenderId;
           highestReceived = or_default (map_of (c_highestReceivedSeq c) parsedSenderId) 0;
           c = noteSeen parsedSenderId seq c;
           ahead = (if hasBaseline then seqDelta highestReceived seq
                    else if seq \<ge> 1 \<and> seq \<le> DICT_WINDOW then seq else 1)
       in if ahead = 0 \<or> ahead \<ge> SEQ_MOD div 2 then Done c
          else if ahead > 1 then
            let c = c\<lparr>c_outOfOrderBuffer := set2 (c_outOfOrderBuffer c) parsedSenderId seq buf\<rparr>;
                missing = missing_after parsedSenderId highestReceived [1..<ahead] c
            in if missing \<noteq> []
               then and_then (sendNack P convId parsedSenderId missing c)
                      (\<lambda>c. Done (scheduleNackRetry convId parsedSenderId c))
               else Done c
          else eval_in c (decryptDataInOrder P buf parsedSenderId c) (\<lambda>r.
            case r of
              None \<Rightarrow> Done c
            | Some (dec, c) \<Rightarrow>
                and_then (processDataPacket P dec parsedSenderId seq c)
                  (\<lambda>c. Done (processBufferedPackets P parsedSenderId c)))))))"

text \<open>The retransmission loop of the NACK branch.\<close>

fun retransmit_loop :: "prims \<Rightarrow> nat list \<Rightarrow> Client \<Rightarrow> Client outcome" where
  "retransmit_loop P [] c = Done c"
| "retransmit_loop P (seq # seqs) c =
     (case (map_of (c_sentMessages c) seq, map_of (c_messageKeys c) seq) of
        (Some dart, Some mk) \<Rightarrow>
          let c = c\<lparr>c_stats := (c_stats c)\<lparr>st_retransmits := st_retransmits (c_stats c) + 1\<rparr>\<rparr>;
              dict = getDictionary (c_senderId c) seq c
          in with_random P 12 c (\<lambda>nonce c.
             eval_in c (encodeDataHelper P dart dict (mk_key mk) (mk_idx mk) (mk_epoch mk) nonce) (\<lambda>outBuf.
             and_then (broadcast outBuf c) (\<lambda>c.
             retransmit_loop P seqs (startOptimisticTimer seq
               (clearTimeout (map_of (c_optimisticTimers c) seq)
                 (c\<lparr>c_messageStatus := AList.update seq Sent (c_messageStatus c)\<rparr>))))))
      | _ \<Rightarrow> retransmit_loop P seqs c)"

text \<open>
  \<^verbatim>\<open>peerPub ? verifyControlFrame(buf, pairwiseKey(this.clientECDH, peerPub)) : null\<close> with the
  roster's key of the claimed sender.
\<close>

definition client_verifies :: "prims \<Rightarrow> Client \<Rightarrow> nat \<Rightarrow> nat \<Rightarrow> buffer \<Rightarrow> exn + buffer option" where
  "client_verifies P c convId senderId buf =
     (case get2 (c_roster c) convId senderId of
        None \<Rightarrow> Inr None
      | Some peerPub \<Rightarrow>
          sbind (pairwiseKey P (c_clientECDH c) peerPub) (\<lambda>k. Inr (verifyControlFrame P buf k)))"

definition onNack :: "prims \<Rightarrow> buffer \<Rightarrow> Client \<Rightarrow> Client outcome" where
  "onNack P buf c =
     (let c = c\<lparr>c_stats := (c_stats c)\<lparr>st_nacksReceived := st_nacksReceived (c_stats c) + 1\<rparr>\<rparr> in
      eval_in c (readUInt16BE buf 1) (\<lambda>nackConvId.
      eval_in c (readUInt16BE buf 3) (\<lambda>nackSenderId.
      eval_in c (readUInt16BE buf 5) (\<lambda>nackTargetId.
      if nackTargetId \<noteq> c_senderId c then Done c
      else eval_in c (client_verifies P c nackConvId nackSenderId buf) (\<lambda>verified.
        case (verified, getCurrentKey nackConvId c) of
          (Some nackStripped, Some convKey) \<Rightarrow>
            eval_in c (decodeNack P nackStripped convKey) (\<lambda>nack.
            and_then (retransmit_loop P (nk_missingSeq nack) c) (\<lambda>c.
            let epoch = or_default (map_of (c_currentEpochs c) nackConvId) 1 in
            case get2 (c_chainSeeds c) nackConvId epoch of
              None \<Rightarrow> Done c
            | Some seed \<Rightarrow> sendChainShare P nackConvId epoch nackSenderId seed c))
        | _ \<Rightarrow> Done c)))))"

definition onSync :: "prims \<Rightarrow> buffer \<Rightarrow> Client \<Rightarrow> Client outcome" where
  "onSync P buf c =
     (case stripControlFrame buf of
        None \<Rightarrow> Done c
      | Some syncStripped \<Rightarrow>
          eval_in c (readUInt16BE syncStripped 1) (\<lambda>syncConvId.
          case getCurrentKey syncConvId c of
            None \<Rightarrow> Done c
          | Some syncKey \<Rightarrow>
              eval_in c (decodeSync P syncStripped syncKey) (\<lambda>sync.
              let senderId = sy_senderId sync;
                  c = noteSeen senderId (sy_highestSeq sync) c;
                  hasBaseline = has (c_highestReceivedSeq c) senderId;
                  highestReceived = or_default (map_of (c_highestReceivedSeq c) senderId) 0;
                  ahead = (if hasBaseline then seqDelta highestReceived (sy_highestSeq sync)
                           else sy_highestSeq sync)
              in if ahead > 0 \<and> ahead < SEQ_MOD div 2 then
                   let c = c\<lparr>c_receivedMessages := ensure (c_receivedMessages c) senderId\<rparr>;
                       missing = filter (\<lambda>i. \<not> has (sub (c_receivedMessages c) senderId) i)
                                   (map (seqAdd highestReceived) [1..<ahead + 1])
                   in if missing \<noteq> []
                      then and_then (sendNack P (sy_convId sync) senderId missing c)
                             (\<lambda>c. Done (scheduleNackRetry (sy_convId sync) senderId c))
                      else Done c
                 else Done c)))"

definition onDictReset :: "prims \<Rightarrow> buffer \<Rightarrow> Client \<Rightarrow> Client outcome" where
  "onDictReset P buf c =
     (case stripControlFrame buf of
        None \<Rightarrow> Done c
      | Some resetStripped \<Rightarrow>
          eval_in c (readUInt16BE resetStripped 1) (\<lambda>resetConvId.
          case getCurrentKey resetConvId c of
            None \<Rightarrow> Done c
          | Some resetKey \<Rightarrow>
              eval_in c (decodeDictReset P resetStripped resetKey) (\<lambda>reset.
              if dr_targetId reset = c_senderId c then Done (c\<lparr>c_sentMessages := []\<rparr>)
              else if has (c_receivedMessages c) (dr_targetId reset)
              then Done (c\<lparr>c_receivedMessages := AList.update (dr_targetId reset) [] (c_receivedMessages c)\<rparr>)
              else Done c)))"

definition onAck :: "prims \<Rightarrow> buffer \<Rightarrow> Client \<Rightarrow> Client outcome" where
  "onAck P buf c =
     eval_in c (readUInt16BE buf 1) (\<lambda>ackConvId.
     eval_in c (readUInt16BE buf 3) (\<lambda>ackSenderId.
     eval_in c (readUInt16BE buf 5) (\<lambda>ackTargetId.
     if ackTargetId \<noteq> c_senderId c then Done c
     else eval_in c (client_verifies P c ackConvId ackSenderId buf) (\<lambda>verified.
       case (verified, getCurrentKey ackConvId c) of
         (Some ackStripped, Some ackKey) \<Rightarrow>
           eval_in c (decodeAck P ackStripped ackKey) (\<lambda>ack.
           if seqDelta (c_highestSentSeq c) (ak_seq ack) < SEQ_MOD div 2
           then Done (c\<lparr>c_ackedSeq := AList.update ackConvId (ak_seq ack) (c_ackedSeq c)\<rparr>) else Done c)
       | _ \<Rightarrow> Done c))))"

definition client_try :: "prims \<Rightarrow> buffer \<Rightarrow> Client \<Rightarrow> Client outcome" where
  "client_try P buf c =
     eval_in c (readUInt8 buf 0) (\<lambda>type.
     if type = TYPE_DATA then onData P buf c
     else if type = TYPE_CHAIN_SHARE then handleChainShare P buf c
     else if type = TYPE_NACK then onNack P buf c
     else if type = TYPE_KEY_SHARE then handleKeyShare P buf c
     else if type = TYPE_MEMBER_INFO then handleMemberInfo P buf c
     else if type = TYPE_SYNC then onSync P buf c
     else if type = 0x06 then onDictReset P buf c
     else if type = 0x07 then onAck P buf c
     else Done c)"

definition client_handleMessage :: "prims \<Rightarrow> buffer \<Rightarrow> Client \<Rightarrow> Client" where
  "client_handleMessage P buf c = state_of (client_try P buf c)"

section \<open>Transports, timers, shutdown\<close>

definition count_bytes :: "buffer \<Rightarrow> Client \<Rightarrow> Client" where
  "count_bytes msg c = c\<lparr>c_stats := (c_stats c)\<lparr>st_packetsReceived := st_packetsReceived (c_stats c) + 1,
     st_bytesReceived := st_bytesReceived (c_stats c) + length msg\<rparr>\<rparr>"

text \<open>The \<^verbatim>\<open>message\<close> handler; \<open>lost\<close> is the outcome of the simulated-loss draw.\<close>

definition onUdp :: "prims \<Rightarrow> bool \<Rightarrow> buffer \<Rightarrow> Client \<Rightarrow> Client" where
  "onUdp P lost msg c = (if lost then c else client_handleMessage P msg (count_bytes msg c))"

definition enableFallback :: "nat \<Rightarrow> Client \<Rightarrow> Client" where
  "enableFallback sock c =
     (if c_useFallback c then c else c\<lparr>c_useFallback := True, c_tcpSocket := Some sock\<rparr>)"

definition onFallbackData :: "prims \<Rightarrow> buffer \<Rightarrow> buffer \<Rightarrow> Client \<Rightarrow> Client \<times> buffer" where
  "onFallbackData P kept data c =
     tcp_loop (\<lambda>c payload. client_handleMessage P payload (count_bytes payload c)) c (kept @ data)"

definition disableFallback :: "Client \<Rightarrow> Client" where
  "disableFallback c = c\<lparr>c_useFallback := False, c_tcpSocket := None\<rparr>"

definition getStatus :: "nat \<Rightarrow> Client \<Rightarrow> status option" where
  "getStatus seq c = map_of (c_messageStatus c) seq"

definition client_close :: "Client \<Rightarrow> Client" where
  "client_close c =
     (let c = c\<lparr>c_closed := True\<rparr>;
          c = clearTimeout (c_rekeyTimer c) (clearTimeout (c_probeTimer c) c);
          c = fold (\<lambda>t. clearTimeout (Some t)) (map snd (c_optimisticTimers c)) c
      in fold (\<lambda>t. clearTimeout (Some t)) (map snd (c_ackTimers c)) c)"

text \<open>The callbacks.\<close>

definition nackRetry :: "prims \<Rightarrow> nat \<Rightarrow> nat \<Rightarrow> Client \<Rightarrow> Client outcome" where
  "nackRetry P convId senderId c =
     (let c = c\<lparr>c_nackRetryTimers := AList.delete senderId (c_nackRetryTimers c)\<rparr> in
      case (map_of (c_highestReceivedSeq c) senderId, map_of (c_seenSeq c) senderId) of
        (Some highest, Some seen) \<Rightarrow>
          let ahead = seqDelta highest seen;
              missing = missing_after senderId highest [1..<min ahead (DICT_WINDOW + 1)] c
          in if missing \<noteq> []
             then and_then (sendNack P convId senderId missing c)
                    (\<lambda>c. Done (scheduleNackRetry convId senderId c))
             else Done c
      | _ \<Rightarrow> Done c)"

definition probe :: "prims \<Rightarrow> nat \<Rightarrow> Client \<Rightarrow> Client outcome" where
  "probe P convId c =
     and_then (sendSync P convId c) (\<lambda>c.
     let acked = or_default (map_of (c_ackedSeq c) convId) 0 in
     if seqDelta (c_highestSentSeq c) acked \<ge> SEQ_MOD div 2 then Done (scheduleProbe convId c) else Done c)"

primrec run_task :: "prims \<Rightarrow> task \<Rightarrow> Client \<Rightarrow> Client outcome" where
  "run_task P (ResendKeyReq req) c = with_random P 16 c (\<lambda>n c. sendKeyReq (req\<lparr>kr_reqNonce := n\<rparr>) c)"
| "run_task P (ShareKey convId epoch roster key targets) c = share_key_loop P convId epoch roster key targets c"
| "run_task P (ShareChain convId epoch chain targets) c = share_chain_loop P convId epoch chain targets c"
| "run_task P (Rekey convId) c = rekey P convId c"
| "run_task P (Probe convId) c = probe P convId c"
| "run_task P (AssumeDelivered seq) c =
     Done (c\<lparr>c_messageStatus := AList.update seq AssumedDelivered (c_messageStatus c)\<rparr>)"
| "run_task P (SendAck convId targetId seq) c = sendAck P convId targetId seq c"
| "run_task P (NackRetry convId senderId) c = nackRetry P convId senderId c"

definition fire :: "prims \<Rightarrow> nat \<Rightarrow> Client \<Rightarrow> Client outcome" where
  "fire P handle c =
     (case map_of (c_timers c) handle of
        None \<Rightarrow> Done c
      | Some (ms, t) \<Rightarrow> run_task P t (clearTimeout (Some handle) c))"

end
