(* ===== verification/Dart_Stream.thy ===== *)
theory Dart_Stream
  imports Dart_Client Dart_Codec_Laws
begin

text \<open>
  Delivery of a sender's messages. The reference is a stream of messages numbered by an unbounded
  counter: the sequence numbers, dictionaries, ratchet keys and frames of message \<open>n\<close> are functions
  of it. \<open>sendData_sends\<close> shows that the client's \<^verbatim>\<open>sendData\<close> produces these frames;
  \<open>takes_old\<close>, \<open>takes_early\<close> and \<open>takes_due\<close> show what one arriving frame does to a receiver
  (ignored, buffered or processed).
\<close>

section \<open>What sending and timers leave alone\<close>

definition client_core where
  "client_core c = (c_senderId c, c_nextSeq c, c_highestReceivedSeq c, c_highestSentSeq c,
     c_sentMessages c, c_receivedMessages c, c_outOfOrderBuffer c, c_ackedSeq c, c_clientECDH c,
     c_roster c, c_serverPubKeys c, c_senderChains c, c_messageKeys c, c_chainSeeds c,
     c_adoptedEpochs c, c_roomKeys c, c_currentEpochs c, c_isCreator c, c_closed c, c_peers c,
     c_useFallback c, c_tcpSocket c, c_serverFingerprint c)"

lemma client_coreD:
  assumes "client_core c = client_core d"
  shows "c_senderId c = c_senderId d" "c_nextSeq c = c_nextSeq d"
    "c_highestReceivedSeq c = c_highestReceivedSeq d" "c_highestSentSeq c = c_highestSentSeq d"
    "c_sentMessages c = c_sentMessages d" "c_receivedMessages c = c_receivedMessages d"
    "c_outOfOrderBuffer c = c_outOfOrderBuffer d" "c_ackedSeq c = c_ackedSeq d"
    "c_clientECDH c = c_clientECDH d" "c_roster c = c_roster d" "c_serverPubKeys c = c_serverPubKeys d"
    "c_senderChains c = c_senderChains d" "c_messageKeys c = c_messageKeys d"
    "c_chainSeeds c = c_chainSeeds d" "c_adoptedEpochs c = c_adoptedEpochs d"
    "c_roomKeys c = c_roomKeys d" "c_currentEpochs c = c_currentEpochs d"
    "c_isCreator c = c_isCreator d" "c_closed c = c_closed d" "c_peers c = c_peers d"
    "c_useFallback c = c_useFallback d" "c_tcpSocket c = c_tcpSocket d" "c_serverFingerprint c = c_serverFingerprint d"
  using assms by (simp_all add: client_core_def)

lemma client_core_simps [simp]:
  "client_core (c\<lparr>c_stats := x\<rparr>) = client_core c"
  "client_core (c\<lparr>c_draws := n\<rparr>) = client_core c"
  "client_core (c\<lparr>c_outbox := ob\<rparr>) = client_core c"
  "client_core (c\<lparr>c_timers := ts\<rparr>) = client_core c"
  "client_core (c\<lparr>c_seenSeq := sq\<rparr>) = client_core c"
  "client_core (c\<lparr>c_messageStatus := ms\<rparr>) = client_core c"
  "client_core (c\<lparr>c_nackRetryTimers := ht\<rparr>) = client_core c"
  "client_core (c\<lparr>c_optimisticTimers := ht\<rparr>) = client_core c"
  "client_core (c\<lparr>c_ackTimers := ht\<rparr>) = client_core c"
  "client_core (c\<lparr>c_probeTimer := h\<rparr>) = client_core c"
  "client_core (c\<lparr>c_rekeyTimer := h\<rparr>) = client_core c"
  "client_core (c\<lparr>c_sharedWith := sw\<rparr>) = client_core c"
  "client_core (c\<lparr>c_chainSharedWith := sw\<rparr>) = client_core c"
  "client_core (setTimeout t ms' c) = client_core c"
  "client_core (clearTimeout h c) = client_core c"
  "client_core (noteSeen i sq' c) = client_core c"
  "client_core (count_bytes b c) = client_core c"
  by (simp_all add: client_core_def setTimeout_def clearTimeout_def noteSeen_def count_bytes_def Let_def
      split: option.splits)

lemma client_core_broadcast [simp]: "client_core (state_of (broadcast buf c)) = client_core c"
  by (auto simp: broadcast_def Let_def eval_in_def split: sum.splits option.splits bool.splits)

lemma client_core_control [simp]:
  "client_core (state_of (sendNack P a b l c)) = client_core c"
  "client_core (state_of (sendAck P a b s c)) = client_core c"
  "client_core (state_of (sendSync P a c)) = client_core c"
  "client_core (state_of (sendDictReset P a b c)) = client_core c"
  "client_core (state_of (sendChainShare P a e b ch c)) = client_core c"
  "client_core (state_of (sendKeyReq r c)) = client_core c"
  by (auto simp: sendNack_def sendAck_def sendSync_def sendDictReset_def sendChainShare_def sendKeyReq_def
      with_random_def Let_def eval_in_def split: option.splits sum.splits)

lemma client_core_schedule [simp]:
  "client_core (scheduleNackRetry a b c) = client_core c"
  "client_core (scheduleProbe a c) = client_core c"
  "client_core (scheduleRekey a c) = client_core c"
  "client_core (startOptimisticTimer s c) = client_core c"
  by (simp_all add: scheduleNackRetry_def scheduleProbe_def scheduleRekey_def startOptimisticTimer_def Let_def)

lemma client_core_nack_and_retry [simp]:
  "client_core (state_of (and_then (sendNack P a b l c) (\<lambda>c. Done (scheduleNackRetry a' b' c)))) = client_core c"
  using client_core_control(1) [of P a b l c] by (cases "sendNack P a b l c") simp_all

section \<open>Pruning\<close>

lemma pruneSent_eq:
  "pruneSent c = c\<lparr>c_sentMessages := window_gc (DICT_WINDOW + 16) (c_highestSentSeq c) (c_sentMessages c),
     c_messageKeys := fold (\<lambda>k m. if seqDelta k (c_highestSentSeq c) > DICT_WINDOW + 16 then AList.delete k m else m)
       (map fst (c_sentMessages c)) (c_messageKeys c)\<rparr>"
proof -
  have "fold (\<lambda>k c. if seqDelta k (c_highestSentSeq c) > w then c\<lparr>c_sentMessages := AList.delete k (c_sentMessages c),
           c_messageKeys := AList.delete k (c_messageKeys c)\<rparr> else c) ks c
      = c\<lparr>c_sentMessages := fold (\<lambda>k m. if seqDelta k (c_highestSentSeq c) > w then AList.delete k m else m) ks (c_sentMessages c),
          c_messageKeys := fold (\<lambda>k m. if seqDelta k (c_highestSentSeq c) > w then AList.delete k m else m) ks (c_messageKeys c)\<rparr>" for ks w c
    by (induction ks arbitrary: c) auto
  then show ?thesis by (simp add: pruneSent_def window_gc_def)
qed

section \<open>A sender's stream, by unbounded counter\<close>

text \<open>
  The reference: message number \<open>n\<close> of a sender, for an unbounded \<open>n\<close>. Its sequence number is
  \<open>n\<close> modulo \<^verbatim>\<open>SEQ_MOD\<close>; its chain index counts from the first message of the epoch.
\<close>

record stream =
  sm_conv :: nat
  sm_sender :: nat
  sm_epoch :: nat
  sm_seed :: buffer
  sm_first :: nat
  sm_idx0 :: nat
  sm_text :: "nat \<Rightarrow> jsstring"

definition sm_seq :: "nat \<Rightarrow> nat" where
  "sm_seq n = n mod 16777216"

definition sm_idx :: "stream \<Rightarrow> nat \<Rightarrow> nat" where
  "sm_idx \<sigma> n = sm_idx0 \<sigma> + (n - sm_first \<sigma>)"

definition sm_dart :: "stream \<Rightarrow> nat \<Rightarrow> DataDart" where
  "sm_dart \<sigma> n = \<lparr>dd_type = TYPE_DATA, dd_convId = sm_conv \<sigma>, dd_senderId = sm_sender \<sigma>,
     dd_seq = sm_seq n, dd_payload = sm_text \<sigma> n\<rparr>"

text \<open>The history either end holds before message \<open>n\<close>, and the dictionary it gives.\<close>

definition sm_hist :: "stream \<Rightarrow> nat \<Rightarrow> (nat, DataDart) jsmap" where
  "sm_hist \<sigma> n = map (\<lambda>j. (sm_seq j, sm_dart \<sigma> j)) [max (sm_first \<sigma>) (n - 217)..<n]"

definition sm_dict :: "stream \<Rightarrow> nat \<Rightarrow> buffer" where
  "sm_dict \<sigma> n = dict_of (map snd (sm_hist \<sigma> n)) (sm_seq n)"

definition sm_key :: "prims \<Rightarrow> stream \<Rightarrow> nat \<Rightarrow> buffer" where
  "sm_key P \<sigma> n = chainMessageKey P ((chainNextKey P ^^ sm_idx \<sigma> n) (sm_seed \<sigma>)) (sm_idx \<sigma> n)"

definition sm_prefix :: "prims \<Rightarrow> stream \<Rightarrow> buffer \<Rightarrow> nat \<Rightarrow> buffer" where
  "sm_prefix P \<sigma> nonce n = data_prefix P (sm_dart \<sigma> n) (sm_dict \<sigma> n) (sm_idx \<sigma> n) (sm_epoch \<sigma>) nonce"

definition sm_frame :: "prims \<Rightarrow> stream \<Rightarrow> buffer \<Rightarrow> nat \<Rightarrow> buffer" where
  "sm_frame P \<sigma> nonce n = sm_prefix P \<sigma> nonce n @
     sealed P (sm_key P \<sigma> n) nonce (sm_prefix P \<sigma> nonce n) (data_plain P (sm_dart \<sigma> n) (sm_dict \<sigma> n))"

text \<open>A packet carrying message \<open>n\<close>: the original, or a retransmission under another nonce.\<close>

definition is_frame :: "prims \<Rightarrow> stream \<Rightarrow> nat \<Rightarrow> buffer \<Rightarrow> bool" where
  "is_frame P \<sigma> n f \<longleftrightarrow> (\<exists>nonce. length nonce = 12 \<and> f = sm_frame P \<sigma> nonce n)"

definition stream_ok :: "prims \<Rightarrow> stream \<Rightarrow> bool" where
  "stream_ok P \<sigma> \<longleftrightarrow> digests_sized P \<and> gcm_correct P \<and> deflate_lossless P \<and> random_sized P \<and>
     sm_conv \<sigma> < 65536 \<and> sm_sender \<sigma> < 65536 \<and> sm_epoch \<sigma> < 65536 \<and> 1 \<le> sm_first \<sigma> \<and>
     (\<forall>n. wf_utf16 (sm_text \<sigma> n))"

lemma sm_seq_less [simp]: "sm_seq n < 16777216"
  by (simp add: sm_seq_def)

lemma sm_seq_Suc: "sm_seq (Suc n) = seqNext (sm_seq n)"
  by (simp add: sm_seq_def seqNext_mod mod_Suc_eq)

lemma sm_seq_delta: "n \<le> m \<Longrightarrow> m < n + 16777216 \<Longrightarrow> seqDelta (sm_seq n) (sm_seq m) = m - n"
  unfolding sm_seq_def by (rule seqDelta_counter)

lemma sm_seq_newer: "\<bar>int m - int n\<bar> < 8388608 \<Longrightarrow> seq_newer (sm_seq n) (sm_seq m) \<longleftrightarrow> n < m"
  unfolding sm_seq_def by (rule seq_newer_counter)

lemma sm_seq_inj:
  assumes "sm_seq n = sm_seq m" "\<bar>int m - int n\<bar> < 16777216"
  shows "n = m"
proof (cases "n \<le> m")
  case True
  with assms sm_seq_delta [of n m] show ?thesis by simp
next
  case False
  with assms sm_seq_delta [of m n] show ?thesis by simp
qed

lemma update_new: "\<not> has m k \<Longrightarrow> AList.update k v m = m @ [(k, v)]"
  by (induction m) auto

lemma sm_hist_has: "has (sm_hist \<sigma> n) k \<longleftrightarrow> (\<exists>j. sm_first \<sigma> \<le> j \<and> n - 217 \<le> j \<and> j < n \<and> k = sm_seq j)"
  by (auto simp: has_iff_key sm_hist_def image_image)

lemma sm_hist_new:
  assumes "n \<le> m" "m < n + 16770000"
  shows "\<not> has (sm_hist \<sigma> n) (sm_seq m)"
  using assms by (auto simp: sm_hist_has dest!: sm_seq_inj)

lemma filter_upt_tail:
  "a \<le> Suc n \<Longrightarrow> filter (\<lambda>j. n - j \<le> w) [a..<Suc n] = [max a (n - w)..<Suc n]"
proof -
  assume a: "a \<le> Suc n"
  have "[a..<Suc n] = [a..<max a (n - w)] @ [max a (n - w)..<Suc n]"
    using a by (metis max.cobounded1 max.bounded_iff le_add_diff_inverse upt_add_eq_append diff_le_self le_SucI)
  moreover have "filter (\<lambda>j. n - j \<le> w) [a..<max a (n - w)] = []" by (auto simp: filter_empty_conv)
  moreover have "filter (\<lambda>j. n - j \<le> w) [max a (n - w)..<Suc n] = [max a (n - w)..<Suc n]"
    by (rule filter_True) auto
  ultimately show ?thesis by simp
qed

lemma filter_upt_between:
  assumes "a \<le> b" "j \<le> n"
  shows "filter (\<lambda>k. b \<le> k \<and> k < j) [a..<n] = [b..<j]"
proof (cases "b \<le> j")
  case True
  have "[a..<n] = [a..<b] @ [b..<j] @ [j..<n]"
    using assms True by (metis le_Suc_ex upt_add_eq_append le_trans)
  moreover have "filter (\<lambda>k. b \<le> k \<and> k < j) [a..<b] = []" "filter (\<lambda>k. b \<le> k \<and> k < j) [j..<n] = []"
    by (auto simp: filter_empty_conv)
  moreover have "filter (\<lambda>k. b \<le> k \<and> k < j) [b..<j] = [b..<j]" by (rule filter_True) auto
  ultimately show ?thesis by simp
qed (auto simp: filter_empty_conv)

lemma sm_hist_push:
  assumes "sm_first \<sigma> \<le> n"
  shows "window_gc (DICT_WINDOW + 16) (sm_seq n) (AList.update (sm_seq n) (sm_dart \<sigma> n) (sm_hist \<sigma> n))
    = sm_hist \<sigma> (Suc n)"
proof -
  let ?a = "max (sm_first \<sigma>) (n - 217)" and ?f = "\<lambda>j. (sm_seq j, sm_dart \<sigma> j)"
  have "AList.update (sm_seq n) (sm_dart \<sigma> n) (sm_hist \<sigma> n) = map ?f [?a..<Suc n]"
    using assms by (simp add: update_new sm_hist_new) (simp add: sm_hist_def)
  then have "window_gc (DICT_WINDOW + 16) (sm_seq n) (AList.update (sm_seq n) (sm_dart \<sigma> n) (sm_hist \<sigma> n))
      = map ?f (filter (\<lambda>j. seqDelta (sm_seq j) (sm_seq n) \<le> 216) [?a..<Suc n])"
    by (simp add: gc.gc_filter DICT_WINDOW_def filter_map comp_def)
  also have "filter (\<lambda>j. seqDelta (sm_seq j) (sm_seq n) \<le> 216) [?a..<Suc n] = filter (\<lambda>j. n - j \<le> 216) [?a..<Suc n]"
    by (rule filter_cong) (auto simp: sm_seq_delta)
  also have "\<dots> = [max ?a (n - 216)..<Suc n]"
    using assms by (intro filter_upt_tail) auto
  also have "max ?a (n - 216) = max (sm_first \<sigma>) (Suc n - 217)" by auto
  finally show ?thesis by (simp add: sm_hist_def)
qed

text \<open>
  The dictionary for message \<open>j\<close> from the history held before message \<open>n\<close>: the payloads of at most
  200 messages before \<open>j\<close>, as far back as the history still goes.
\<close>

lemma dict_of_hist:
  assumes j: "sm_first \<sigma> \<le> j" "j \<le> n" "n \<le> j + 16000000"
  shows "dict_of (map snd (sm_hist \<sigma> n)) (sm_seq j)
    = concat (map (\<lambda>k. utf8_encode (sm_text \<sigma> k)) [max (sm_first \<sigma>) (max (n - 217) (j - 200))..<j])"
proof -
  let ?a = "max (sm_first \<sigma>) (n - 217)" and ?b = "max (sm_first \<sigma>) (max (n - 217) (j - 200))"
  have win: "in_window (sm_seq j) (sm_dart \<sigma> k) \<longleftrightarrow> ?b \<le> k \<and> k < j" if "k \<in> set [?a..<n]" for k
  proof (cases "k \<le> j")
    case True
    with that j have "seqDelta (sm_seq k) (sm_seq j) = j - k" by (intro sm_seq_delta) auto
    with True that show ?thesis by (auto simp: in_window_def sm_dart_def DICT_WINDOW_def)
  next
    case False
    with that j have d: "seqDelta (sm_seq j) (sm_seq k) = k - j" by (intro sm_seq_delta) auto
    then have "sm_seq k \<noteq> sm_seq j" using False by auto
    then have "seqDelta (sm_seq k) (sm_seq j) = 16777216 - (k - j)"
      using seqDelta_swap [of "sm_seq k" "sm_seq j"] d by simp
    with False that j show ?thesis by (auto simp: in_window_def sm_dart_def DICT_WINDOW_def)
  qed
  have "filter (\<lambda>k. in_window (sm_seq j) (sm_dart \<sigma> k)) [?a..<n] = filter (\<lambda>k. ?b \<le> k \<and> k < j) [?a..<n]"
    by (rule filter_cong [OF refl win])
  also have "\<dots> = [?b..<j]"
    using j by (intro filter_upt_between) auto
  finally have f: "filter (in_window (sm_seq j)) (map (sm_dart \<sigma>) [?a..<n]) = map (sm_dart \<sigma>) [?b..<j]"
    by (simp only: filter_map comp_def)
  have "sorted (map (\<lambda>k. - int (seqDelta (sm_seq k) (sm_seq j))) [?b..<j])"
    unfolding sorted_iff_nth_mono using j by (auto simp: sm_seq_delta intro!: diff_le_mono2)
  then have "sort_key (\<lambda>d. - int (seqDelta (dd_seq d) (sm_seq j))) (map (sm_dart \<sigma>) [?b..<j]) = map (sm_dart \<sigma>) [?b..<j]"
    by (intro sort_key_id_if_sorted) (simp add: comp_def sm_dart_def)
  then show ?thesis
    using f by (simp add: dict_of_def sm_hist_def comp_def) (simp add: sm_dart_def)
qed

section \<open>The sending end\<close>

definition sm_message_key :: "prims \<Rightarrow> stream \<Rightarrow> nat \<Rightarrow> MessageKey" where
  "sm_message_key P \<sigma> n = \<lparr>mk_key = sm_key P \<sigma> n, mk_idx = sm_idx \<sigma> n, mk_epoch = sm_epoch \<sigma>\<rparr>"

definition sender_at :: "prims \<Rightarrow> stream \<Rightarrow> nat \<Rightarrow> Client \<Rightarrow> bool" where
  "sender_at P \<sigma> n c \<longleftrightarrow> c_senderId c = sm_sender \<sigma> \<and> c_nextSeq c = sm_seq n \<and> c_sentMessages c = sm_hist \<sigma> n \<and>
     or_default (map_of (c_currentEpochs c) (sm_conv \<sigma>)) 1 = sm_epoch \<sigma> \<and>
     (\<exists>s. getChain (sm_conv \<sigma>) (sm_epoch \<sigma>) (sm_sender \<sigma>) c = Some s \<and> on_chain P (sm_seed \<sigma>) s \<and>
          cs_index s = sm_idx \<sigma> n) \<and>
     (\<forall>j. sm_first \<sigma> \<le> j \<and> n - 217 \<le> j \<and> j < n \<longrightarrow>
          map_of (c_messageKeys c) (sm_seq j) = Some (sm_message_key P \<sigma> j))"

lemma getChain_setChain [simp]:
  "getChain a e i (setChain a' e' i' s c) = (if a = a' \<and> e = e' \<and> i = i' then Some s else getChain a e i c)"
  by (auto simp: getChain_def setChain_def)

lemma setChain_fields [simp]:
  "c_senderId (setChain a e i s c) = c_senderId c" "c_nextSeq (setChain a e i s c) = c_nextSeq c"
  "c_sentMessages (setChain a e i s c) = c_sentMessages c" "c_messageKeys (setChain a e i s c) = c_messageKeys c"
  "c_receivedMessages (setChain a e i s c) = c_receivedMessages c" "c_draws (setChain a e i s c) = c_draws c"
  "c_highestReceivedSeq (setChain a e i s c) = c_highestReceivedSeq c"
  "c_highestSentSeq (setChain a e i s c) = c_highestSentSeq c"
  "c_currentEpochs (setChain a e i s c) = c_currentEpochs c" "c_closed (setChain a e i s c) = c_closed c"
  "c_useFallback (setChain a e i s c) = c_useFallback c" "c_tcpSocket (setChain a e i s c) = c_tcpSocket c"
  "c_peers (setChain a e i s c) = c_peers c" "c_outbox (setChain a e i s c) = c_outbox c"
  by (simp_all add: setChain_def)

lemma getChain_next [simp]: "getChain a e i (c\<lparr>c_nextSeq := n\<rparr>) = getChain a e i c"
  by (simp add: getChain_def)

lemma getDictionary_next [simp]: "getDictionary i m (c\<lparr>c_nextSeq := n\<rparr>) = getDictionary i m c"
  by (simp add: getDictionary_def)

lemma getChain_core: "client_core c = client_core d \<Longrightarrow> getChain a e i c = getChain a e i d"
  by (drule client_coreD(12)) (simp add: getChain_def)

lemma sm_ctx:
  assumes "stream_ok P \<sigma>" "length nonce = 12"
  shows "seal_ctx (P, sm_key P \<sigma> n, nonce)" "digests_sized P" "wf_data (sm_dart \<sigma> n)" "sm_epoch \<sigma> < 65536"
  using assms by (simp_all add: stream_ok_def seal_ctx_def sm_key_def chainMessageKey_def digest_lengths
      wf_data_def sm_dart_def TYPE_DATA_def)

lemma sm_frame_encoded:
  assumes "stream_ok P \<sigma>" "length nonce = 12"
  shows "encodeDataHelper P (sm_dart \<sigma> n) (sm_dict \<sigma> n) (sm_key P \<sigma> n) (sm_idx \<sigma> n) (sm_epoch \<sigma>) nonce
    = Inr (sm_frame P \<sigma> nonce n)"
  by (simp add: encodeData_layout [OF sm_ctx [OF assms]] sm_frame_def sm_prefix_def)


text \<open>The message keys of what is still in the history are kept.\<close>

lemma message_keys_push:
  assumes "sm_first \<sigma> \<le> n"
    and "\<forall>j. sm_first \<sigma> \<le> j \<and> n - 217 \<le> j \<and> j < n \<longrightarrow> map_of m (sm_seq j) = Some (sm_message_key P \<sigma> j)"
    and "sm_first \<sigma> \<le> j" "Suc n - 217 \<le> j" "j < Suc n"
  shows "map_of (fold (\<lambda>k m. if seqDelta k (sm_seq n) > DICT_WINDOW + 16 then AList.delete k m else m) ks
      (AList.update (sm_seq n) (sm_message_key P \<sigma> n) m)) (sm_seq j) = Some (sm_message_key P \<sigma> j)"
proof -
  have near: "seqDelta (sm_seq j) (sm_seq n) \<le> 216" using assms(4,5) by (subst sm_seq_delta) auto
  have "sm_seq j = sm_seq n \<Longrightarrow> j = n" using assms(4,5) sm_seq_inj [of j n] by auto
  moreover have "map_of m (sm_seq j) = Some (sm_message_key P \<sigma> j)" if "j \<noteq> n"
    using assms(2) [rule_format, of j] assms(3-5) that by simp
  ultimately have "map_of (AList.update (sm_seq n) (sm_message_key P \<sigma> n) m) (sm_seq j) = Some (sm_message_key P \<sigma> j)"
    by (cases "j = n") auto
  moreover have "map_of (filter (\<lambda>(k, v). \<not> (k \<in> set ks \<and> 216 < seqDelta k (sm_seq n))) m') (sm_seq j) = map_of m' (sm_seq j)" for m' :: "(nat, MessageKey) jsmap"
    using near by (subst map_of_filter_key) simp
  ultimately show ?thesis
    by (simp only: delete_loop_eq_filter DICT_WINDOW_def) simp
qed

lemma broadcast_udp:
  assumes "\<not> c_closed c" "\<not> (c_useFallback c \<and> c_tcpSocket c \<noteq> None)"
  shows "\<exists>c'. broadcast buf c = Done c' \<and> client_core c' = client_core c \<and> c_draws c' = c_draws c \<and>
    c_outbox c' = c_outbox c @ map (\<lambda>(address, port). UdpSend address port buf) (c_peers c)"
  using assms by (auto simp: broadcast_def Let_def split: bool.splits option.splits)

text \<open>
  \<^verbatim>\<open>sendData\<close> at message \<open>n\<close>: it returns, the frame of message \<open>n\<close> goes to every peer, and the
  sender is ready for message \<open>n + 1\<close>.
\<close>

lemma sendData_sends:
  assumes ok: "stream_ok P \<sigma>" and at: "sender_at P \<sigma> n c" and n: "sm_first \<sigma> \<le> n"
    and live: "\<not> c_closed c" "\<not> (c_useFallback c \<and> c_tcpSocket c \<noteq> None)"
  shows "\<exists>c'. sendData P (sm_conv \<sigma>) (sm_text \<sigma> n) c = Done c' \<and> sender_at P \<sigma> (Suc n) c' \<and>
    c_draws c' = Suc (c_draws c) \<and> c_closed c' = c_closed c \<and> c_useFallback c' = c_useFallback c \<and>
    c_tcpSocket c' = c_tcpSocket c \<and> c_peers c' = c_peers c \<and>
    c_outbox c' = c_outbox c @ map (\<lambda>(address, port). UdpSend address port (sm_frame P \<sigma> (randomBytes P (c_draws c) 12) n)) (c_peers c)"
proof -
  have nonce: "length (randomBytes P (c_draws c) 12) = 12"
    using ok by (simp add: stream_ok_def random_sized_def)
  let ?conv = "sm_conv \<sigma>" and ?me = "sm_sender \<sigma>" and ?e = "sm_epoch \<sigma>"
  from at obtain s where s: "getChain ?conv ?e ?me c = Some s" "on_chain P (sm_seed \<sigma>) s" "cs_index s = sm_idx \<sigma> n"
    and st: "c_senderId c = ?me" "c_nextSeq c = sm_seq n" "c_sentMessages c = sm_hist \<sigma> n"
      "or_default (map_of (c_currentEpochs c) ?conv) 1 = ?e"
    and mk: "\<forall>j. sm_first \<sigma> \<le> j \<and> n - 217 \<le> j \<and> j < n \<longrightarrow> map_of (c_messageKeys c) (sm_seq j) = Some (sm_message_key P \<sigma> j)"
    unfolding sender_at_def by blast
  define s' where "s' = \<lparr>cs_key = (chainNextKey P ^^ (sm_idx \<sigma> n + 1)) (sm_seed \<sigma>), cs_index = sm_idx \<sigma> n + 1\<rparr>"
  have adv: "advanceChain P s (cs_index s) = (sm_key P \<sigma> n, s')"
    using advanceChain_on_chain [OF s(2) order_refl] s(3) by (simp add: sm_key_def s'_def)
  have next_idx: "on_chain P (sm_seed \<sigma>) s'" "cs_index s' = sm_idx \<sigma> (Suc n)"
    using n by (simp_all add: s'_def on_chain_def sm_idx_def)
  let ?c0 = "c\<lparr>c_nextSeq := seqNext (sm_seq n)\<rparr>"
  let ?c1 = "(setChain ?conv ?e ?me s' ?c0)\<lparr>c_highestSentSeq := sm_seq n,
      c_sentMessages := AList.update (sm_seq n) (sm_dart \<sigma> n) (sm_hist \<sigma> n),
      c_messageKeys := AList.update (sm_seq n) (sm_message_key P \<sigma> n) (c_messageKeys c)\<rparr>"
  let ?c2 = "(pruneSent ?c1)\<lparr>c_messageStatus := AList.update (sm_seq n) Sent (c_messageStatus (pruneSent ?c1)),
      c_draws := Suc (c_draws c)\<rparr>"
  have c2: "c_closed ?c2 = c_closed c" "c_useFallback ?c2 = c_useFallback c" "c_tcpSocket ?c2 = c_tcpSocket c"
    "c_peers ?c2 = c_peers c" "c_outbox ?c2 = c_outbox c" "c_senderId ?c2 = ?me" "c_nextSeq ?c2 = sm_seq (Suc n)"
    "c_sentMessages ?c2 = sm_hist \<sigma> (Suc n)" "c_currentEpochs ?c2 = c_currentEpochs c"
    "getChain ?conv ?e ?me ?c2 = Some s'"
    using sm_hist_push [OF n] st by (simp_all add: pruneSent_eq sm_seq_Suc) (simp_all add: setChain_def getChain_def)
  have mk2: "map_of (c_messageKeys ?c2) (sm_seq j) = Some (sm_message_key P \<sigma> j)"
    if "sm_first \<sigma> \<le> j" "Suc n - 217 \<le> j" "j < Suc n" for j
    using message_keys_push [OF n mk that] by (simp add: pruneSent_eq)
  obtain c3 where b: "broadcast (sm_frame P \<sigma> (randomBytes P (c_draws c) 12) n) ?c2 = Done c3" "client_core c3 = client_core ?c2"
    "c_draws c3 = c_draws ?c2"
    "c_outbox c3 = c_outbox ?c2 @ map (\<lambda>(address, port). UdpSend address port (sm_frame P \<sigma> (randomBytes P (c_draws c) 12) n)) (c_peers ?c2)"
    using broadcast_udp [of ?c2 "sm_frame P \<sigma> (randomBytes P (c_draws c) 12) n"] live c2(1-3) by auto
  have "sendData P ?conv (sm_text \<sigma> n) c = Done (startOptimisticTimer (sm_seq n) (scheduleProbe ?conv c3))"
    using st s adv b(1) sm_frame_encoded [OF ok nonce, of n]
    by (simp add: sendData_def Let_def getDictionary_def sm_dict_def with_random_def sm_dart_def pruneSent_eq sm_message_key_def)
  moreover have core: "client_core (startOptimisticTimer (sm_seq n) (scheduleProbe ?conv c3)) = client_core ?c2"
    by (simp only: client_core_schedule b(2))
  then have "sender_at P \<sigma> (Suc n) (startOptimisticTimer (sm_seq n) (scheduleProbe ?conv c3))"
    unfolding sender_at_def getChain_core [OF core] client_coreD [OF core]
    using c2 st next_idx mk2 by (simp del: pruneSent_eq)
  moreover have "c_draws (startOptimisticTimer (sm_seq n) (scheduleProbe ?conv c3)) = c_draws c3"
    "c_outbox (startOptimisticTimer (sm_seq n) (scheduleProbe ?conv c3)) = c_outbox c3"
    by (simp_all add: startOptimisticTimer_def scheduleProbe_def setTimeout_def clearTimeout_def Let_def split: option.splits)
  ultimately show ?thesis
    using b c2 client_coreD [OF core] by auto
qed

section \<open>The receiving end\<close>

text \<open>
  The receiver expects message \<open>i\<close>: everything before it has been processed. The buffer of
  out-of-order packets holds frames of the stream from \<open>i\<close> on, below a bound \<open>N\<close>.
\<close>

definition ready_at :: "prims \<Rightarrow> stream \<Rightarrow> nat \<Rightarrow> Client \<Rightarrow> bool" where
  "ready_at P \<sigma> i c \<longleftrightarrow> c_senderId c \<noteq> sm_sender \<sigma> \<and> sm_first \<sigma> \<le> i \<and>
     sub (c_receivedMessages c) (sm_sender \<sigma>) = sm_hist \<sigma> i \<and>
     (\<exists>s. getChain (sm_conv \<sigma>) (sm_epoch \<sigma>) (sm_sender \<sigma>) c = Some s \<and> on_chain P (sm_seed \<sigma>) s \<and>
          cs_index s \<le> sm_idx \<sigma> i)"

definition recv_at :: "prims \<Rightarrow> stream \<Rightarrow> nat \<Rightarrow> Client \<Rightarrow> bool" where
  "recv_at P \<sigma> i c \<longleftrightarrow> ready_at P \<sigma> i c \<and>
     map_of (c_highestReceivedSeq c) (sm_sender \<sigma>) = Some (sm_seq (i - 1))"

text \<open>
  Message \<open>i\<close> is the next one: one step after the highest received, or, for a receiver without a
  baseline, either the very first sequence number or one outside the window it would ask for.
\<close>

definition due :: "stream \<Rightarrow> nat \<Rightarrow> Client \<Rightarrow> bool" where
  "due \<sigma> i c \<longleftrightarrow> (case map_of (c_highestReceivedSeq c) (sm_sender \<sigma>) of
       Some h \<Rightarrow> seqDelta h (sm_seq i) = 1
     | None \<Rightarrow> sm_seq i \<le> 1 \<or> DICT_WINDOW < sm_seq i)"

definition buf_at :: "prims \<Rightarrow> stream \<Rightarrow> nat \<Rightarrow> nat \<Rightarrow> Client \<Rightarrow> bool" where
  "buf_at P \<sigma> i N c \<longleftrightarrow> (\<forall>k f. map_of (sub (c_outOfOrderBuffer c) (sm_sender \<sigma>)) k = Some f \<longrightarrow>
     (\<exists>j. i \<le> j \<and> j < N \<and> k = sm_seq j \<and> is_frame P \<sigma> j f))"

definition arrived :: "stream \<Rightarrow> nat \<Rightarrow> Client \<Rightarrow> nat \<Rightarrow> bool" where
  "arrived \<sigma> i c j \<longleftrightarrow> j < i \<or> has (sub (c_outOfOrderBuffer c) (sm_sender \<sigma>)) (sm_seq j)"

lemma recv_at_core:
  assumes "client_core c = client_core d"
  shows "recv_at P \<sigma> i c = recv_at P \<sigma> i d" "buf_at P \<sigma> i N c = buf_at P \<sigma> i N d"
    "arrived \<sigma> i c j = arrived \<sigma> i d j" "ready_at P \<sigma> i c = ready_at P \<sigma> i d" "due \<sigma> i c = due \<sigma> i d"
  unfolding recv_at_def ready_at_def due_def buf_at_def arrived_def getChain_core [OF assms] client_coreD [OF assms] by simp_all

lemma sm_frame_reads:
  assumes "stream_ok P \<sigma>" "sm_idx \<sigma> n < 4294967296" "is_frame P \<sigma> n f"
  shows "readUInt8 f 0 = Inr TYPE_DATA" "readUInt16BE f 1 = Inr (sm_conv \<sigma>)"
    "readUIntBE f 3 3 = Inr (sm_seq n)" "readUInt8 f 6 = Inr 24"
    "readUInt16BE f 7 = Inr (sm_sender \<sigma>)" "readUInt16BE f 21 = Inr (sm_epoch \<sigma>)"
    "readUInt32BE f 27 = Inr (sm_idx \<sigma> n)"
proof -
  obtain nonce where n: "length nonce = 12" "f = sm_frame P \<sigma> nonce n" using assms(3) by (auto simp: is_frame_def)
  note ctx = sm_ctx [OF assms(1) n(1)]
  show "readUInt8 f 0 = Inr TYPE_DATA" "readUInt16BE f 1 = Inr (sm_conv \<sigma>)"
    "readUIntBE f 3 3 = Inr (sm_seq n)" "readUInt8 f 6 = Inr 24"
    "readUInt16BE f 7 = Inr (sm_sender \<sigma>)" "readUInt16BE f 21 = Inr (sm_epoch \<sigma>)"
    "readUInt32BE f 27 = Inr (sm_idx \<sigma> n)"
    using data_prefix_reads(1-7) [OF n(1) ctx(2) ctx(3) [of n] ctx(4), where dict = "sm_dict \<sigma> n" and idx = "sm_idx \<sigma> n"]
      assms(2) n(2)
    by (simp_all add: sm_frame_def sm_prefix_def sm_dart_def)
qed

text \<open>The key of message \<open>i\<close> is on the chain, and opens its packets.\<close>

lemma frame_opens:
  assumes ok: "stream_ok P \<sigma>" "sm_idx \<sigma> i < 4294967296" "is_frame P \<sigma> i f"
    and s: "on_chain P (sm_seed \<sigma>) s" "cs_index s \<le> sm_idx \<sigma> i" and i: "sm_first \<sigma> \<le> i"
  shows "\<exists>s'. advanceChain P s (sm_idx \<sigma> i) = (sm_key P \<sigma> i, s') \<and> on_chain P (sm_seed \<sigma>) s' \<and>
    cs_index s' = sm_idx \<sigma> (Suc i) \<and>
    decryptData P f (sm_key P \<sigma> i) = Inr (data_decrypted P (sm_dart \<sigma> i) (sm_dict \<sigma> i) (sm_idx \<sigma> i))"
proof -
  define s' where "s' = \<lparr>cs_key = (chainNextKey P ^^ (sm_idx \<sigma> i + 1)) (sm_seed \<sigma>), cs_index = sm_idx \<sigma> i + 1\<rparr>"
  have "advanceChain P s (sm_idx \<sigma> i) = (sm_key P \<sigma> i, s')"
    using advanceChain_on_chain [OF s] by (simp add: sm_key_def s'_def)
  moreover have "decryptData P f (sm_key P \<sigma> i) = Inr (data_decrypted P (sm_dart \<sigma> i) (sm_dict \<sigma> i) (sm_idx \<sigma> i))"
    using ok(3) decryptData_layout [OF sm_ctx [OF ok(1)]] by (auto simp: is_frame_def sm_frame_def sm_prefix_def)
  moreover have "on_chain P (sm_seed \<sigma>) s'" "cs_index s' = sm_idx \<sigma> (Suc i)"
    using i by (simp_all add: s'_def on_chain_def sm_idx_def)
  ultimately show ?thesis by blast
qed

lemma decrypt_next:
  assumes ok: "stream_ok P \<sigma>" "sm_idx \<sigma> i < 4294967296" "is_frame P \<sigma> i f" and at: "ready_at P \<sigma> i c"
  shows "\<exists>s'. decryptDataInOrder P (f) (sm_sender \<sigma>) c
      = Inr (Some (data_decrypted P (sm_dart \<sigma> i) (sm_dict \<sigma> i) (sm_idx \<sigma> i),
                   setChain (sm_conv \<sigma>) (sm_epoch \<sigma>) (sm_sender \<sigma>) s' c))
    \<and> on_chain P (sm_seed \<sigma>) s' \<and> cs_index s' = sm_idx \<sigma> (Suc i)"
proof -
  from at obtain s where s: "getChain (sm_conv \<sigma>) (sm_epoch \<sigma>) (sm_sender \<sigma>) c = Some s"
    "on_chain P (sm_seed \<sigma>) s" "cs_index s \<le> sm_idx \<sigma> i" and i: "sm_first \<sigma> \<le> i"
    unfolding ready_at_def by blast
  show ?thesis
    using s frame_opens [OF ok s(2,3) i] sm_frame_reads [OF ok] by (auto simp: decryptDataInOrder_def)
qed

text \<open>What a receiver that is ready for message \<open>i\<close> finds in it.\<close>

lemma ready_reads:
  assumes ok: "stream_ok P \<sigma>" and at: "ready_at P \<sigma> i c"
  shows "getDictionary (sm_sender \<sigma>) (sm_seq i) c = sm_dict \<sigma> i"
    "inflateData P (dc_compressed (data_decrypted P (sm_dart \<sigma> i) (sm_dict \<sigma> i) (sm_idx \<sigma> i))) (sm_dict \<sigma> i)
      = Inr (sm_text \<sigma> i)"
    "\<not> has (sub (c_receivedMessages c) (sm_sender \<sigma>)) (sm_seq i)"
  using at ok inflateData_plain [of P "sm_dart \<sigma> i" "sm_dict \<sigma> i"] sm_hist_new [of i i \<sigma>]
  by (auto simp: ready_at_def getDictionary_def sm_dict_def data_decrypted_def stream_ok_def sm_dart_def)

lemma process_next:
  assumes ok: "stream_ok P \<sigma>" and at: "ready_at P \<sigma> i c" "due \<sigma> i c"
    and s': "on_chain P (sm_seed \<sigma>) s'" "cs_index s' = sm_idx \<sigma> (Suc i)"
  shows "\<exists>c'. processDataPacket P (data_decrypted P (sm_dart \<sigma> i) (sm_dict \<sigma> i) (sm_idx \<sigma> i)) (sm_sender \<sigma>) (sm_seq i)
      (setChain (sm_conv \<sigma>) (sm_epoch \<sigma>) (sm_sender \<sigma>) s' c) = Done c' \<and> recv_at P \<sigma> (Suc i) c' \<and>
    c_outOfOrderBuffer c' = c_outOfOrderBuffer c"
proof -
  let ?p = "sm_sender \<sigma>" and ?c = "setChain (sm_conv \<sigma>) (sm_epoch \<sigma>) (sm_sender \<sigma>) s' c"
    and ?dec = "data_decrypted P (sm_dart \<sigma> i) (sm_dict \<sigma> i) (sm_idx \<sigma> i)"
  from at have me: "c_senderId c \<noteq> ?p" and i: "sm_first \<sigma> \<le> i"
    and r: "sub (c_receivedMessages c) ?p = sm_hist \<sigma> i"
    by (auto simp: ready_at_def)
  have dict: "getDictionary ?p (sm_seq i) ?c = sm_dict \<sigma> i"
    using ready_reads(1) [OF ok at(1)] by (simp add: getDictionary_def split: if_splits)
  note plain = ready_reads(2) [OF ok at(1)]
  have new: "\<not> has (sm_hist \<sigma> i) (sm_seq i)" using ready_reads(3) [OF ok at(1)] r by simp
  let ?c1 = "?c\<lparr>c_receivedMessages := set2 (ensure (c_receivedMessages c) ?p) ?p (sm_seq i) (sm_dart \<sigma> i),
      c_highestReceivedSeq := AList.update ?p (sm_seq i) (c_highestReceivedSeq c)\<rparr>"
  let ?c2 = "pruneReceived ?p ?c1"
  let ?c3 = "clearTimeout (map_of (c_ackTimers ?c2) ?p) ?c2"
  let ?c4 = "(setTimeout (SendAck (sm_conv \<sigma>) ?p (sm_seq i)) 200 ?c3)
      \<lparr>c_ackTimers := AList.update ?p (c_nextTimer ?c3) (c_ackTimers ?c3)\<rparr>"
  have run: "processDataPacket P ?dec ?p (sm_seq i) ?c = Done ?c4"
    using dict plain new r at(2)
    by (cases "map_of (c_highestReceivedSeq c) ?p")
      (simp_all add: processDataPacket_def Let_def data_decrypted_def SEQ_MOD_val has_def [of "c_highestReceivedSeq c"]
        due_def, simp_all add: sm_dart_def)
  have core: "client_core ?c4 = client_core ?c2" by simp
  have buf: "c_outOfOrderBuffer ?c2 = c_outOfOrderBuffer c" by simp
  have "c_senderId ?c2 = c_senderId c" "c_highestReceivedSeq ?c2 = c_highestReceivedSeq ?c1"
    by (simp_all add: pruneReceived_def set2_def)
  moreover have "sub (c_receivedMessages ?c2) ?p = sm_hist \<sigma> (Suc i)"
    using sm_hist_push [OF i] r by (simp add: pruneReceived_def set2_def)
  moreover have "getChain (sm_conv \<sigma>) (sm_epoch \<sigma>) ?p ?c2 = Some s'"
    by (simp add: pruneReceived_def set2_def getChain_def setChain_def get2_def)
  ultimately have "recv_at P \<sigma> (Suc i) ?c2" using me i s' by (simp add: recv_at_def ready_at_def)
  then have "recv_at P \<sigma> (Suc i) ?c4" by (simp only: recv_at_core(1) [OF core])
  then show ?thesis using run trans [OF client_coreD(7) [OF core] buf] by (intro exI conjI)
qed

lemma recv_at_due:
  assumes "stream_ok P \<sigma>" "recv_at P \<sigma> i c"
  shows "ready_at P \<sigma> i c" "due \<sigma> i c"
proof -
  from assms have "1 \<le> i" by (auto simp: recv_at_def ready_at_def stream_ok_def)
  then show "ready_at P \<sigma> i c" "due \<sigma> i c"
    using assms(2) sm_seq_delta [of "i - 1" i] by (auto simp: recv_at_def due_def)
qed

text \<open>One round of the drain loop on the frame that is due.\<close>

lemma processBuffered_next:
  assumes "stream_ok P \<sigma>" "sm_idx \<sigma> i < 4294967296" "recv_at P \<sigma> i c" "is_frame P \<sigma> i f"
  shows "recv_at P \<sigma> (Suc i) (processBuffered P (f) (sm_sender \<sigma>) (sm_seq i) c)"
proof -
  obtain s' where s': "decryptDataInOrder P (f) (sm_sender \<sigma>) c
      = Inr (Some (data_decrypted P (sm_dart \<sigma> i) (sm_dict \<sigma> i) (sm_idx \<sigma> i),
                   setChain (sm_conv \<sigma>) (sm_epoch \<sigma>) (sm_sender \<sigma>) s' c))"
    "on_chain P (sm_seed \<sigma>) s'" "cs_index s' = sm_idx \<sigma> (Suc i)"
    using decrypt_next [OF assms(1,2,4) recv_at_due(1) [OF assms(1,3)]] by blast
  with process_next [OF assms(1) recv_at_due [OF assms(1,3)] s'(2,3)] show ?thesis
    by (auto simp: processBuffered_def data_decrypted_def sm_dart_def)
qed

lemma recv_at_buffer [simp]: "recv_at P \<sigma> i (c\<lparr>c_outOfOrderBuffer := m\<rparr>) = recv_at P \<sigma> i c"
  by (simp add: recv_at_def ready_at_def getChain_def)

section \<open>One arrival\<close>

text \<open>A duplicate or a late copy of something processed changes nothing but \<^verbatim>\<open>seenSeq\<close>.\<close>

lemma takes_old:
  assumes ok: "stream_ok P \<sigma>" "sm_idx \<sigma> j < 4294967296" "is_frame P \<sigma> j f" and at: "recv_at P \<sigma> i c"
    and j: "j < i" "i < j + 8388608"
  shows "client_core (client_handleMessage P f c) = client_core c"
proof -
  have "\<not> seq_newer (sm_seq (i - 1)) (sm_seq j)"
    using j sm_seq_newer [of j "i - 1"] by auto
  then show ?thesis
    using at sm_frame_reads [OF ok]
    by (auto simp: client_handleMessage_def client_try_def onData_def Let_def recv_at_def has_def seq_newer_def
        TYPE_DATA_def)
qed

lemma takes_early:
  assumes ok: "stream_ok P \<sigma>" "sm_idx \<sigma> j < 4294967296" "is_frame P \<sigma> j f" and at: "recv_at P \<sigma> i c"
    and j: "i < j" "j < i + 8388607"
  shows "client_core (client_handleMessage P f c)
    = client_core (c\<lparr>c_outOfOrderBuffer := set2 (c_outOfOrderBuffer c) (sm_sender \<sigma>) (sm_seq j) f\<rparr>)"
proof -
  have h: "map_of (c_highestReceivedSeq c) (sm_sender \<sigma>) = Some (sm_seq (i - 1))" and "1 \<le> i"
    using at ok(1) by (auto simp: recv_at_def ready_at_def stream_ok_def)
  have "seqDelta (sm_seq (i - 1)) (sm_seq j) = j - (i - 1)"
    using j \<open>1 \<le> i\<close> by (intro sm_seq_delta) auto
  then obtain a where a: "seqDelta (sm_seq (i - 1)) (sm_seq j) = a" "1 < a" "a < 8388608"
    using j \<open>1 \<le> i\<close> by force
  let ?c = "(noteSeen (sm_sender \<sigma>) (sm_seq j) c)\<lparr>c_outOfOrderBuffer :=
      set2 (c_outOfOrderBuffer (noteSeen (sm_sender \<sigma>) (sm_seq j) c)) (sm_sender \<sigma>) (sm_seq j) f\<rparr>"
  have "client_core (client_handleMessage P f c) = client_core ?c"
    using h a sm_frame_reads [OF ok]
    by (simp add: client_handleMessage_def client_try_def onData_def Let_def has_def SEQ_MOD_val TYPE_DATA_def)
  also have "\<dots> = client_core (c\<lparr>c_outOfOrderBuffer := set2 (c_outOfOrderBuffer c) (sm_sender \<sigma>) (sm_seq j) f\<rparr>)"
    by (simp add: client_core_def noteSeen_def Let_def)
  finally show ?thesis .
qed

lemma takes_due:
  assumes ok: "stream_ok P \<sigma>" "sm_idx \<sigma> i < 4294967296" "is_frame P \<sigma> i f" and at: "ready_at P \<sigma> i c" "due \<sigma> i c"
  shows "\<exists>c'. client_handleMessage P f c = buffered_loop P (sm_sender \<sigma>) (sm_seq (Suc i)) c' \<and> recv_at P \<sigma> (Suc i) c' \<and>
    c_outOfOrderBuffer c' = c_outOfOrderBuffer c"
proof -
  let ?c = "noteSeen (sm_sender \<sigma>) (sm_seq i) c"
  have at': "ready_at P \<sigma> i ?c" "due \<sigma> i ?c" and buf: "c_outOfOrderBuffer ?c = c_outOfOrderBuffer c"
    using at recv_at_core(4,5) [of ?c c] client_coreD(7) [of ?c c] by simp_all
  obtain s' where dec: "decryptDataInOrder P f (sm_sender \<sigma>) ?c
      = Inr (Some (data_decrypted P (sm_dart \<sigma> i) (sm_dict \<sigma> i) (sm_idx \<sigma> i),
                   setChain (sm_conv \<sigma>) (sm_epoch \<sigma>) (sm_sender \<sigma>) s' ?c))"
    and s': "on_chain P (sm_seed \<sigma>) s'" "cs_index s' = sm_idx \<sigma> (Suc i)"
    using decrypt_next [OF ok at'(1)] by blast
  from process_next [OF ok(1) at' s'] obtain c' where c':
    "processDataPacket P (data_decrypted P (sm_dart \<sigma> i) (sm_dict \<sigma> i) (sm_idx \<sigma> i)) (sm_sender \<sigma>) (sm_seq i)
      (setChain (sm_conv \<sigma>) (sm_epoch \<sigma>) (sm_sender \<sigma>) s' ?c) = Done c'"
    "recv_at P \<sigma> (Suc i) c'" "c_outOfOrderBuffer c' = c_outOfOrderBuffer ?c"
    by blast
  have "map_of (c_highestReceivedSeq c') (sm_sender \<sigma>) = Some (sm_seq i)"
    using c'(2) by (simp add: recv_at_def)
  then have "client_handleMessage P f c = buffered_loop P (sm_sender \<sigma>) (sm_seq (Suc i)) c'"
    using at(2) dec c'(1) sm_frame_reads [OF ok]
    by (cases "map_of (c_highestReceivedSeq c) (sm_sender \<sigma>)")
      (simp_all add: due_def client_handleMessage_def client_try_def onData_def Let_def has_def SEQ_MOD_val
        TYPE_DATA_def DICT_WINDOW_def processBufferedPackets_def sm_seq_Suc, auto)
  then show ?thesis using c' buf by auto
qed

lemma buf_at_later:
  assumes "buf_at P \<sigma> i N c" "\<not> arrived \<sigma> i c i" "c_outOfOrderBuffer c' = c_outOfOrderBuffer c"
  shows "buf_at P \<sigma> (Suc i) N c'"
  unfolding buf_at_def assms(3)
proof (intro allI impI)
  fix k f assume k: "map_of (sub (c_outOfOrderBuffer c) (sm_sender \<sigma>)) k = Some f"
  with assms(1) obtain j where j: "i \<le> j" "j < N" "k = sm_seq j" "is_frame P \<sigma> j f"
    unfolding buf_at_def by blast
  with k assms(2) have "j \<noteq> i" by (auto simp: arrived_def has_def)
  with j show "\<exists>j. Suc i \<le> j \<and> j < N \<and> k = sm_seq j \<and> is_frame P \<sigma> j f"
    by (intro exI [of _ j]) auto
qed

section \<open>Retransmission\<close>

text \<open>
  As long as the sender's history still covers the 200 messages before message \<open>j\<close>, the answer to a
  NACK is a frame of message \<open>j\<close> again. The history has a slack of 17 messages.
\<close>

lemma retransmit_dict:
  assumes "sm_first \<sigma> \<le> j" "j < n" "n \<le> j + 17 \<or> n \<le> sm_first \<sigma> + 217"
  shows "dict_of (map snd (sm_hist \<sigma> n)) (sm_seq j) = sm_dict \<sigma> j"
proof -
  have n: "n \<le> j + 217" using assms by auto
  then have "max (sm_first \<sigma>) (max (n - 217) (j - 200)) = max (sm_first \<sigma>) (max (j - 217) (j - 200))"
    using assms by auto
  then show ?thesis
    using dict_of_hist [of \<sigma> j n] dict_of_hist [of \<sigma> j j] assms n by (simp add: sm_dict_def)
qed

lemma map_of_hist:
  assumes "sm_first \<sigma> \<le> j" "n - 217 \<le> j" "j < n"
  shows "map_of (sm_hist \<sigma> n) (sm_seq j) = Some (sm_dart \<sigma> j)"
proof -
  have "inj_on sm_seq (set [max (sm_first \<sigma>) (n - 217)..<n])"
  proof (rule inj_onI)
    fix a b assume "a \<in> set [max (sm_first \<sigma>) (n - 217)..<n]" "b \<in> set [max (sm_first \<sigma>) (n - 217)..<n]"
      and e: "sm_seq a = sm_seq b"
    then show "a = b" by (intro sm_seq_inj [OF e]) auto
  qed
  then have "distinct (map fst (sm_hist \<sigma> n))" by (simp add: sm_hist_def comp_def distinct_map)
  moreover have "(sm_seq j, sm_dart \<sigma> j) \<in> set (sm_hist \<sigma> n)" using assms by (auto simp: sm_hist_def)
  ultimately show ?thesis by simp
qed

lemma retransmit_repeats:
  assumes ok: "stream_ok P \<sigma>" and at: "sender_at P \<sigma> n c"
    and j: "sm_first \<sigma> \<le> j" "j < n" "n \<le> j + 17 \<or> n \<le> sm_first \<sigma> + 217"
    and live: "\<not> c_closed c" "\<not> (c_useFallback c \<and> c_tcpSocket c \<noteq> None)"
  shows "\<exists>c'. retransmit_loop P [sm_seq j] c = Done c' \<and> client_core c' = client_core c \<and>
    (\<exists>f. is_frame P \<sigma> j f \<and> c_outbox c' = c_outbox c @ map (\<lambda>(address, port). UdpSend address port f) (c_peers c))"
proof -
  let ?n = "randomBytes P (c_draws c) 12"
  have nonce: "length ?n = 12" using ok by (simp add: stream_ok_def random_sized_def)
  from at have st: "c_senderId c = sm_sender \<sigma>" "c_sentMessages c = sm_hist \<sigma> n"
    and keys: "\<forall>j. sm_first \<sigma> \<le> j \<and> n - 217 \<le> j \<and> j < n \<longrightarrow>
      map_of (c_messageKeys c) (sm_seq j) = Some (sm_message_key P \<sigma> j)"
    unfolding sender_at_def by blast+
  have mk: "map_of (c_messageKeys c) (sm_seq j) = Some (sm_message_key P \<sigma> j)"
    using keys [rule_format, of j] j by auto
  let ?c = "c\<lparr>c_stats := (c_stats c)\<lparr>st_retransmits := st_retransmits (c_stats c) + 1\<rparr>, c_draws := c_draws c + 1\<rparr>"
  obtain d where b: "broadcast (sm_frame P \<sigma> ?n j) ?c = Done d" "client_core d = client_core ?c"
    "c_outbox d = c_outbox ?c @ map (\<lambda>(address, port). UdpSend address port (sm_frame P \<sigma> ?n j)) (c_peers ?c)"
    using broadcast_udp [of ?c "sm_frame P \<sigma> ?n j"] live by auto
  have dart: "map_of (sm_hist \<sigma> n) (sm_seq j) = Some (sm_dart \<sigma> j)" using j by (intro map_of_hist) auto
  let ?d = "startOptimisticTimer (sm_seq j) (clearTimeout (map_of (c_optimisticTimers d) (sm_seq j))
      (d\<lparr>c_messageStatus := AList.update (sm_seq j) Sent (c_messageStatus d)\<rparr>))"
  have "retransmit_loop P [sm_seq j] c = Done ?d"
    using st mk dart b(1) retransmit_dict [OF j] sm_frame_encoded [OF ok nonce, of j]
    by (simp add: with_random_def getDictionary_def sm_message_key_def)
  moreover have "client_core ?d = client_core c" using b(2) by simp
  moreover have "c_outbox ?d = c_outbox d"
    by (simp add: startOptimisticTimer_def setTimeout_def clearTimeout_def split: option.splits)
  moreover have "is_frame P \<sigma> j (sm_frame P \<sigma> ?n j)" using nonce by (auto simp: is_frame_def)
  ultimately show ?thesis using b(3) by auto
qed

end
