(* ===== verification/Dart_Receive.thy ===== *)
theory Dart_Receive
  imports Dart_Stream
begin

text \<open>
  Delivery in any order, for every client. The locale \<open>stream_receiver\<close> is what a receiving client
  promises about single steps: a packet already processed is ignored, an early one is buffered, the
  one that is due is processed and the buffer drained, one packet per round. \<open>settles\<close> composes
  arrivals in any order from these laws; it also accounts for what the user is told. The client of
  \<^verbatim>\<open>client.ts\<close> is the first instance, the interactive clients follow in \<open>Dart_App_Stream\<close>.
\<close>

text \<open>Between arrivals nothing that is due is left in the buffer.\<close>

definition settled :: "prims \<Rightarrow> stream \<Rightarrow> nat \<Rightarrow> nat \<Rightarrow> Client \<Rightarrow> bool" where
  "settled P \<sigma> i N c \<longleftrightarrow> recv_at P \<sigma> i c \<and> buf_at P \<sigma> i N c \<and> \<not> arrived \<sigma> i c i"

lemma settled_core: "client_core c = client_core d \<Longrightarrow> settled P \<sigma> i N c = settled P \<sigma> i N d"
  by (simp only: settled_def recv_at_core [of c d])

text \<open>
  \<open>view\<close> is the protocol state of a receiver, \<open>said\<close> what it has shown so far and \<open>tell n\<close> what
  it shows for message \<open>n\<close>. \<open>steady\<close> is an invariant under which no gap is given up while the
  events are \<open>timely\<close>.
\<close>

locale stream_receiver =
  fixes P :: prims and \<sigma> :: stream
    and view :: "'s \<Rightarrow> Client" and said :: "'s \<Rightarrow> 'm list" and tell :: "nat \<Rightarrow> 'm list"
    and steady :: "'s \<Rightarrow> bool" and frame :: "'e \<Rightarrow> buffer" and timely :: "'e \<Rightarrow> bool"
    and pop :: "nat \<Rightarrow> 's \<Rightarrow> 's" and round :: "buffer \<Rightarrow> nat \<Rightarrow> 's \<Rightarrow> 's"
    and drain :: "nat \<Rightarrow> 's \<Rightarrow> 's" and handle :: "'e \<Rightarrow> 's \<Rightarrow> 's"
  assumes drain_unfold: "drain s x = (case map_of (sub (c_outOfOrderBuffer (view x)) (sm_sender \<sigma>)) s of
        None \<Rightarrow> x | Some raw \<Rightarrow> drain (seqNext s) (round raw s (pop s x)))"
    and pop_view: "view (pop s x) = (view x)\<lparr>c_outOfOrderBuffer := AList.update (sm_sender \<sigma>)
        (AList.delete s (sub (c_outOfOrderBuffer (view x)) (sm_sender \<sigma>))) (c_outOfOrderBuffer (view x))\<rparr>"
    and pop_said: "said (pop s x) = said x"
    and pop_steady: "steady x \<Longrightarrow> steady (pop s x)"
    and round_next: "stream_ok P \<sigma> \<Longrightarrow> sm_idx \<sigma> i < 4294967296 \<Longrightarrow> recv_at P \<sigma> i (view x) \<Longrightarrow> is_frame P \<sigma> i f \<Longrightarrow>
        steady x \<Longrightarrow> recv_at P \<sigma> (Suc i) (view (round f (sm_seq i) x)) \<and> said (round f (sm_seq i) x) = said x @ tell i \<and>
          steady (round f (sm_seq i) x) \<and>
          c_outOfOrderBuffer (view (round f (sm_seq i) x)) = c_outOfOrderBuffer (view x)"
    and handle_old: "stream_ok P \<sigma> \<Longrightarrow> sm_idx \<sigma> j < 4294967296 \<Longrightarrow> is_frame P \<sigma> j (frame e) \<Longrightarrow> recv_at P \<sigma> i (view x) \<Longrightarrow>
        j < i \<Longrightarrow> i < j + 8388608 \<Longrightarrow> steady x \<Longrightarrow> timely e \<Longrightarrow>
        client_core (view (handle e x)) = client_core (view x) \<and> said (handle e x) = said x \<and> steady (handle e x)"
    and handle_early: "stream_ok P \<sigma> \<Longrightarrow> sm_idx \<sigma> j < 4294967296 \<Longrightarrow> is_frame P \<sigma> j (frame e) \<Longrightarrow> recv_at P \<sigma> i (view x) \<Longrightarrow>
        i < j \<Longrightarrow> j < i + 8388607 \<Longrightarrow> steady x \<Longrightarrow> timely e \<Longrightarrow>
        client_core (view (handle e x)) = client_core ((view x)\<lparr>c_outOfOrderBuffer :=
          set2 (c_outOfOrderBuffer (view x)) (sm_sender \<sigma>) (sm_seq j) (frame e)\<rparr>) \<and>
        said (handle e x) = said x \<and> steady (handle e x)"
    and handle_due: "stream_ok P \<sigma> \<Longrightarrow> sm_idx \<sigma> i < 4294967296 \<Longrightarrow> is_frame P \<sigma> i (frame e) \<Longrightarrow> recv_at P \<sigma> i (view x) \<Longrightarrow>
        steady x \<Longrightarrow> timely e \<Longrightarrow>
        \<exists>x'. handle e x = drain (sm_seq (Suc i)) x' \<and> recv_at P \<sigma> (Suc i) (view x') \<and> said x' = said x @ tell i \<and>
          steady x' \<and> c_outOfOrderBuffer (view x') = c_outOfOrderBuffer (view x)"
begin

text \<open>What the user has been told between message \<open>i\<close> and message \<open>j\<close>.\<close>

definition told :: "nat \<Rightarrow> nat \<Rightarrow> 'm list" where
  "told i j = concat (map tell [i..<j])"

lemma told_refl [simp]: "told i i = []"
  by (simp add: told_def)

lemma told_Suc: "Suc i \<le> j \<Longrightarrow> tell i @ told (Suc i) j = told i j"
  by (simp add: told_def upt_conv_Cons)

lemma told_trans: "i \<le> j \<Longrightarrow> j \<le> k \<Longrightarrow> told i j @ told j k = told i k"
  using upt_add_eq_append [of i j "k - j"] by (simp add: told_def flip: concat_append map_append)

text \<open>The drain loop runs to the first message that has not arrived, and loses nothing that had.\<close>

lemma drain_runs:
  assumes ok: "stream_ok P \<sigma>" and idx: "sm_idx \<sigma> N \<le> 4294967296" and N: "N < i + 8388608"
    and "recv_at P \<sigma> i (view x)" "buf_at P \<sigma> i N (view x)" "i \<le> N" "steady x"
  shows "\<exists>i'. i \<le> i' \<and> i' \<le> N \<and> settled P \<sigma> i' N (view (drain (sm_seq i) x)) \<and>
    (\<forall>j. i \<le> j \<longrightarrow> j < N \<longrightarrow> arrived \<sigma> i (view x) j \<longrightarrow> arrived \<sigma> i' (view (drain (sm_seq i) x)) j) \<and>
    said (drain (sm_seq i) x) = said x @ told i i' \<and> steady (drain (sm_seq i) x)"
  using assms(3-7)
proof (induction "length (sub (c_outOfOrderBuffer (view x)) (sm_sender \<sigma>))" arbitrary: i x rule: less_induct)
  case less
  let ?p = "sm_sender \<sigma>" and ?b = "c_outOfOrderBuffer (view x)"
  show ?case
  proof (cases "map_of (sub ?b ?p) (sm_seq i)")
    case None
    then have "drain (sm_seq i) x = x" by (subst drain_unfold) simp
    with None less.prems show ?thesis by (intro exI [of _ i]) (simp add: settled_def arrived_def has_def)
  next
    case (Some raw)
    let ?m = "AList.delete (sm_seq i) (sub ?b ?p)" and ?x = "round raw (sm_seq i) (pop (sm_seq i) x)"
    obtain j where "i \<le> j" "j < N" "sm_seq i = sm_seq j" "is_frame P \<sigma> j raw"
      using less.prems(3) Some unfolding buf_at_def by blast
    then have raw: "is_frame P \<sigma> i raw" and iN: "i < N"
      using less.prems(1) sm_seq_inj [of i j] by auto
    have i: "sm_idx \<sigma> i < 4294967296"
      using idx iN less.prems(2) by (auto simp: sm_idx_def recv_at_def ready_at_def)
    have r: "recv_at P \<sigma> (Suc i) (view ?x)" "said ?x = said x @ tell i" "steady ?x" "sub (c_outOfOrderBuffer (view ?x)) ?p = ?m"
      using round_next [OF ok i _ raw pop_steady [OF less.prems(5)], of "sm_seq i"] less.prems(2)
      by (simp_all add: pop_view pop_said)
    have buf: "buf_at P \<sigma> (Suc i) N (view ?x)"
      unfolding buf_at_def r(4)
    proof (intro allI impI)
      fix k f assume "map_of ?m k = Some f"
      then have k: "k \<noteq> sm_seq i" "map_of (sub ?b ?p) k = Some f" by (auto split: if_splits)
      with less.prems(3) obtain j where "i \<le> j" "j < N" "k = sm_seq j" "is_frame P \<sigma> j f"
        unfolding buf_at_def by blast
      with k(1) show "\<exists>j. Suc i \<le> j \<and> j < N \<and> k = sm_seq j \<and> is_frame P \<sigma> j f"
        by (intro exI [of _ j]) (auto simp: Suc_le_eq order_le_less)
    qed
    have "length (sub (c_outOfOrderBuffer (view ?x)) ?p) < length (sub ?b ?p)"
      unfolding r(4) by (rule length_delete_less) (simp add: has_def Some)
    then obtain i' where i': "Suc i \<le> i'" "i' \<le> N" "settled P \<sigma> i' N (view (drain (sm_seq (Suc i)) ?x))"
      "\<forall>j. Suc i \<le> j \<longrightarrow> j < N \<longrightarrow> arrived \<sigma> (Suc i) (view ?x) j \<longrightarrow> arrived \<sigma> i' (view (drain (sm_seq (Suc i)) ?x)) j"
      "said (drain (sm_seq (Suc i)) ?x) = said ?x @ told (Suc i) i'" "steady (drain (sm_seq (Suc i)) ?x)"
      using less.hyps [of ?x "Suc i"] r buf less.prems(1) iN by auto
    have loop: "drain (sm_seq i) x = drain (sm_seq (Suc i)) ?x"
      using Some by (subst drain_unfold) (simp add: sm_seq_Suc)
    have "arrived \<sigma> (Suc i) (view ?x) j" if "Suc i \<le> j" "j < N" "arrived \<sigma> i (view x) j" for j
      using that sm_seq_inj [of i j] less.prems(1) unfolding arrived_def r(4) by auto
    then have "arrived \<sigma> i' (view (drain (sm_seq (Suc i)) ?x)) j" if "i \<le> j" "j < N" "arrived \<sigma> i (view x) j" for j
      using that i'(1,4) by (cases "j = i") (auto simp: arrived_def Suc_le_eq)
    then show ?thesis
      using i' r(2) told_Suc [OF i'(1)] unfolding loop by (intro exI [of _ i']) simp
  qed
qed

text \<open>One arrival.\<close>

lemma handle_settled:
  assumes ok: "stream_ok P \<sigma>" and idx: "sm_idx \<sigma> N \<le> 4294967296" and lo: "sm_first \<sigma> \<le> lo" "lo \<le> i" "N < lo + 8388608"
    and st: "settled P \<sigma> i N (view x)" "steady x" "timely e" and j: "lo \<le> j" "j < N" "i \<le> N" and f: "is_frame P \<sigma> j (frame e)"
  shows "\<exists>i'. i \<le> i' \<and> i' \<le> N \<and> settled P \<sigma> i' N (view (handle e x)) \<and> arrived \<sigma> i' (view (handle e x)) j \<and>
    (\<forall>k. k < N \<longrightarrow> arrived \<sigma> i (view x) k \<longrightarrow> arrived \<sigma> i' (view (handle e x)) k) \<and>
    said (handle e x) = said x @ told i i' \<and> steady (handle e x)"
proof -
  let ?p = "sm_sender \<sigma>"
  from st have at: "recv_at P \<sigma> i (view x)" and buf: "buf_at P \<sigma> i N (view x)" and gap: "\<not> arrived \<sigma> i (view x) i"
    by (simp_all add: settled_def)
  have ij: "sm_idx \<sigma> j < 4294967296"
    using idx j lo(1) unfolding sm_idx_def by linarith
  consider "j < i" | "j = i" | "i < j" by linarith
  then show ?thesis
  proof cases
    case 1
    have old: "client_core (view (handle e x)) = client_core (view x)" "said (handle e x) = said x" "steady (handle e x)"
      using handle_old [OF ok ij f at 1 _ st(2,3)] j lo by auto
    show ?thesis
      using 1 j(3) st old(2,3) unfolding settled_core [OF old(1)] recv_at_core(3) [OF old(1)]
      by (intro exI [of _ i]) (auto simp: arrived_def)
  next
    case 2
    obtain y where y: "handle e x = drain (sm_seq (Suc i)) y" "recv_at P \<sigma> (Suc i) (view y)"
      "said y = said x @ tell i" "steady y" "c_outOfOrderBuffer (view y) = c_outOfOrderBuffer (view x)"
      using handle_due [OF ok ij [unfolded 2] f [unfolded 2] at st(2,3)] by blast
    have "buf_at P \<sigma> (Suc i) N (view y)" using buf gap y(5) by (rule buf_at_later)
    then obtain i' where i': "Suc i \<le> i'" "i' \<le> N" "settled P \<sigma> i' N (view (handle e x))"
      "\<forall>k. Suc i \<le> k \<longrightarrow> k < N \<longrightarrow> arrived \<sigma> (Suc i) (view y) k \<longrightarrow> arrived \<sigma> i' (view (handle e x)) k"
      "said (handle e x) = said y @ told (Suc i) i'" "steady (handle e x)"
      using drain_runs [OF ok idx _ y(2) _ _ y(4)] lo j 2 unfolding y(1) by force
    have "arrived \<sigma> i' (view (handle e x)) k" if "k < N" "arrived \<sigma> i (view x) k" for k
      using that i'(1,4) y(5) by (cases "k \<le> i") (auto simp: arrived_def)
    moreover have "arrived \<sigma> i' (view (handle e x)) i" using i'(1) by (simp add: arrived_def)
    ultimately show ?thesis
      using i' y(3) told_Suc [OF i'(1)] unfolding 2 by (intro exI [of _ i']) simp
  next
    case 3
    let ?c = "(view x)\<lparr>c_outOfOrderBuffer := set2 (c_outOfOrderBuffer (view x)) ?p (sm_seq j) (frame e)\<rparr>"
    have early: "client_core (view (handle e x)) = client_core ?c" "said (handle e x) = said x" "steady (handle e x)"
      using handle_early [OF ok ij f at 3 _ st(2,3)] j lo by auto
    have "sm_seq i \<noteq> sm_seq j" using 3 j lo sm_seq_inj [of i j] by auto
    then have "\<not> arrived \<sigma> i ?c i" using gap by (simp add: arrived_def sub_set2)
    moreover have "buf_at P \<sigma> i N ?c"
      unfolding buf_at_def
    proof (intro allI impI)
      fix k g assume "map_of (sub (c_outOfOrderBuffer ?c) ?p) k = Some g"
      then have "k = sm_seq j \<and> g = frame e \<or> map_of (sub (c_outOfOrderBuffer (view x)) ?p) k = Some g"
        by (auto simp: sub_set2 split: if_splits)
      then show "\<exists>j. i \<le> j \<and> j < N \<and> k = sm_seq j \<and> is_frame P \<sigma> j g"
        using buf 3 j f unfolding buf_at_def by (metis less_imp_le_nat)
    qed
    ultimately have "settled P \<sigma> i N ?c" using at by (simp add: settled_def)
    moreover have "arrived \<sigma> i ?c j" "arrived \<sigma> i (view x) k \<Longrightarrow> arrived \<sigma> i ?c k" for k
      by (auto simp: arrived_def sub_set2)
    ultimately show ?thesis
      using j(3) early(2,3) unfolding settled_core [OF early(1)] recv_at_core(3) [OF early(1)] by (intro exI [of _ i]) simp
  qed
qed

lemma settles:
  assumes ok: "stream_ok P \<sigma>" and idx: "sm_idx \<sigma> N \<le> 4294967296" and lo: "sm_first \<sigma> \<le> lo" "N < lo + 8388608"
    and es: "list_all2 (\<lambda>j e. is_frame P \<sigma> j (frame e)) js es" "list_all timely es"
    and js: "set js \<subseteq> {lo..<N}" and i: "lo \<le> i" "i \<le> N" "settled P \<sigma> i N (view x)" "steady x"
  shows "\<exists>i'. i \<le> i' \<and> i' \<le> N \<and> settled P \<sigma> i' N (view (fold handle es x)) \<and>
    (\<forall>k < N. k \<in> set js \<or> arrived \<sigma> i (view x) k \<longrightarrow> arrived \<sigma> i' (view (fold handle es x)) k) \<and>
    said (fold handle es x) = said x @ told i i' \<and> steady (fold handle es x)"
  using es js i
proof (induction arbitrary: i x rule: list_all2_induct)
  case Nil
  then show ?case by (intro exI [of _ i]) simp
next
  case (Cons j js e es)
  from Cons.prems have j: "lo \<le> j" "j < N" and e: "timely e" "list_all timely es" by auto
  obtain i1 where i1: "i \<le> i1" "i1 \<le> N" "settled P \<sigma> i1 N (view (handle e x))" "arrived \<sigma> i1 (view (handle e x)) j"
    "\<forall>k. k < N \<longrightarrow> arrived \<sigma> i (view x) k \<longrightarrow> arrived \<sigma> i1 (view (handle e x)) k"
    "said (handle e x) = said x @ told i i1" "steady (handle e x)"
    using handle_settled [OF ok idx lo(1) Cons.prems(3) lo(2) Cons.prems(5,6) e(1) j Cons.prems(4) Cons.hyps(1)] by blast
  from e Cons.prems i1 have "list_all timely es" "set js \<subseteq> {lo..<N}" "lo \<le> i1" "i1 \<le> N" "settled P \<sigma> i1 N (view (handle e x))"
    "steady (handle e x)" by simp_all
  from Cons.IH [OF this] obtain i2 where i2: "i1 \<le> i2" "i2 \<le> N" "settled P \<sigma> i2 N (view (fold handle es (handle e x)))"
    "\<forall>k < N. k \<in> set js \<or> arrived \<sigma> i1 (view (handle e x)) k \<longrightarrow> arrived \<sigma> i2 (view (fold handle es (handle e x))) k"
    "said (fold handle es (handle e x)) = said (handle e x) @ told i1 i2" "steady (fold handle es (handle e x))"
    by blast
  then show ?case
    using i1 told_trans [of i i1 i2] by (intro exI [of _ i2]) auto
qed

text \<open>Every message delivered, and told in the order of sending.\<close>

lemma delivers:
  assumes ok: "stream_ok P \<sigma>" "sm_idx \<sigma> N \<le> 4294967296" "N < lo + 8388608"
    and at: "recv_at P \<sigma> lo (view x)" "sub (c_outOfOrderBuffer (view x)) (sm_sender \<sigma>) = []" "steady x"
    and js: "set js = {lo..<N}" "lo \<le> N" and es: "list_all2 (\<lambda>j e. is_frame P \<sigma> j (frame e)) js es" "list_all timely es"
  shows "recv_at P \<sigma> N (view (fold handle es x)) \<and> said (fold handle es x) = said x @ told lo N"
proof -
  have first: "sm_first \<sigma> \<le> lo" using at(1) by (simp add: recv_at_def ready_at_def)
  have "settled P \<sigma> lo N (view x)" using at by (simp add: settled_def buf_at_def arrived_def)
  then obtain i where i: "lo \<le> i" "i \<le> N" "settled P \<sigma> i N (view (fold handle es x))"
    "\<forall>k < N. k \<in> set js \<or> arrived \<sigma> lo (view x) k \<longrightarrow> arrived \<sigma> i (view (fold handle es x)) k"
    "said (fold handle es x) = said x @ told lo i"
    using settles [OF ok(1,2) first ok(3) es, of lo x] js at(3) by auto
  have "i = N"
  proof (rule ccontr)
    assume "i \<noteq> N"
    then have "arrived \<sigma> i (view (fold handle es x)) i" using i js(1) by auto
    then show False using i(3) by (simp add: settled_def)
  qed
  then show ?thesis using i by (simp add: settled_def)
qed

end

section \<open>The client of client.ts\<close>

interpretation lib: stream_receiver P \<sigma> "\<lambda>c. c" "\<lambda>c. [] :: unit list" "\<lambda>n. []" "\<lambda>c. True" "\<lambda>f. f" "\<lambda>f. True"
    "\<lambda>s c. c\<lparr>c_outOfOrderBuffer := AList.update (sm_sender \<sigma>)
        (AList.delete s (sub (c_outOfOrderBuffer c) (sm_sender \<sigma>))) (c_outOfOrderBuffer c)\<rparr>"
    "\<lambda>raw s. processBuffered P raw (sm_sender \<sigma>) s" "buffered_loop P (sm_sender \<sigma>)" "client_handleMessage P"
  for P \<sigma>
proof (unfold_locales, goal_cases)
  case (1 s x)
  show ?case by (simp add: buffered_loop.simps [of P "sm_sender \<sigma>" s x])
next
  case (5 i x f)
  then show ?case using processBuffered_next [of P \<sigma> i x f] by simp
next
  case (6 j e i x)
  then show ?case using takes_old [of P \<sigma> j e i x] by simp
next
  case (7 j e i x)
  then show ?case using takes_early [of P \<sigma> j e i x] by simp
next
  case (8 i e x)
  then show ?case using takes_due [of P \<sigma> i e x] recv_at_due [of P \<sigma> i x] by simp
qed simp_all

lemma reordered_delivers:
  assumes "stream_ok P \<sigma>" "sm_idx \<sigma> N \<le> 4294967296" "N < lo + 8388608"
    and "recv_at P \<sigma> lo c" "sub (c_outOfOrderBuffer c) (sm_sender \<sigma>) = []" "set js = {lo..<N}" "lo \<le> N"
    and "list_all2 (is_frame P \<sigma>) js fs"
  shows "recv_at P \<sigma> N (fold (client_handleMessage P) fs c)"
  using lib.delivers [OF assms(1-5) TrueI assms(6,7)] assms(8) by (simp add: list.pred_True)

end
