(* ===== verification/Dart_Server.thy ===== *)
theory Dart_Server
  imports Dart_Codec Dart_Framing Dart_Window
begin

text \<open>
  The relay server of \<^verbatim>\<open>server.ts\<close>: the class \<^verbatim>\<open>DartGroupServer\<close> as a record, one definition per
  method and one per branch of \<^verbatim>\<open>handleMessage\<close>. Sending is recorded in \<open>outbox\<close>, in order; the
  sockets themselves are handles. An exception inside \<^verbatim>\<open>handleMessage\<close> is caught there and keeps
  the state reached; one inside \<^verbatim>\<open>removePeer\<close> is not caught anywhere.
\<close>

section \<open>State\<close>

datatype transport = Udp | Tcp | Ws

record Peer =
  p_id :: string
  p_type :: transport
  p_address :: "string option"
  p_port :: "nat option"
  p_tcpSocket :: "nat option"
  p_ws :: "nat option"
  p_lastPacketTime :: "nat option"
  p_packetCount :: nat

record Stats =
  packetsReceived :: nat
  packetsSent :: nat
  nacksReceived :: nat
  nacksSent :: nat
  repairsSent :: nat

record Server =
  groups :: "(nat, Peer list) jsmap"
  clientMap :: "(nat, (nat, Peer) jsmap) jsmap"
  members :: "(nat, (nat, buffer) jsmap) jsmap"
  creator :: "(nat, nat) jsmap"
  peerIdentity :: "(string, nat) jsmap"
  serverECDH :: buffer
  messageCache :: "(nat, (nat, (nat, buffer) jsmap) jsmap) jsmap"
  highestSeq :: "(nat, (nat, nat) jsmap) jsmap"
  stats :: Stats
  closed :: bool
  draws :: nat                 \<comment> \<open>random draws made so far\<close>
  wsOpen :: "nat \<Rightarrow> bool"        \<comment> \<open>which web sockets are in state OPEN\<close>
  outbox :: "wire_out list"      \<comment> \<open>what was sent, oldest first\<close>

text \<open>A server with its identity key loaded and nothing received yet.\<close>

definition init_server :: "buffer \<Rightarrow> (nat \<Rightarrow> bool) \<Rightarrow> Server" where
  "init_server ecdh ws =
     \<lparr>groups = [], clientMap = [], members = [], creator = [], peerIdentity = [], serverECDH = ecdh,
      messageCache = [], highestSeq = [],
      stats = \<lparr>packetsReceived = 0, packetsSent = 0, nacksReceived = 0, nacksSent = 0, repairsSent = 0\<rparr>,
      closed = False, draws = 0, wsOpen = ws, outbox = []\<rparr>"

section \<open>Groups and sending\<close>

definition joinGroup :: "Server \<Rightarrow> nat \<Rightarrow> Peer \<Rightarrow> Server" where
  "joinGroup s convId peer =
     (let s = (if \<not> has (groups s) convId then s\<lparr>groups := AList.update convId [] (groups s)\<rparr> else s);
          group = sub (groups s) convId
      in if find (\<lambda>p. p_id p = p_id peer) group = None
         then s\<lparr>groups := AList.update convId (group @ [peer]) (groups s)\<rparr>
         else s)"

text \<open>JavaScript's \<^verbatim>\<open>peer.address && peer.port\<close>: an empty string and port 0 count as missing.\<close>

definition truthy_address :: "string option \<Rightarrow> bool" where
  "truthy_address a \<longleftrightarrow> a \<noteq> None \<and> a \<noteq> Some ''''"

definition truthy_port :: "nat option \<Rightarrow> bool" where
  "truthy_port p \<longleftrightarrow> p \<noteq> None \<and> p \<noteq> Some 0"

definition transmit :: "buffer \<Rightarrow> Peer \<Rightarrow> (nat \<Rightarrow> bool) \<Rightarrow> wire_out list" where
  "transmit buf peer ws =
     (if p_type peer = Udp \<and> truthy_address (p_address peer) \<and> truthy_port (p_port peer)
      then [UdpSend (the (p_address peer)) (the (p_port peer)) buf]
      else case (p_type peer, p_tcpSocket peer, p_ws peer) of
        (Tcp, Some sock, _) \<Rightarrow> (case tcp_frame buf of Inl e \<Rightarrow> [] | Inr out \<Rightarrow> [TcpWrite sock out])
      | (Ws, _, Some w) \<Rightarrow> (if ws w then [WsSend w buf] else [])
      | _ \<Rightarrow> [])"

definition sendToPeer :: "buffer \<Rightarrow> Peer \<Rightarrow> Server \<Rightarrow> Server" where
  "sendToPeer buf peer s =
     (if closed s then s
      else s\<lparr>stats := (stats s)\<lparr>packetsSent := packetsSent (stats s) + 1\<rparr>,
             outbox := outbox s @ transmit buf peer (wsOpen s)\<rparr>)"

text \<open>\<^verbatim>\<open>for (const p of group) if (p.id !== peer.id) this.sendToPeer(buf, p)\<close>\<close>

definition fanout :: "nat \<Rightarrow> Peer \<Rightarrow> buffer \<Rightarrow> Server \<Rightarrow> Server" where
  "fanout convId peer buf s =
     fold (\<lambda>p s. if p_id p \<noteq> p_id peer then sendToPeer buf p s else s) (sub (groups s) convId) s"

text \<open>Sending to the peer the server currently routes a member's traffic to, if there is one.\<close>

definition route :: "nat \<Rightarrow> nat \<Rightarrow> buffer \<Rightarrow> Server \<Rightarrow> Server" where
  "route convId targetId buf s =
     (case get2 (clientMap s) convId targetId of
        None \<Rightarrow> s
      | Some targetPeer \<Rightarrow> sendToPeer buf targetPeer s)"

section \<open>Membership\<close>

fun notify_loop :: "prims \<Rightarrow> nat \<Rightarrow> (nat \<times> buffer) list \<Rightarrow> (nat \<times> buffer) list \<Rightarrow> Server \<Rightarrow> Server outcome" where
  "notify_loop P convId roster [] s = Done s"
| "notify_loop P convId roster ((mSenderId, mPubKey) # ms) s =
     eval_in s (pairwiseKey P (serverECDH s) mPubKey) (\<lambda>transportKey.
       let info = \<lparr>mi_type = TYPE_MEMBER_INFO, mi_convId = convId, mi_senderId = mSenderId,
                   mi_serverPubKey = ecdhPublic P (serverECDH s),
                   mi_creator = (map_of (creator s) convId = Some mSenderId), mi_members = roster\<rparr>
       in case get2 (clientMap s) convId mSenderId of
            None \<Rightarrow> notify_loop P convId roster ms s
          | Some targetPeer \<Rightarrow>
              eval_in (s\<lparr>draws := draws s + 1\<rparr>)
                (encodeMemberInfo P info transportKey (randomBytes P (draws s) 12)) (\<lambda>buf.
                notify_loop P convId roster ms (sendToPeer buf targetPeer (s\<lparr>draws := draws s + 1\<rparr>))))"

definition notifyMembers :: "prims \<Rightarrow> nat \<Rightarrow> Server \<Rightarrow> Server outcome" where
  "notifyMembers P convId s =
     (case map_of (members s) convId of
        None \<Rightarrow> Done s
      | Some mems \<Rightarrow> notify_loop P convId mems mems s)"

text \<open>
  The successor: the smallest remaining id. \<^verbatim>\<open>let successor = Infinity\<close> is \<open>None\<close> here.
\<close>

definition elect :: "nat list \<Rightarrow> nat option" where
  "elect ids = fold (\<lambda>mId succ. case succ of None \<Rightarrow> Some mId
                     | Some m \<Rightarrow> if mId < m then Some mId else Some m) ids None"

definition elect_successor :: "nat \<Rightarrow> nat \<Rightarrow> (nat, buffer) jsmap \<Rightarrow> Server \<Rightarrow> Server" where
  "elect_successor convId senderId mems s =
     (if map_of (creator s) convId = Some senderId then
        (if mems = [] then s\<lparr>creator := AList.delete convId (creator s)\<rparr>
         else case elect (map fst mems) of
                None \<Rightarrow> s
              | Some successor \<Rightarrow> s\<lparr>creator := AList.update convId successor (creator s)\<rparr>)
      else s)"

definition drop_member :: "prims \<Rightarrow> nat option \<Rightarrow> nat \<Rightarrow> Server \<Rightarrow> Server outcome" where
  "drop_member P sender convId s =
     (case (map_of (members s) convId, sender) of
        (Some mems, Some senderId) \<Rightarrow>
          (let mems = AList.delete senderId mems;
               s = s\<lparr>members := AList.update convId mems (members s)\<rparr>;
               s = elect_successor convId senderId mems s;
               s = (if mems = [] then s\<lparr>members := AList.delete convId (members s)\<rparr> else s)
           in notifyMembers P convId s)
      | _ \<Rightarrow> Done s)"

fun drop_member_loop :: "prims \<Rightarrow> nat option \<Rightarrow> nat list \<Rightarrow> Server \<Rightarrow> Server outcome" where
  "drop_member_loop P sender [] s = Done s"
| "drop_member_loop P sender (convId # cs) s =
     and_then (drop_member P sender convId s) (drop_member_loop P sender cs)"

definition leave_groups :: "string \<Rightarrow> Server \<Rightarrow> Server" where
  "leave_groups peerId s = s\<lparr>groups := map (\<lambda>(c, g). (c, filter (\<lambda>p. p_id p \<noteq> peerId) g)) (groups s)\<rparr>"

definition left_convs :: "string \<Rightarrow> Server \<Rightarrow> nat list" where
  "left_convs peerId s =
     map fst (filter (\<lambda>(c, g). length (filter (\<lambda>p. p_id p \<noteq> peerId) g) \<noteq> length g) (groups s))"

definition removePeer :: "prims \<Rightarrow> string \<Rightarrow> Server \<Rightarrow> Server outcome" where
  "removePeer P peerId s =
     (let leftConvs = left_convs peerId s;
          s = leave_groups peerId s;
          senderId = map_of (peerIdentity s) peerId
      in drop_member_loop P senderId leftConvs s)"

section \<open>The branches of handleMessage\<close>

definition CACHE_WINDOW :: nat where "CACHE_WINDOW = 200"

definition handleData :: "buffer \<Rightarrow> Peer \<Rightarrow> nat \<Rightarrow> Server \<Rightarrow> Server outcome" where
  "handleData buf peer convId s =
     (case map_of (peerIdentity s) (p_id peer) of
        None \<Rightarrow> Done s
      | Some senderId \<Rightarrow>
          eval_in s (readUIntBE buf 3 3) (\<lambda>seq.
          let cacheMap = AList.update seq buf (sub (sub (messageCache s) convId) senderId);
              highest = ensure (highestSeq s) convId;
              hasBaseline = has (sub highest convId) senderId;
              currentHighest = or_default (get2 highest convId senderId) 0;
              ahead = (if hasBaseline then seqDelta currentHighest seq else 1);
              ref = (if ahead \<ge> SEQ_MOD div 2 then currentHighest else seq);
              cacheMap = window_gc CACHE_WINDOW ref cacheMap;
              highest = (if ahead > 0 \<and> ahead < SEQ_MOD div 2 then set2 highest convId senderId seq
                         else highest)
          in Done (fanout convId peer buf
               (s\<lparr>messageCache := set2 (messageCache s) convId senderId cacheMap, highestSeq := highest\<rparr>))))"

definition handleKeyReq :: "prims \<Rightarrow> buffer \<Rightarrow> Server \<Rightarrow> Server outcome" where
  "handleKeyReq P buf s =
     eval_in s (decodeKeyReq buf) (\<lambda>req.
     let convId = kr_convId req;
         senderId = kr_senderId req;
         s = (if \<not> has (members s) convId
              then s\<lparr>members := AList.update convId [] (members s),
                     creator := AList.update convId senderId (creator s)\<rparr>
              else s);
         s = (case map_of (creator s) convId of
                None \<Rightarrow> s\<lparr>creator := AList.update convId senderId (creator s)\<rparr>
              | Some creatorId \<Rightarrow>
                  if \<not> has (sub (clientMap s) convId) creatorId
                  then s\<lparr>creator := AList.update convId senderId (creator s)\<rparr> else s);
         s = s\<lparr>members := set2 (members s) convId senderId (kr_clientPubKey req)\<rparr>
     in notifyMembers P convId s)"

text \<open>Key shares, chain shares and ACKs go to their target only.\<close>

definition handleShare :: "buffer \<Rightarrow> nat \<Rightarrow> Server \<Rightarrow> Server outcome" where
  "handleShare buf convId s =
     eval_in s (readUInt16BE buf 5) (\<lambda>targetId. Done (route convId targetId buf s))"

definition handleAck :: "buffer \<Rightarrow> nat \<Rightarrow> Server \<Rightarrow> Server outcome" where
  "handleAck buf convId s =
     eval_in s (readUInt16BE buf 5) (\<lambda>targetId. Done (route convId targetId buf s))"

text \<open>The repair loop: send what the cache has, collect what it has not.\<close>

fun repair_loop :: "nat \<Rightarrow> nat \<Rightarrow> Peer \<Rightarrow> nat list \<Rightarrow> Server \<Rightarrow> nat list \<Rightarrow> Server \<times> nat list" where
  "repair_loop convId targetId peer [] s missingFromServer = (s, missingFromServer)"
| "repair_loop convId targetId peer (seq # seqs) s missingFromServer =
     (case map_of (sub (sub (messageCache s) convId) targetId) seq of
        Some cached \<Rightarrow>
          repair_loop convId targetId peer seqs
            (sendToPeer cached peer (s\<lparr>stats := (stats s)\<lparr>repairsSent := repairsSent (stats s) + 1\<rparr>\<rparr>))
            missingFromServer
      | None \<Rightarrow> repair_loop convId targetId peer seqs s (missingFromServer @ [seq]))"

definition handleNack :: "buffer \<Rightarrow> Peer \<Rightarrow> Server \<Rightarrow> Server outcome" where
  "handleNack buf peer s =
     (let s = s\<lparr>stats := (stats s)\<lparr>nacksReceived := nacksReceived (stats s) + 1\<rparr>\<rparr> in
      case stripControlFrame buf of
        None \<Rightarrow> Done s
      | Some nackStripped \<Rightarrow>
          (case parseNack nackStripped of
             Inl e \<Rightarrow> Done s
           | Inr nack \<Rightarrow>
               (let (s, missingFromServer) =
                      repair_loop (nk_convId nack) (nk_targetId nack) peer (nk_missingSeq nack) s [];
                    target = get2 (clientMap s) (nk_convId nack) (nk_targetId nack)
                in if target \<noteq> None \<and> p_id (the target) \<noteq> p_id peer
                   then Done (sendToPeer buf (the target) s)
                   else if missingFromServer \<noteq> []
                   then Done (fanout (nk_convId nack) peer buf s)
                   else Done s)))"

text \<open>
  \<^verbatim>\<open>memberPub ? verifyControlFrame(buf, pairwiseKey(this.serverECDH, memberPub)) : null\<close>
\<close>

definition server_verifies :: "prims \<Rightarrow> Server \<Rightarrow> nat \<Rightarrow> nat \<Rightarrow> buffer \<Rightarrow> exn + buffer option" where
  "server_verifies P s convId senderId buf =
     (case get2 (members s) convId senderId of
        None \<Rightarrow> Inr None
      | Some memberPub \<Rightarrow>
          sbind (pairwiseKey P (serverECDH s) memberPub) (\<lambda>k. Inr (verifyControlFrame P buf k)))"

definition handleSync :: "prims \<Rightarrow> buffer \<Rightarrow> Peer \<Rightarrow> nat \<Rightarrow> Server \<Rightarrow> Server outcome" where
  "handleSync P buf peer convId s =
     eval_in s (readUInt16BE buf 3) (\<lambda>syncSenderId.
     eval_in s (server_verifies P s convId syncSenderId buf) (\<lambda>syncVerified.
     if syncVerified = None then Done s else Done (fanout convId peer buf s)))"

definition handleDictReset :: "prims \<Rightarrow> buffer \<Rightarrow> Peer \<Rightarrow> nat \<Rightarrow> Server \<Rightarrow> Server outcome" where
  "handleDictReset P buf peer convId s =
     eval_in s (readUInt16BE buf 3) (\<lambda>resetSenderId.
     eval_in s (server_verifies P s convId resetSenderId buf) (\<lambda>resetVerified.
     if resetVerified = None then Done s else Done (fanout convId peer buf s)))"

section \<open>handleMessage\<close>

text \<open>
  The rate limiter, on the \<^verbatim>\<open>Peer\<close> object it is called with: the updated object, and whether the
  packet is to be dropped.
\<close>

definition rate_limit :: "nat \<Rightarrow> Peer \<Rightarrow> Peer \<times> bool" where
  "rate_limit now peer =
     (let peer = (if p_lastPacketTime peer = None \<or> p_lastPacketTime peer = Some 0
                  then peer\<lparr>p_lastPacketTime := Some now, p_packetCount := 0\<rparr> else peer);
          peer = (if int now - int (the (p_lastPacketTime peer)) > 1000
                  then peer\<lparr>p_lastPacketTime := Some now, p_packetCount := 0\<rparr> else peer);
          peer = peer\<lparr>p_packetCount := p_packetCount peer + 1\<rparr>
      in (peer, p_packetCount peer > 500))"

definition learnIdentity :: "nat \<Rightarrow> nat \<Rightarrow> buffer \<Rightarrow> Peer \<Rightarrow> Server \<Rightarrow> Server outcome" where
  "learnIdentity type convId buf peer s =
     (if type \<noteq> TYPE_DATA \<and> length buf \<ge> 5
      then eval_in s (readUInt16BE buf 3) (\<lambda>senderId.
             Done (s\<lparr>peerIdentity := AList.update (p_id peer) senderId (peerIdentity s),
                     clientMap := set2 (clientMap s) convId senderId peer\<rparr>))
      else Done s)"

definition dispatch :: "prims \<Rightarrow> nat \<Rightarrow> nat \<Rightarrow> buffer \<Rightarrow> Peer \<Rightarrow> Server \<Rightarrow> Server outcome" where
  "dispatch P type convId buf peer s =
     (if type = TYPE_DATA then handleData buf peer convId s
      else if type = TYPE_KEY_REQ then handleKeyReq P buf s
      else if type = TYPE_KEY_SHARE \<or> type = TYPE_CHAIN_SHARE then handleShare buf convId s
      else if type = TYPE_NACK then handleNack buf peer s
      else if type = TYPE_SYNC then handleSync P buf peer convId s
      else if type = 0x06 then handleDictReset P buf peer convId s
      else if type = 0x07 then handleAck buf convId s
      else Done s)"

text \<open>The body of the \<^verbatim>\<open>try\<close> block, and the method with its \<^verbatim>\<open>catch\<close>.\<close>

definition handle_try :: "prims \<Rightarrow> buffer \<Rightarrow> Peer \<Rightarrow> Server \<Rightarrow> Server outcome" where
  "handle_try P buf peer s =
     eval_in s (readUInt8 buf 0) (\<lambda>type.
     eval_in s (readUInt16BE buf 1) (\<lambda>convId.
     and_then (learnIdentity type convId buf peer (joinGroup s convId peer)) (\<lambda>s.
     dispatch P type convId buf peer s)))"

definition handleMessage :: "prims \<Rightarrow> nat \<Rightarrow> buffer \<Rightarrow> Peer \<Rightarrow> Server \<Rightarrow> Server" where
  "handleMessage P now buf peer s =
     (let (peer, drop) = rate_limit now peer
      in if drop then s else state_of (handle_try P buf peer s))"

section \<open>Transports\<close>

fun show_nat :: "nat \<Rightarrow> string" where
  "show_nat n = (if n < 10 then [char_of (48 + n)] else show_nat (n div 10) @ [char_of (48 + n mod 10)])"

declare show_nat.simps [simp del]

definition fresh_peer :: "string \<Rightarrow> transport \<Rightarrow> Peer" where
  "fresh_peer i t = \<lparr>p_id = i, p_type = t, p_address = None, p_port = None, p_tcpSocket = None,
     p_ws = None, p_lastPacketTime = None, p_packetCount = 0\<rparr>"

definition count_received :: "Server \<Rightarrow> Server" where
  "count_received s = s\<lparr>stats := (stats s)\<lparr>packetsReceived := packetsReceived (stats s) + 1\<rparr>\<rparr>"

definition endpoint :: "string \<Rightarrow> string \<Rightarrow> nat \<Rightarrow> string" where
  "endpoint kind address port = kind @ '':'' @ address @ '':'' @ show_nat port"

definition onUdpMessage :: "prims \<Rightarrow> nat \<Rightarrow> buffer \<Rightarrow> string \<Rightarrow> nat \<Rightarrow> Server \<Rightarrow> Server" where
  "onUdpMessage P now msg address port s =
     handleMessage P now msg
       ((fresh_peer (endpoint ''udp'' address port) Udp)\<lparr>p_address := Some address, p_port := Some port\<rparr>)
       (count_received s)"

text \<open>The \<^verbatim>\<open>data\<close> handler of one TCP connection, with the bytes it has kept so far.\<close>

definition onTcpData ::
    "prims \<Rightarrow> nat \<Rightarrow> nat \<Rightarrow> string \<Rightarrow> nat \<Rightarrow> buffer \<Rightarrow> buffer \<Rightarrow> Server \<Rightarrow> Server \<times> buffer" where
  "onTcpData P now socket address port buffer data s =
     tcp_loop (\<lambda>s payload.
         handleMessage P now payload
           ((fresh_peer (endpoint ''tcp'' address port) Tcp)\<lparr>p_tcpSocket := Some socket\<rparr>)
           (count_received s))
       s (buffer @ data)"

definition onWsMessage :: "prims \<Rightarrow> nat \<Rightarrow> nat \<Rightarrow> string \<Rightarrow> nat \<Rightarrow> buffer \<Rightarrow> Server \<Rightarrow> Server" where
  "onWsMessage P now ws address port data s =
     handleMessage P now data
       ((fresh_peer (endpoint ''ws'' address port) Ws)\<lparr>p_ws := Some ws\<rparr>)
       (count_received s)"

definition close_server :: "Server \<Rightarrow> Server" where
  "close_server s = s\<lparr>closed := True\<rparr>"

end
