(* ===== verification/Dart_Server_Inv.thy ===== *)
theory Dart_Server_Inv
  imports Dart_Server "HOL-Library.Transitive_Closure_Table"
begin

text \<open>
  The server as a state machine: one rule per event the transports deliver, the invariant of the
  reachable states, and the lemmas the server properties rest on. Sending changes only statistics
  and the outbox, so the proofs speak of the rest of the state (\<open>core_state\<close>).
\<close>

section \<open>Machines with an invariant\<close>

locale machine =
  fixes init :: "'s \<Rightarrow> bool"
    and step :: "'s \<Rightarrow> 's \<Rightarrow> bool"
    and inv :: "'s \<Rightarrow> bool"
  assumes inv_init: "init s \<Longrightarrow> inv s"
    and inv_step: "inv s \<Longrightarrow> step s t \<Longrightarrow> inv t"
begin

lemma inv_reach: "init s \<Longrightarrow> step\<^sup>*\<^sup>* s t \<Longrightarrow> inv t"
  by (rotate_tac, induction rule: rtranclp_induct) (auto intro: inv_init inv_step)

end

section \<open>What sending leaves alone\<close>

definition core_state where
  "core_state s = (groups s, clientMap s, members s, creator s, peerIdentity s, serverECDH s,
                   messageCache s, highestSeq s)"

lemma core_stateD:
  assumes "core_state s = core_state t"
  shows "groups s = groups t" "clientMap s = clientMap t" "members s = members t"
    "creator s = creator t" "peerIdentity s = peerIdentity t" "serverECDH s = serverECDH t"
    "messageCache s = messageCache t" "highestSeq s = highestSeq t"
  using assms by (simp_all add: core_state_def)

lemma core_sendToPeer [simp]: "core_state (sendToPeer buf p s) = core_state s"
  by (simp add: sendToPeer_def core_state_def)

lemma core_stats [simp]: "core_state (s\<lparr>stats := x\<rparr>) = core_state s"
  by (simp add: core_state_def)

lemma core_draws [simp]: "core_state (s\<lparr>draws := x\<rparr>) = core_state s"
  by (simp add: core_state_def)

lemma core_fold_send:
  "core_state (fold (\<lambda>p s. if c p then sendToPeer buf p s else s) ps s) = core_state s"
  by (induction ps arbitrary: s) auto

lemma core_fanout [simp]: "core_state (fanout convId peer buf s) = core_state s"
  by (simp add: fanout_def core_fold_send)

lemma core_route [simp]: "core_state (route convId targetId buf s) = core_state s"
  by (simp add: route_def split: option.splits)

lemma core_notify_loop [simp]: "core_state (state_of (notify_loop P convId roster ms s)) = core_state s"
proof (induction P convId roster ms s rule: notify_loop.induct)
  case (2 P convId roster mSenderId mPubKey ms s)
  show ?case
  proof (cases "pairwiseKey P (serverECDH s) mPubKey")
    case (Inr k)
    note IH = "2.IH" [OF refl]
    show ?thesis
      using Inr "2.IH" by (auto simp: Let_def eval_in_def split: option.splits sum.splits)
  qed simp
qed simp

lemma core_notifyMembers [simp]: "core_state (state_of (notifyMembers P convId s)) = core_state s"
  by (simp add: notifyMembers_def split: option.splits)

lemma core_repair_loop [simp]:
  "core_state (fst (repair_loop convId targetId peer seqs s ms)) = core_state s"
  by (induction convId targetId peer seqs s ms rule: repair_loop.induct) (auto split: option.splits)

lemma core_handleNack [simp]: "core_state (state_of (handleNack buf peer s)) = core_state s"
proof -
  let ?s = "s\<lparr>stats := (stats s)\<lparr>nacksReceived := nacksReceived (stats s) + 1\<rparr>\<rparr>"
  have "core_state (fst (repair_loop c t peer seqs ?s [])) = core_state s" for c t seqs
    by simp
  then show ?thesis
    by (auto simp: handleNack_def Let_def case_prod_unfold split: option.splits sum.splits)
qed

lemma core_relays [simp]:
  "core_state (state_of (handleShare buf convId s)) = core_state s"
  "core_state (state_of (handleAck buf convId s)) = core_state s"
  "core_state (state_of (handleSync P buf peer convId s)) = core_state s"
  "core_state (state_of (handleDictReset P buf peer convId s)) = core_state s"
  by (auto simp: handleShare_def handleAck_def handleSync_def handleDictReset_def eval_in_def split: sum.splits)

section \<open>The invariant\<close>

definition groups_ok :: "(nat, Peer list) jsmap \<Rightarrow> bool" where
  "groups_ok g \<longleftrightarrow> is_map g \<and> (\<forall>(c, ps) \<in> set g. distinct (map p_id ps))"

text \<open>A room exists exactly while it has a creator, and the creator is one of its members.\<close>

fun room_ok :: "(nat, buffer) jsmap option \<Rightarrow> nat option \<Rightarrow> bool" where
  "room_ok None y = (y = None)"
| "room_ok (Some mems) y = (case y of None \<Rightarrow> False | Some c \<Rightarrow> has mems c)"

definition rooms_ok :: "(nat, (nat, buffer) jsmap) jsmap \<Rightarrow> (nat, nat) jsmap \<Rightarrow> bool" where
  "rooms_ok mem cre \<longleftrightarrow> (\<forall>convId. room_ok (map_of mem convId) (map_of cre convId))"

text \<open>Every member on a roster has a peer its traffic is routed to.\<close>

definition routed :: "(nat, (nat, buffer) jsmap) jsmap \<Rightarrow> (nat, (nat, Peer) jsmap) jsmap \<Rightarrow> bool" where
  "routed mem cm \<longleftrightarrow> (\<forall>convId m. has (sub mem convId) m \<longrightarrow> has (sub cm convId) m)"

text \<open>What the cache keeps under a sequence number is a data packet with that number, and not too many.\<close>

definition is_data :: "nat \<Rightarrow> nat \<Rightarrow> buffer \<Rightarrow> bool" where
  "is_data convId seq buf \<longleftrightarrow>
     readUInt8 buf 0 = Inr TYPE_DATA \<and> readUInt16BE buf 1 = Inr convId \<and> readUIntBE buf 3 3 = Inr seq"

definition cache_ok :: "(nat, (nat, (nat, buffer) jsmap) jsmap) jsmap \<Rightarrow> bool" where
  "cache_ok mc \<longleftrightarrow> (\<forall>convId sender. let m = sub (sub mc convId) sender in
     seq_keys m \<and> length m \<le> 201 \<and> (\<forall>(seq, buf) \<in> set m. is_data convId seq buf))"

definition server_inv :: "Server \<Rightarrow> bool" where
  "server_inv s \<longleftrightarrow> groups_ok (groups s) \<and> rooms_ok (members s) (creator s)
     \<and> routed (members s) (clientMap s) \<and> cache_ok (messageCache s)"

lemma server_inv_core:
  assumes "core_state s = core_state t"
  shows "server_inv s \<longleftrightarrow> server_inv t"
  by (simp only: server_inv_def core_stateD [OF assms])

lemma server_inv_init: "server_inv (init_server ecdh ws)"
  by (simp add: server_inv_def init_server_def groups_ok_def rooms_ok_def routed_def cache_ok_def)

section \<open>Every operation keeps the invariant\<close>

lemma groups_ok_sub: "groups_ok g \<Longrightarrow> distinct (map p_id (sub g c))"
  by (auto simp: groups_ok_def sub_def split: option.splits dest: map_of_SomeD)

lemma groups_ok_update: "groups_ok g \<Longrightarrow> distinct (map p_id ps) \<Longrightarrow> groups_ok (AList.update c ps g)"
  by (auto simp: groups_ok_def dest!: in_set_update)

lemma joinGroup_fields [simp]:
  "clientMap (joinGroup s c p) = clientMap s" "members (joinGroup s c p) = members s"
  "creator (joinGroup s c p) = creator s" "peerIdentity (joinGroup s c p) = peerIdentity s"
  "serverECDH (joinGroup s c p) = serverECDH s" "messageCache (joinGroup s c p) = messageCache s"
  "highestSeq (joinGroup s c p) = highestSeq s" "closed (joinGroup s c p) = closed s"
  "outbox (joinGroup s c p) = outbox s" "stats (joinGroup s c p) = stats s"
  "wsOpen (joinGroup s c p) = wsOpen s"
  by (simp_all add: joinGroup_def Let_def)

lemma joinGroup_groups_ok: "groups_ok (groups s) \<Longrightarrow> groups_ok (groups (joinGroup s c p))"
  using groups_ok_sub [of "groups s" c]
  by (fastforce simp: joinGroup_def Let_def find_None_iff intro!: groups_ok_update)

lemma joinGroup_inv: "server_inv s \<Longrightarrow> server_inv (joinGroup s c p)"
  by (simp add: server_inv_def joinGroup_groups_ok)

lemma learnIdentity_inv:
  "server_inv s \<Longrightarrow> server_inv (state_of (learnIdentity type convId buf peer s))"
  by (auto simp: learnIdentity_def server_inv_def routed_def sub_set2 eval_in_def split: sum.splits)

lemma cache_ok_set:
  assumes "cache_ok mc" "is_data convId seq buf" "seq < 16777216"
  shows "cache_ok (set2 mc convId sender
    (window_gc CACHE_WINDOW ref (AList.update seq buf (sub (sub mc convId) sender))))"
proof -
  let ?m = "AList.update seq buf (sub (sub mc convId) sender)"
  have old: "seq_keys (sub (sub mc c) t)" "length (sub (sub mc c) t) \<le> 201"
    "\<forall>(k, b) \<in> set (sub (sub mc c) t). is_data c k b" for c t
    using assms(1) by (auto simp: cache_ok_def Let_def)
  have m: "seq_keys ?m" using old(1) assms(3) by (rule seq_keys_update)
  have "length (window_gc CACHE_WINDOW ref ?m) \<le> 201"
    using gc.gc_bounded [OF m, of CACHE_WINDOW ref] by (simp add: CACHE_WINDOW_def)
  moreover have "is_data convId k b" if "(k, b) \<in> set (window_gc CACHE_WINDOW ref ?m)" for k b
    using gc.gc_keys [OF that] old(3) [of convId sender] assms(2) by (auto dest!: in_set_update)
  ultimately show ?thesis
    using old gc.gc_seq_keys [OF m] by (auto simp: cache_ok_def Let_def sub_set2)
qed

lemma handleData_inv:
  assumes "server_inv s" "readUInt8 buf 0 = Inr TYPE_DATA" "readUInt16BE buf 1 = Inr convId"
  shows "server_inv (state_of (handleData buf peer convId s))"
proof (cases "map_of (peerIdentity s) (p_id peer)")
  case None
  with assms(1) show ?thesis by (simp add: handleData_def)
next
  case (Some senderId)
  show ?thesis
  proof (cases "readUIntBE buf 3 3")
    case (Inl e)
    with Some assms(1) show ?thesis by (simp add: handleData_def)
  next
    case (Inr seq)
    have "is_data convId seq buf" "seq < 16777216"
      using Inr assms(2,3) readUIntBE_bound [OF Inr] by (simp_all add: is_data_def)
    then have ok: "cache_ok (set2 (messageCache s) convId senderId
        (window_gc CACHE_WINDOW ref (AList.update seq buf (sub (sub (messageCache s) convId) senderId))))" for ref
      using assms(1) by (intro cache_ok_set) (auto simp: server_inv_def)
    then have "server_inv (s\<lparr>messageCache := set2 (messageCache s) convId senderId
        (window_gc CACHE_WINDOW ref (AList.update seq buf (sub (sub (messageCache s) convId) senderId))),
        highestSeq := h\<rparr>)" for ref h
      using assms(1) by (simp add: server_inv_def)
    then show ?thesis
      using Some Inr by (simp add: handleData_def Let_def server_inv_core [OF core_fanout])
  qed
qed

lemma rooms_ok_join:
  assumes "rooms_ok mem cre" "map_of cre' convId = Some c" "c = i \<or> has (sub mem convId) c"
    and "\<And>d. d \<noteq> convId \<Longrightarrow> map_of cre' d = map_of cre d"
  shows "rooms_ok (set2 mem convId i pub) cre'"
  using assms by (auto simp: rooms_ok_def set2_def)

lemma handleKeyReq_inv:
  assumes inv: "server_inv s"
    and cm: "\<And>req. decodeKeyReq buf = Inr req \<Longrightarrow> has (sub (clientMap s) (kr_convId req)) (kr_senderId req)"
  shows "server_inv (state_of (handleKeyReq P buf s))"
proof (cases "decodeKeyReq buf")
  case (Inl e)
  with inv show ?thesis by (simp add: handleKeyReq_def)
next
  case (Inr req)
  let ?c = "kr_convId req" and ?i = "kr_senderId req" and ?pub = "kr_clientPubKey req"
  from inv have rooms: "rooms_ok (members s) (creator s)" and routed: "routed (members s) (clientMap s)"
    by (simp_all add: server_inv_def)
  show ?thesis
  proof (cases "has (members s) ?c")
    case False
    then have none: "map_of (members s) ?c = None" by (simp add: has_def)
    have "rooms_ok (set2 (AList.update ?c [] (members s)) ?c ?i ?pub) (AList.update ?c ?i (creator s))"
      using rooms by (auto simp: rooms_ok_def set2_def)
    moreover have "routed (set2 (AList.update ?c [] (members s)) ?c ?i ?pub) (clientMap s)"
      using routed cm [OF Inr] by (auto simp: routed_def sub_set2)
    ultimately show ?thesis
      using inv Inr False cm [OF Inr]
      by (simp add: handleKeyReq_def Let_def server_inv_core [OF core_notifyMembers]) (simp add: server_inv_def)
  next
    case True
    then obtain c where c: "map_of (creator s) ?c = Some c" "has (sub (members s) ?c) c"
      using rooms [unfolded rooms_ok_def, rule_format, of ?c]
      by (auto simp: has_def sub_def split: option.splits)
    then have live: "has (sub (clientMap s) ?c) c" using routed by (simp add: routed_def)
    have "rooms_ok (set2 (members s) ?c ?i ?pub) (creator s)"
      using rooms c by (intro rooms_ok_join) auto
    moreover have "routed (set2 (members s) ?c ?i ?pub) (clientMap s)"
      using routed cm [OF Inr] by (auto simp: routed_def sub_set2)
    ultimately show ?thesis
      using inv Inr True c live
      by (simp add: handleKeyReq_def Let_def server_inv_core [OF core_notifyMembers]) (simp add: server_inv_def)
  qed
qed

lemma elect_Min: "elect ids = (if ids = [] then None else Some (Min (set ids)))"
proof (cases ids)
  case (Cons i js)
  have "fold (\<lambda>mId succ. case succ of None \<Rightarrow> Some mId | Some m \<Rightarrow> if mId < m then Some mId else Some m) js (Some m)
      = Some (fold min js m)" for m
    by (induction js arbitrary: m) (auto simp: min_def)
  then show ?thesis using Min.set_eq_fold [of i js] by (simp add: elect_def Cons)
qed (simp add: elect_def)

lemma drop_member_inv:
  assumes "server_inv s"
  shows "server_inv (state_of (drop_member P sender convId s))"
proof (cases "map_of (members s) convId")
  case None
  with assms show ?thesis by (simp add: drop_member_def)
next
  case (Some mems)
  show ?thesis
  proof (cases sender)
    case None
    with assms Some show ?thesis by (simp add: drop_member_def)
  next
    case sender: (Some senderId)
    let ?ms = "AList.delete senderId mems"
    from assms have rooms: "rooms_ok (members s) (creator s)" and routed: "routed (members s) (clientMap s)"
      by (simp_all add: server_inv_def)
    obtain c where c: "map_of (creator s) convId = Some c" "has mems c"
      using rooms [unfolded rooms_ok_def, rule_format, of convId] Some by (auto split: option.splits)
    have mem: "has mems m \<Longrightarrow> has (sub (clientMap s) convId) m" for m
      using routed Some by (auto simp: routed_def sub_def)
    let ?t = "elect_successor convId senderId ?ms (s\<lparr>members := AList.update convId ?ms (members s)\<rparr>)"
    have "rooms_ok (if ?ms = [] then AList.delete convId (members ?t) else members ?t) (creator ?t)"
    proof (cases "?ms = []")
      case True
      then have "c = senderId" using c(2) has_delete [of senderId mems c] by (auto simp: has_def)
      then show ?thesis
        using rooms True c(1) by (auto simp: elect_successor_def rooms_ok_def)
    next
      case False
      have "Min (set (map fst ?ms)) \<in> set (map fst ?ms)" using False by (intro Min_in) auto
      then have "has ?ms (Min (set (map fst ?ms)))" by (simp add: has_iff_key)
      then show ?thesis
        using rooms False c by (auto simp: elect_successor_def elect_Min rooms_ok_def)
    qed
    moreover have "routed (if ?ms = [] then AList.delete convId (members ?t) else members ?t) (clientMap ?t)"
      using routed mem by (auto simp: routed_def elect_successor_def split: option.splits)
    moreover have "groups ?t = groups s" "messageCache ?t = messageCache s"
      by (auto simp: elect_successor_def split: option.splits)
    ultimately show ?thesis
      using assms Some sender
      by (simp add: drop_member_def Let_def server_inv_core [OF core_notifyMembers]) (auto simp: server_inv_def)
  qed
qed

lemma drop_member_loop_inv: "server_inv s \<Longrightarrow> server_inv (state_of (drop_member_loop P sender cs s))"
proof (induction cs arbitrary: s)
  case (Cons c cs)
  have "server_inv (state_of (drop_member P sender c s))" using Cons.prems by (rule drop_member_inv)
  then show ?case using Cons.IH by (cases "drop_member P sender c s") auto
qed simp

lemma leave_groups_inv: "server_inv s \<Longrightarrow> server_inv (leave_groups peerId s)"
  by (auto simp: server_inv_def leave_groups_def groups_ok_def is_map_def comp_def case_prod_unfold distinct_map
      intro: inj_on_subset)

lemma removePeer_inv: "server_inv s \<Longrightarrow> server_inv (state_of (removePeer P peerId s))"
  by (simp add: removePeer_def Let_def drop_member_loop_inv leave_groups_inv)


lemma learned:
  assumes "learnIdentity type convId buf peer s = Done t" "type \<noteq> TYPE_DATA" "length buf \<ge> 5"
    and "readUInt16BE buf 3 = Inr senderId"
  shows "has (sub (clientMap t) convId) senderId" "map_of (peerIdentity t) (p_id peer) = Some senderId"
  using assms by (auto simp: learnIdentity_def sub_set2)

lemma decodeKeyReq_header:
  assumes "decodeKeyReq buf = Inr req"
  shows "readUInt16BE buf 1 = Inr (kr_convId req)" "readUInt16BE buf 3 = Inr (kr_senderId req)" "length buf \<ge> 5"
  using assms by (auto simp: decodeKeyReq_def readUIntBE_def Let_def split: if_splits)

lemma dispatch_inv:
  assumes "server_inv s" "readUInt8 buf 0 = Inr type" "readUInt16BE buf 1 = Inr convId"
    and "learnIdentity type convId buf peer s0 = Done s"
  shows "server_inv (state_of (dispatch P type convId buf peer s))"
proof (cases "type = TYPE_KEY_REQ")
  case True
  have "server_inv (state_of (handleKeyReq P buf s))"
  proof (rule handleKeyReq_inv [OF assms(1)])
    fix req assume "decodeKeyReq buf = Inr req"
    from decodeKeyReq_header [OF this] learned [OF assms(4)] assms(3)
    show "has (sub (clientMap s) (kr_convId req)) (kr_senderId req)"
      by (simp add: True TYPE_defs)
  qed
  then show ?thesis by (simp add: dispatch_def True TYPE_defs)
next
  case False
  have "server_inv (state_of (handleData buf peer convId s))" if "type = TYPE_DATA"
    using assms that by (intro handleData_inv) simp_all
  with False assms(1) show ?thesis
    by (simp add: dispatch_def server_inv_core [OF core_relays(1)] server_inv_core [OF core_relays(2)]
        server_inv_core [OF core_relays(3)] server_inv_core [OF core_relays(4)]
        server_inv_core [OF core_handleNack])
qed

lemma handle_try_inv: "server_inv s \<Longrightarrow> server_inv (state_of (handle_try P buf peer s))"
proof -
  assume inv: "server_inv s"
  have "server_inv (state_of (and_then (learnIdentity type convId buf peer (joinGroup s convId peer))
      (dispatch P type convId buf peer)))"
    if "readUInt8 buf 0 = Inr type" "readUInt16BE buf 1 = Inr convId" for type convId
    by (rule state_of_and_then [where Q = server_inv])
      (use learnIdentity_inv [OF joinGroup_inv [OF inv]] dispatch_inv that in blast)+
  then show ?thesis
    using inv by (auto simp: handle_try_def eval_in_def split: sum.splits)
qed

lemma handleMessage_inv: "server_inv s \<Longrightarrow> server_inv (handleMessage P now buf peer s)"
  by (simp add: handleMessage_def handle_try_inv split: prod.splits)

lemma server_inv_frame [simp]:
  "server_inv (count_received s) = server_inv s" "server_inv (s\<lparr>wsOpen := f\<rparr>) = server_inv s"
  "server_inv (close_server s) = server_inv s"
  by (simp_all add: count_received_def close_server_def server_inv_def)

lemma tcp_loop_inv:
  assumes "\<And>s p. I s \<Longrightarrow> I (f s p)" "I s"
  shows "I (fst (tcp_loop f s b))"
  using assms(2)
proof (induction "length b" arbitrary: b s rule: less_induct)
  case less
  show ?case
  proof (cases "incomplete b")
    case False
    then obtain p rest where "b = be 2 (length p) @ p @ rest" "length p < 65536" by (rule complete_split)
    with less show ?thesis by (simp add: tcp_loop_step assms(1))
  qed (use less in \<open>simp add: tcp_loop_stop\<close>)
qed

section \<open>The server as a machine\<close>

text \<open>
  One rule per event: a datagram, bytes on a TCP connection (with whatever the connection has
  buffered), a web-socket message, a closed connection, and the shutdown. A web socket may change
  its state between events. The process ends when \<^verbatim>\<open>removePeer\<close> throws, so only its normal return
  is a step.
\<close>

inductive server_step :: "prims \<Rightarrow> Server \<Rightarrow> Server \<Rightarrow> bool" for P where
  udp: "server_step P s (onUdpMessage P now msg address port s)"
| tcp: "server_step P s (fst (onTcpData P now socket address port kept data s))"
| ws: "server_step P s (onWsMessage P now w address port data s)"
| leave: "removePeer P peerId s = Done t \<Longrightarrow> server_step P s t"
| wsState: "server_step P s (s\<lparr>wsOpen := f\<rparr>)"
| close: "server_step P s (close_server s)"

inductive_cases server_stepE: "server_step P s t"

definition server_started :: "Server \<Rightarrow> bool" where
  "server_started s \<longleftrightarrow> (\<exists>ecdh ws. s = init_server ecdh ws)"

lemma server_step_inv:
  assumes "server_inv s" "server_step P s t"
  shows "server_inv t"
  using assms(2)
proof (cases rule: server_step.cases)
  case (tcp now socket address port kept data)
  then show ?thesis
    using tcp_loop_inv [of server_inv, OF _ assms(1)] handleMessage_inv by (simp add: onTcpData_def)
next
  case (leave peerId)
  then show ?thesis using removePeer_inv [OF assms(1), of P peerId] by simp
qed (use assms(1) in \<open>simp_all add: onUdpMessage_def onWsMessage_def handleMessage_inv\<close>)

interpretation srv: machine server_started "server_step P" server_inv for P
  by unfold_locales (auto simp: server_started_def server_inv_init intro: server_step_inv)


end
