(* ===== verification/Dart_Exchange.thy ===== *)
theory Dart_Exchange
  imports Dart_Receive Dart_Server_Inv
begin

text \<open>
  What the components do together: two clients conversing, the hand-over of ratchet chains and of
  the group key from client to client, and the roster the server announces to its members.
\<close>

section \<open>A conversation between two clients\<close>

text \<open>The datagrams a client sent since an earlier state, and a run of sends, each delivered at once.\<close>

definition datagram :: "wire_out \<Rightarrow> buffer option" where
  "datagram w = (case w of UdpSend address port b \<Rightarrow> Some b | _ \<Rightarrow> None)"

definition sent_since :: "Client \<Rightarrow> Client \<Rightarrow> buffer list" where
  "sent_since a a' = List.map_filter datagram (drop (length (c_outbox a)) (c_outbox a'))"

fun converse :: "prims \<Rightarrow> nat \<Rightarrow> jsstring list \<Rightarrow> Client \<Rightarrow> Client \<Rightarrow> Client \<times> Client" where
  "converse P convId [] a b = (a, b)"
| "converse P convId (t # ts) a b =
     (let a' = state_of (sendData P convId t a)
      in converse P convId ts a' (fold (client_handleMessage P) (sent_since a a') b))"

lemma map_filter_datagram: "List.map_filter datagram (map (\<lambda>(x, y). UdpSend x y b) ps) = replicate (length ps) b"
  by (induction ps) (auto simp: List.map_filter_simps datagram_def)

lemma again:
  assumes ok: "stream_ok P \<sigma>" "sm_idx \<sigma> i < 4294967296" "is_frame P \<sigma> i f"
    and "recv_at P \<sigma> (Suc i) c" "sub (c_outOfOrderBuffer c) (sm_sender \<sigma>) = []"
  shows "recv_at P \<sigma> (Suc i) ((client_handleMessage P f ^^ k) c) \<and>
    sub (c_outOfOrderBuffer ((client_handleMessage P f ^^ k) c)) (sm_sender \<sigma>) = []"
proof (induction k)
  case (Suc k)
  have core: "client_core (client_handleMessage P f ((client_handleMessage P f ^^ k) c))
      = client_core ((client_handleMessage P f ^^ k) c)"
    using Suc by (intro takes_old [OF ok]) auto
  with Suc show ?case by (simp add: recv_at_core(1) [OF core] client_coreD(7) [OF core])
qed (use assms in auto)

lemma takes_due_empty:
  assumes "stream_ok P \<sigma>" "sm_idx \<sigma> i < 4294967296" "is_frame P \<sigma> i f" "ready_at P \<sigma> i c" "due \<sigma> i c"
    and "sub (c_outOfOrderBuffer c) (sm_sender \<sigma>) = []"
  shows "recv_at P \<sigma> (Suc i) (client_handleMessage P f c) \<and>
    sub (c_outOfOrderBuffer (client_handleMessage P f c)) (sm_sender \<sigma>) = []"
proof -
  obtain c' where "client_handleMessage P f c = buffered_loop P (sm_sender \<sigma>) (sm_seq (Suc i)) c'"
    "recv_at P \<sigma> (Suc i) c'" "c_outOfOrderBuffer c' = c_outOfOrderBuffer c"
    using takes_due [OF assms(1-5)] by blast
  with assms(6) show ?thesis by (simp add: buffered_loop.simps)
qed

lemma fold_replicate: "fold g (replicate k x) c = (g x ^^ k) c"
  by (induction k arbitrary: c) (simp_all add: funpow_swap1)

lemma conversation:
  assumes ok: "stream_ok P \<sigma>" and "sm_idx \<sigma> (n + length ts) \<le> 4294967296" "sm_first \<sigma> \<le> n"
    and "sender_at P \<sigma> n a" "\<not> c_closed a" "\<not> (c_useFallback a \<and> c_tcpSocket a \<noteq> None)" "c_peers a \<noteq> []"
    and "ready_at P \<sigma> n b" "due \<sigma> n b" "sub (c_outOfOrderBuffer b) (sm_sender \<sigma>) = []"
    and "\<forall>k < length ts. sm_text \<sigma> (n + k) = ts ! k"
  shows "(case converse P (sm_conv \<sigma>) ts a b of (a', b') \<Rightarrow>
    sender_at P \<sigma> (n + length ts) a' \<and> ready_at P \<sigma> (n + length ts) b' \<and> due \<sigma> (n + length ts) b' \<and>
    sub (c_outOfOrderBuffer b') (sm_sender \<sigma>) = [] \<and>
    (ts \<noteq> [] \<longrightarrow> recv_at P \<sigma> (n + length ts) b'))"
  using assms(2-)
proof (induction ts arbitrary: n a b)
  case (Cons t ts)
  from Cons.prems(10) have t: "sm_text \<sigma> n = t" by force
  let ?f = "sm_frame P \<sigma> (randomBytes P (c_draws a) 12) n"
  obtain a' where a': "sendData P (sm_conv \<sigma>) t a = Done a'" "sender_at P \<sigma> (Suc n) a'"
    "c_closed a' = c_closed a" "c_useFallback a' = c_useFallback a"
    "c_tcpSocket a' = c_tcpSocket a" "c_peers a' = c_peers a"
    "c_outbox a' = c_outbox a @ map (\<lambda>(address, port). UdpSend address port ?f) (c_peers a)"
    using sendData_sends [OF ok Cons.prems(3,2,4,5)] t by auto
  have new: "sent_since a a' = replicate (length (c_peers a)) ?f"
    using a'(7) by (simp add: sent_since_def map_filter_datagram)
  obtain m where m: "length (c_peers a) = Suc m" using Cons.prems(6) by (cases "c_peers a") auto
  have idx: "sm_idx \<sigma> n < 4294967296" using Cons.prems(1,2) by (simp add: sm_idx_def)
  have f: "is_frame P \<sigma> n ?f" using ok by (auto simp: is_frame_def stream_ok_def random_sized_def)
  let ?b = "fold (client_handleMessage P) (sent_since a a') b"
  have b: "?b = (client_handleMessage P ?f ^^ m) (client_handleMessage P ?f b)"
    unfolding new m fold_replicate by (simp add: funpow_swap1)
  have rb: "recv_at P \<sigma> (Suc n) ?b" "sub (c_outOfOrderBuffer ?b) (sm_sender \<sigma>) = []"
    unfolding b using again [OF ok idx f] takes_due_empty [OF ok idx f Cons.prems(7-9)] by blast+
  have nxt: "\<forall>k < length ts. sm_text \<sigma> (Suc n + k) = ts ! k"
    using Cons.prems(10) by (metis Suc_less_eq add_Suc_shift length_Cons nth_Cons_Suc)
  show ?case
    using Cons.IH [OF _ _ a'(2) _ _ _ recv_at_due [OF ok rb(1)] rb(2) nxt] Cons.prems a' rb
    by (cases ts) (simp_all add: Let_def)
qed auto

section \<open>Handing over a ratchet chain\<close>

text \<open>Two clients know each other's public key in a conversation.\<close>

definition acquainted :: "prims \<Rightarrow> nat \<Rightarrow> Client \<Rightarrow> Client \<Rightarrow> bool" where
  "acquainted P convId a b \<longleftrightarrow>
     get2 (c_roster a) convId (c_senderId b) = Some (ecdhPublic P (c_clientECDH b)) \<and>
     get2 (c_roster b) convId (c_senderId a) = Some (ecdhPublic P (c_clientECDH a))"

definition contracts :: "prims \<Rightarrow> bool" where
  "contracts P \<longleftrightarrow> digests_sized P \<and> gcm_correct P \<and> ecdh_agrees P \<and> deflate_lossless P \<and> random_sized P"

definition ids_fit :: "nat \<Rightarrow> Client \<Rightarrow> Client \<Rightarrow> bool" where
  "ids_fit convId a b \<longleftrightarrow> convId < 65536 \<and> c_senderId a < 65536 \<and> c_senderId b < 65536"

lemma acquainted_key:
  assumes "contracts P" "acquainted P convId a b"
  obtains k where "pairwiseKey P (c_clientECDH a) (ecdhPublic P (c_clientECDH b)) = Inr k"
    "pairwiseKey P (c_clientECDH b) (ecdhPublic P (c_clientECDH a)) = Inr k" "length k = 32"
  using assms pairwiseKey_agree [of P "c_clientECDH a" "c_clientECDH b"] pairwiseKey_length [of P]
  by (auto simp: contracts_def)

lemma random_ctx: "contracts P \<Longrightarrow> length k = 32 \<Longrightarrow> seal_ctx (P, k, randomBytes P d 12)"
  by (simp add: contracts_def seal_ctx_def random_sized_def)

definition chain_share :: "prims \<Rightarrow> nat \<Rightarrow> nat \<Rightarrow> nat \<Rightarrow> ChainState \<Rightarrow> Client \<Rightarrow> ChainShareDart" where
  "chain_share P convId epoch targetId chain a = \<lparr>ch_type = TYPE_CHAIN_SHARE, ch_convId = convId,
     ch_senderId = c_senderId a, ch_targetId = targetId, ch_epoch = epoch,
     ch_nonce = randomBytes P (c_draws a) 12, ch_chainKey = cs_key chain, ch_chainIndex = cs_index chain\<rparr>"

lemma share_header_reads:
  assumes "type < 256" "convId < 65536" "senderId < 65536" "targetId < 65536"
  shows "readUInt8 (share_header type convId senderId targetId epoch nonce @ ys) 0 = Inr type"
    "readUInt16BE (share_header type convId senderId targetId epoch nonce @ ys) 1 = Inr convId"
    "readUInt16BE (share_header type convId senderId targetId epoch nonce @ ys) 3 = Inr senderId"
    "readUInt16BE (share_header type convId senderId targetId epoch nonce @ ys) 5 = Inr targetId"
  using assms by (simp_all add: share_header_def layout)

lemma chain_share_handover:
  assumes P: "contracts P" and known: "acquainted P convId a b" and ids: "ids_fit convId a b"
    and sz: "epoch < 65536" "length (cs_key chain) = 32"
    and live: "\<not> c_closed a" "\<not> (c_useFallback a \<and> c_tcpSocket a \<noteq> None)"
  shows "\<exists>a' f. sendChainShare P convId epoch (c_senderId b) chain a = Done a' \<and>
    sent_since a a' = replicate (length (c_peers a)) f \<and>
    client_handleMessage P f b = setChain convId epoch (c_senderId a)
      \<lparr>cs_key = cs_key chain, cs_index = js_ushr0 (cs_index chain)\<rparr> b"
proof -
  obtain k where k: "pairwiseKey P (c_clientECDH a) (ecdhPublic P (c_clientECDH b)) = Inr k"
    "pairwiseKey P (c_clientECDH b) (ecdhPublic P (c_clientECDH a)) = Inr k" "length k = 32"
    using acquainted_key [OF P known] by blast
  let ?s = "chain_share P convId epoch (c_senderId b) chain a"
  have ctx: "seal_ctx (P, k, ch_nonce ?s)" using random_ctx [OF P k(3)] by (simp add: chain_share_def)
  have wf: "wf_chainshare ?s"
    using ids sz by (simp add: wf_chainshare_def chain_share_def ids_fit_def TYPE_CHAIN_SHARE_def)
  define f where "f = chainshare_header ?s @ sealed P k (ch_nonce ?s) (chainshare_header ?s)
        (ch_chainKey ?s @ be 4 (js_ushr0 (ch_chainIndex ?s)))"
  have enc: "encodeChainShare P ?s k = Inr f"
    using encodeChainShare_layout [OF ctx wf] by (simp add: f_def)
  have dec: "decodeChainShare P f k = Inr (?s\<lparr>ch_chainIndex := js_ushr0 (ch_chainIndex ?s)\<rparr>)"
    using decodeChainShare_layout [OF ctx wf] by (simp add: f_def)
  let ?a = "a\<lparr>c_draws := c_draws a + 1\<rparr>"
  obtain a' where a': "broadcast f ?a = Done a'"
    "c_outbox a' = c_outbox ?a @ map (\<lambda>(address, port). UdpSend address port f) (c_peers ?a)"
    using broadcast_udp [of ?a f] live by auto
  have "sendChainShare P convId epoch (c_senderId b) chain a = Done a'"
    using known k enc a'(1) by (simp add: sendChainShare_def acquainted_def with_random_def chain_share_def)
  moreover have "sent_since a a' = replicate (length (c_peers a)) f"
    using a'(2) by (simp add: sent_since_def map_filter_datagram)
  moreover have "readUInt8 f 0 = Inr TYPE_CHAIN_SHARE" "readUInt16BE f 1 = Inr convId"
    "readUInt16BE f 3 = Inr (c_senderId a)" "readUInt16BE f 5 = Inr (c_senderId b)"
    using ids unfolding f_def by (simp_all add: share_header_reads [simplified] chain_share_def ids_fit_def TYPE_CHAIN_SHARE_def)
  then have "client_handleMessage P f b = setChain convId epoch (c_senderId a)
      \<lparr>cs_key = cs_key chain, cs_index = js_ushr0 (cs_index chain)\<rparr> b"
    using known k dec by (simp add: client_handleMessage_def client_try_def handleChainShare_def acquainted_def
        TYPE_CHAIN_SHARE_def TYPE_DATA_def) (simp add: chain_share_def)
  ultimately show ?thesis by blast
qed

section \<open>Handing over the group key\<close>

definition keyring where
  "keyring c = (c_senderId c, c_roomKeys c, c_currentEpochs c, c_adoptedEpochs c, c_roster c, c_serverPubKeys c, c_isCreator c)"

lemma keyring_core: "client_core c = client_core d \<Longrightarrow> keyring c = keyring d"
  unfolding keyring_def by (simp add: client_core_def)

lemma keyring_setChain [simp]:
  "keyring (setChain i e j s c) = keyring c" "keyring (c\<lparr>c_chainSeeds := x\<rparr>) = keyring c"
  by (simp_all add: keyring_def setChain_def)

lemma core_share_chain_loop [simp]: "client_core (state_of (share_chain_loop P i e ch ts c)) = client_core c"
proof (induction ts arbitrary: c)
  case (Cons t ts)
  then show ?case
    using client_core_control(5) [of P i e t ch c] by (cases "sendChainShare P i e t ch c") simp_all
qed simp

lemma core_share_key_loop [simp]: "client_core (state_of (share_key_loop P i e r key ts c)) = client_core c"
proof (induction ts arbitrary: c)
  case (Cons t ts)
  have "client_core (state_of (and_then (broadcast b d) (share_key_loop P i e r key ts))) = client_core d" for b d
    using Cons.IH client_core_broadcast [of b d] by (cases "broadcast b d") simp_all
  then show ?case
    by (auto simp: with_random_def eval_in_def split: option.splits sum.splits)
qed simp

lemma core_state_of_and_then:
  assumes "g (state_of m) = g c" "\<And>d. g (state_of (f d)) = g d"
  shows "g (state_of (and_then m f)) = g c"
  using assms by (cases m) simp_all

lemma core_sharing [simp]:
  "client_core (state_of (shareChainWithMembers P i e c)) = client_core c"
  "client_core (state_of (shareWithNewMembers P i c)) = client_core c"
  unfolding shareChainWithMembers_def shareWithNewMembers_def
  by (auto simp: Let_def split: option.splits intro!: core_state_of_and_then)

lemma keyring_initOwnChain [simp]: "keyring (state_of (initOwnChain P i e c)) = keyring c"
proof -
  let ?d = "(setChain i e (c_senderId c) \<lparr>cs_key = randomBytes P (c_draws c) 32, cs_index = 0\<rparr> (c\<lparr>c_draws := c_draws c + 1\<rparr>))
    \<lparr>c_chainSeeds := set2 (c_chainSeeds c) i e \<lparr>cs_key = randomBytes P (c_draws c) 32, cs_index = 0\<rparr>,
     c_chainSharedWith := AList.update i [] (c_chainSharedWith c)\<rparr>"
  have "initOwnChain P i e c = shareChainWithMembers P i e ?d"
    by (simp add: initOwnChain_def with_random_def Let_def setChain_def)
  then have "keyring (state_of (initOwnChain P i e c)) = keyring ?d"
    by (simp add: keyring_core [OF core_sharing(1)])
  also have "\<dots> = keyring c" by (simp add: keyring_def setChain_def)
  finally show ?thesis .
qed

lemma keyring_adoptKey:
  "keyring (state_of (adoptKey P i e key c)) = keyring (c\<lparr>c_roomKeys := set2 (c_roomKeys c) i e key,
     c_currentEpochs := AList.update i e (c_currentEpochs c), c_adoptedEpochs := AList.update i e (c_adoptedEpochs c)\<rparr>)"
proof -
  let ?d = "c\<lparr>c_roomKeys := set2 (c_roomKeys c) i e key, c_currentEpochs := AList.update i e (c_currentEpochs c),
     c_adoptedEpochs := AList.update i e (c_adoptedEpochs c), c_sharedWith := AList.update i [] (c_sharedWith c)\<rparr>"
  have "keyring (state_of (adoptKey P i e key c)) = keyring ?d"
    unfolding adoptKey_def Let_def
    by (intro core_state_of_and_then) (simp_all add: keyring_core [OF core_sharing(2)] keyring_core [OF client_core_schedule(3)])
  then show ?thesis by (simp add: keyring_def)
qed

lemma adoptKey_current:
  assumes "0 < e"
  shows "getCurrentKey i (state_of (adoptKey P i e key c)) = Some key"
    "currentEpoch i (state_of (adoptKey P i e key c)) = e"
  using keyring_adoptKey [of P i e key c] assms by (simp_all add: keyring_def getCurrentKey_def currentEpoch_def)

lemma key_share_handover:
  assumes P: "contracts P" and known: "acquainted P convId a b" and ids: "ids_fit convId a b"
    and sz: "epoch < 65536" "length key = 32"
    and live: "\<not> c_closed a" "\<not> (c_useFallback a \<and> c_tcpSocket a \<noteq> None)"
    and roster: "map_of roster (c_senderId b) = Some (ecdhPublic P (c_clientECDH b))"
    and newer: "or_default (map_of (c_adoptedEpochs b) convId) 0 < epoch"
  shows "\<exists>a' f. share_key_loop P convId epoch roster key [c_senderId b] a = Done a' \<and>
    sent_since a a' = replicate (length (c_peers a)) f \<and>
    client_handleMessage P f b = state_of (adoptKey P convId epoch key b)"
proof -
  obtain k where k: "pairwiseKey P (c_clientECDH a) (ecdhPublic P (c_clientECDH b)) = Inr k"
    "pairwiseKey P (c_clientECDH b) (ecdhPublic P (c_clientECDH a)) = Inr k" "length k = 32"
    using acquainted_key [OF P known] by blast
  let ?n = "randomBytes P (c_draws a) 12"
  define s where "s = \<lparr>ks_type = TYPE_KEY_SHARE, ks_convId = convId, ks_senderId = c_senderId a,
      ks_targetId = c_senderId b, ks_epoch = epoch, ks_nonce = ?n, ks_encryptedKey = key\<rparr>"
  have ctx: "seal_ctx (P, k, ks_nonce s)" using random_ctx [OF P k(3)] by (simp add: s_def)
  have wf: "wf_keyshare s" using ids sz by (simp add: wf_keyshare_def s_def ids_fit_def TYPE_KEY_SHARE_def)
  define f where "f = keyshare_header s @ sealed P k (ks_nonce s) (keyshare_header s) (ks_encryptedKey s)"
  have enc: "encodeKeyShare P s k = Inr f" using encodeKeyShare_layout [OF ctx wf] by (simp add: f_def)
  have dec: "decodeKeyShare P f k = Inr (epoch, key)"
    using decodeKeyShare_layout [OF ctx wf] by (simp add: f_def) (simp add: s_def)
  let ?a = "a\<lparr>c_draws := c_draws a + 1\<rparr>"
  obtain a' where a': "broadcast f ?a = Done a'"
    "c_outbox a' = c_outbox ?a @ map (\<lambda>(address, port). UdpSend address port f) (c_peers ?a)"
    using broadcast_udp [of ?a f] live by auto
  have "share_key_loop P convId epoch roster key [c_senderId b] a = Done a'"
    using k enc a'(1) roster by (simp add: with_random_def s_def)
  moreover have "sent_since a a' = replicate (length (c_peers a)) f"
    using a'(2) by (simp add: sent_since_def map_filter_datagram)
  moreover have "readUInt8 f 0 = Inr TYPE_KEY_SHARE" "readUInt16BE f 1 = Inr convId"
    "readUInt16BE f 3 = Inr (c_senderId a)" "readUInt16BE f 5 = Inr (c_senderId b)"
    using ids unfolding f_def s_def by (simp_all add: share_header_reads [simplified] ids_fit_def TYPE_KEY_SHARE_def)
  then have "client_handleMessage P f b = state_of (adoptKey P convId epoch key b)"
    using known k dec newer
    by (simp add: client_handleMessage_def client_try_def handleKeyShare_def acquainted_def TYPE_defs Let_def)
  ultimately show ?thesis by blast
qed

section \<open>Announcing the roster\<close>

text \<open>The announcement for one member, and a roster the announcement can carry.\<close>

definition member_info :: "prims \<Rightarrow> Server \<Rightarrow> nat \<Rightarrow> (nat \<times> buffer) list \<Rightarrow> nat \<Rightarrow> MemberInfo" where
  "member_info P s convId roster m = \<lparr>mi_type = TYPE_MEMBER_INFO, mi_convId = convId, mi_senderId = m,
     mi_serverPubKey = ecdhPublic P (serverECDH s), mi_creator = (map_of (creator s) convId = Some m),
     mi_members = roster\<rparr>"

definition valid_roster :: "prims \<Rightarrow> (nat \<times> buffer) list \<Rightarrow> bool" where
  "valid_roster P roster \<longleftrightarrow> length roster < 65536 \<and> (\<forall>m \<in> set roster. fst m < 65536 \<and> (\<exists>priv. snd m = ecdhPublic P priv))"

definition announcement :: "prims \<Rightarrow> MemberInfo \<Rightarrow> buffer \<Rightarrow> buffer \<Rightarrow> buffer" where
  "announcement P i k nonce = memberinfo_aad i nonce
     @ sealed P k nonce (memberinfo_aad i nonce) (roster_bytes (mi_creator i) (mi_members i))"

lemma wf_member_info:
  assumes "contracts P" "valid_roster P roster" "convId < 65536" "m < 65536"
  shows "wf_memberinfo (member_info P s convId roster m)"
  using assms by (auto simp: wf_memberinfo_def member_info_def valid_roster_def wf_member_def contracts_def
      ecdh_agrees_def TYPE_MEMBER_INFO_def)

lemma notify_loop_announces:
  assumes P: "contracts P" and roster: "valid_roster P roster" "set ms \<subseteq> set roster" "convId < 65536"
    and live: "\<not> closed s"
  shows "\<exists>s' new. notify_loop P convId roster ms s = Done s' \<and> outbox s' = outbox s @ new \<and>
    (\<forall>(m, pub) \<in> set ms. \<forall>peer. get2 (clientMap s) convId m = Some peer \<longrightarrow>
      (\<exists>k d. pairwiseKey P (serverECDH s) pub = Inr k \<and>
        set (transmit (announcement P (member_info P s convId roster m) k (randomBytes P d 12)) peer (wsOpen s)) \<subseteq> set new))"
  using roster(2) live
proof (induction ms arbitrary: s)
  case Nil
  then show ?case by simp
next
  case (Cons mp ms)
  obtain m pub where mp: "mp = (m, pub)" by (cases mp)
  from Cons.prems(1) roster(1) mp obtain priv where m: "m < 65536" "pub = ecdhPublic P priv"
    by (auto simp: valid_roster_def)
  obtain k where k: "pairwiseKey P (serverECDH s) pub = Inr k" "length k = 32"
    using pairwiseKey_agree [of P "serverECDH s" priv] pairwiseKey_length [of P] P m(2) by (auto simp: contracts_def)
  have sub: "set ms \<subseteq> set roster" using Cons.prems(1) by simp
  show ?case
  proof (cases "get2 (clientMap s) convId m")
    case None
    with Cons.IH [OF sub Cons.prems(2)] k mp show ?thesis by auto
  next
    case (Some peer)
    let ?n = "randomBytes P (draws s) 12" and ?i = "member_info P s convId roster m"
    let ?s = "sendToPeer (announcement P ?i k ?n) peer (s\<lparr>draws := draws s + 1\<rparr>)"
    have enc: "encodeMemberInfo P ?i k ?n = Inr (announcement P ?i k ?n)"
      using encodeMemberInfo_layout [OF random_ctx [OF P k(2)] wf_member_info [OF P roster(1,3) m(1)]]
      by (simp add: announcement_def)
    have same: "clientMap ?s = clientMap s" "serverECDH ?s = serverECDH s" "creator ?s = creator s"
      "wsOpen ?s = wsOpen s" "\<not> closed ?s" "outbox ?s = outbox s @ transmit (announcement P ?i k ?n) peer (wsOpen s)"
      using Cons.prems(2) by (simp_all add: sendToPeer_def)
    then have info: "member_info P ?s convId roster = member_info P s convId roster"
      by (simp add: member_info_def fun_eq_iff)
    obtain s' new where s': "notify_loop P convId roster ms ?s = Done s'" "outbox s' = outbox ?s @ new"
      "\<forall>(m, pub) \<in> set ms. \<forall>peer. get2 (clientMap s) convId m = Some peer \<longrightarrow>
        (\<exists>k d. pairwiseKey P (serverECDH s) pub = Inr k \<and>
          set (transmit (announcement P (member_info P s convId roster m) k (randomBytes P d 12)) peer (wsOpen s)) \<subseteq> set new)"
      using Cons.IH [OF sub same(5)] unfolding info same(1,2,4) by blast
    have "notify_loop P convId roster (mp # ms) s = Done s'"
      using k Some enc s'(1) by (simp add: mp member_info_def)
    moreover have "outbox s' = outbox s @ transmit (announcement P ?i k ?n) peer (wsOpen s) @ new"
      using s'(2) same(6) by simp
    ultimately show ?thesis
      using s'(3) k Some mp by (intro exI [of _ s'] exI [of _ "transmit (announcement P ?i k ?n) peer (wsOpen s) @ new"])
        (fastforce)
  qed
qed

text \<open>What a client keeps about a conversation's members does not change while it reacts.\<close>

definition membership where
  "membership c = (c_senderId c, c_roster c, c_serverPubKeys c, c_isCreator c)"

lemma membership_keyring: "keyring c = keyring d \<Longrightarrow> membership c = membership d"
  by (simp add: keyring_def membership_def)

lemma membership_draws [simp]: "membership (c\<lparr>c_draws := n\<rparr>) = membership c"
  by (simp add: membership_def)

lemma membership_adoptKey [simp]: "membership (state_of (adoptKey P i e key c)) = membership c"
proof -
  have "membership (state_of (adoptKey P i e key c)) = membership (c\<lparr>c_roomKeys := set2 (c_roomKeys c) i e key,
     c_currentEpochs := AList.update i e (c_currentEpochs c), c_adoptedEpochs := AList.update i e (c_adoptedEpochs c)\<rparr>)"
    by (rule membership_keyring [OF keyring_adoptKey])
  then show ?thesis by (simp add: membership_def)
qed

lemma membership_fold:
  "(\<And>x d. membership (f x d) = membership d) \<Longrightarrow> membership (fold f xs c) = membership c"
  by (induction xs arbitrary: c) auto

lemma membership_prune [simp]: "membership (pruneOldEpochs i c) = membership c"
  by (auto simp: pruneOldEpochs_def Let_def split: option.splits intro!: membership_fold)
    (simp_all add: membership_def)

lemma membership_rekey [simp]: "membership (state_of (rekey P i c)) = membership c"
  unfolding rekey_def with_random_def by (auto intro!: core_state_of_and_then)

lemma membership_core: "client_core c = client_core d \<Longrightarrow> membership c = membership d"
  by (rule membership_keyring [OF keyring_core])

lemmas membership_keeps = membership_core [OF core_sharing(1)] membership_core [OF core_sharing(2)]
  membership_core [OF client_core_schedule(3)]

lemma handleMemberInfo_membership:
  assumes "memberInfoServerKey buf = Inr pub" "pairwiseKey P (c_clientECDH c) pub = Inr k"
    and "decodeMemberInfo P buf k = Inr info"
    and "c_serverFingerprint c = '''' \<or> serverFingerprint P pub = c_serverFingerprint c"
  shows "membership (state_of (handleMemberInfo P buf c)) = membership (applyRoster pub info c)"
  using assms unfolding handleMemberInfo_def
  by (auto simp: Let_def with_random_def membership_keeps intro!: core_state_of_and_then)

lemma announcement_received:
  assumes "contracts P" "wf_memberinfo i" "mi_type i = TYPE_MEMBER_INFO" "length k = 32" "length n = 12"
    and "pairwiseKey P (c_clientECDH c) (mi_serverPubKey i) = Inr k"
    and "c_serverFingerprint c = '''' \<or> serverFingerprint P (mi_serverPubKey i) = c_serverFingerprint c"
  shows "membership (client_handleMessage P (announcement P i k n) c) = membership (applyRoster (mi_serverPubKey i) i c)"
proof -
  have ctx: "seal_ctx (P, k, n)" using assms by (simp add: seal_ctx_def contracts_def)
  have "readUInt8 (announcement P i k n) 0 = Inr TYPE_MEMBER_INFO"
    using assms(3) by (simp add: announcement_def memberinfo_aad_def layout TYPE_MEMBER_INFO_def)
  then have "client_handleMessage P (announcement P i k n) c = state_of (handleMemberInfo P (announcement P i k n) c)"
    by (simp add: client_handleMessage_def client_try_def TYPE_defs)
  moreover have "memberInfoServerKey (announcement P i k n) = Inr (mi_serverPubKey i)"
    unfolding announcement_def using assms(2) by (rule memberInfoServerKey_layout)
  moreover have "decodeMemberInfo P (announcement P i k n) k = Inr i"
    unfolding announcement_def using ctx assms(2) by (rule decodeMemberInfo_layout)
  ultimately show ?thesis using handleMemberInfo_membership assms(6,7) by simp
qed

section \<open>Sharing returns\<close>

text \<open>
  With a roster of usable public keys, ids and epoch that fit their fields, and UDP as the
  transport, no share throws: the loops run to their end.
\<close>

definition can_share :: "prims \<Rightarrow> nat \<Rightarrow> Client \<Rightarrow> bool" where
  "can_share P convId c \<longleftrightarrow> convId < 65536 \<and> c_senderId c < 65536 \<and> valid_roster P (sub (c_roster c) convId) \<and>
     \<not> (c_useFallback c \<and> c_tcpSocket c \<noteq> None)"

lemma can_share_core: "client_core c = client_core d \<Longrightarrow> can_share P i c = can_share P i d"
  by (simp add: can_share_def client_core_def)

lemma broadcast_returns: "\<not> (c_useFallback c \<and> c_tcpSocket c \<noteq> None) \<Longrightarrow> \<exists>c'. broadcast buf c = Done c'"
  by (auto simp: broadcast_def Let_def split: bool.splits option.splits)

lemma done_core: "m = Done c' \<Longrightarrow> client_core (state_of m) = client_core c \<Longrightarrow> client_core c' = client_core c"
  by simp

lemma transport_key:
  assumes "contracts P" "valid_roster P roster" "map_of roster m = Some pub"
  obtains k where "pairwiseKey P (c_clientECDH c) pub = Inr k" "length k = 32" "m < 65536"
proof -
  from assms(2,3) obtain priv where "pub = ecdhPublic P priv" "m < 65536"
    by (force simp: valid_roster_def dest: map_of_SomeD)
  then show thesis
    using that pairwiseKey_agree [of P "c_clientECDH c" priv] pairwiseKey_length [of P] assms(1) by (auto simp: contracts_def)
qed

lemma share_key_loop_returns:
  assumes P: "contracts P" "epoch < 65536" "length key = 32"
  shows "can_share P convId c \<Longrightarrow> sub (c_roster c) convId = roster \<Longrightarrow> set ts \<subseteq> fst ` set roster \<Longrightarrow>
    \<exists>c'. share_key_loop P convId epoch roster key ts c = Done c'"
proof (induction ts arbitrary: c)
  case (Cons m ts)
  from Cons.prems(3) obtain pub where pub: "map_of roster m = Some pub"
    by (cases "map_of roster m") (auto simp: map_of_eq_None_iff)
  from transport_key [OF P(1) _ pub] Cons.prems(1,2) obtain k where k: "pairwiseKey P (c_clientECDH c) pub = Inr k" "length k = 32" "m < 65536"
    by (auto simp: can_share_def)
  let ?s = "\<lparr>ks_type = TYPE_KEY_SHARE, ks_convId = convId, ks_senderId = c_senderId c, ks_targetId = m, ks_epoch = epoch,
      ks_nonce = randomBytes P (c_draws c) 12, ks_encryptedKey = key\<rparr>"
  have "wf_keyshare ?s" using Cons.prems(1) P k(3) by (simp add: wf_keyshare_def can_share_def TYPE_KEY_SHARE_def)
  with random_ctx [OF P(1) k(2)] have "\<exists>buf. encodeKeyShare P ?s k = Inr buf" by (auto simp: encodeKeyShare_layout)
  then obtain buf where buf: "encodeKeyShare P ?s k = Inr buf" ..
  obtain c1 where c1: "broadcast buf (c\<lparr>c_draws := c_draws c + 1\<rparr>) = Done c1"
    using broadcast_returns [of "c\<lparr>c_draws := c_draws c + 1\<rparr>" buf] Cons.prems(1) by (auto simp: can_share_def)
  have core: "client_core c1 = client_core c" by (rule done_core [OF c1]) simp
  show ?case
    using Cons.IH [of c1] Cons.prems can_share_core [OF core, of P convId] client_coreD(10) [OF core] pub k(1) buf c1
    by (simp add: with_random_def)
qed simp

lemma sendChainShare_returns:
  assumes P: "contracts P" "epoch < 65536" "length (cs_key chain) = 32" and c: "can_share P convId c"
  shows "\<exists>c'. sendChainShare P convId epoch m chain c = Done c'"
proof (cases "map_of (sub (c_roster c) convId) m")
  case (Some pub)
  from transport_key [OF P(1) _ Some] c obtain k where k: "pairwiseKey P (c_clientECDH c) pub = Inr k" "length k = 32" "m < 65536"
    by (auto simp: can_share_def)
  let ?s = "\<lparr>ch_type = TYPE_CHAIN_SHARE, ch_convId = convId, ch_senderId = c_senderId c, ch_targetId = m, ch_epoch = epoch,
      ch_nonce = randomBytes P (c_draws c) 12, ch_chainKey = cs_key chain, ch_chainIndex = cs_index chain\<rparr>"
  have "wf_chainshare ?s" using c P k(3) by (simp add: wf_chainshare_def can_share_def TYPE_CHAIN_SHARE_def)
  with random_ctx [OF P(1) k(2)] have "\<exists>buf. encodeChainShare P ?s k = Inr buf" by (auto simp: encodeChainShare_layout)
  then show ?thesis
    using Some k(1) broadcast_returns [of "c\<lparr>c_draws := c_draws c + 1\<rparr>"] c
    by (auto simp: sendChainShare_def get2_def with_random_def can_share_def)
qed (simp add: sendChainShare_def get2_def)

lemma share_chain_loop_returns:
  assumes P: "contracts P" "epoch < 65536" "length (cs_key chain) = 32"
  shows "can_share P convId c \<Longrightarrow> \<exists>c'. share_chain_loop P convId epoch chain ts c = Done c'"
proof (induction ts arbitrary: c)
  case (Cons m ts)
  obtain c1 where c1: "sendChainShare P convId epoch m chain c = Done c1" using sendChainShare_returns [OF P Cons.prems] ..
  have core: "client_core c1 = client_core c" by (rule done_core [OF c1]) simp
  show ?case using Cons.IH [of c1] Cons.prems can_share_core [OF core] c1 by simp
qed simp

lemma shareChainWithMembers_returns:
  assumes "contracts P" "epoch < 65536" "can_share P convId c" "getChain convId epoch (c_senderId c) c = Some chain" "length (cs_key chain) = 32"
  shows "\<exists>c'. shareChainWithMembers P convId epoch c = Done c'"
  using share_chain_loop_returns [OF assms(1,2,5)] can_share_core [of "c\<lparr>c_chainSharedWith := _\<rparr>" c P convId] assms(3,4)
  by (auto simp: shareChainWithMembers_def Let_def split: option.splits) (metis and_then.simps(1))

lemma shareWithNewMembers_returns:
  assumes "contracts P" "or_default (map_of (c_currentEpochs c) convId) 1 < 65536" "can_share P convId c"
    and "getCurrentKey convId c = Some key" "length key = 32"
  shows "\<exists>c'. shareWithNewMembers P convId c = Done c'"
proof (cases "map_of (c_roster c) convId")
  case (Some roster)
  then have roster: "sub (c_roster c) convId = roster" by (simp add: sub_def)
  let ?ts = "share_targets (c_senderId c) (sub (c_sharedWith c) convId) roster"
  let ?c = "c\<lparr>c_sharedWith := AList.update convId (sub (c_sharedWith c) convId @ ?ts) (c_sharedWith c)\<rparr>"
  have "can_share P convId ?c" using can_share_core [of ?c c P convId] assms(3) by simp
  moreover have "set ?ts \<subseteq> fst ` set roster" by (auto simp: share_targets_def)
  ultimately obtain c1 where "share_key_loop P convId (or_default (map_of (c_currentEpochs c) convId) 1) roster key ?ts ?c = Done c1"
    using share_key_loop_returns [OF assms(1,2,5), of convId ?c roster ?ts] roster by auto
  then show ?thesis using assms(4) Some by (simp add: shareWithNewMembers_def Let_def)
qed (simp add: shareWithNewMembers_def assms(4))

lemma initOwnChain_returns:
  assumes "contracts P" "epoch < 65536" "can_share P convId c"
  shows "\<exists>c'. initOwnChain P convId epoch c = Done c'"
proof -
  let ?chain = "\<lparr>cs_key = randomBytes P (c_draws c) 32, cs_index = 0\<rparr>"
  let ?d = "(setChain convId epoch (c_senderId c) ?chain (c\<lparr>c_draws := c_draws c + 1\<rparr>))
    \<lparr>c_chainSeeds := set2 (c_chainSeeds c) convId epoch ?chain, c_chainSharedWith := AList.update convId [] (c_chainSharedWith c)\<rparr>"
  have run: "initOwnChain P convId epoch c = shareChainWithMembers P convId epoch ?d"
    by (simp add: initOwnChain_def with_random_def Let_def setChain_def)
  have "can_share P convId ?d" "getChain convId epoch (c_senderId ?d) ?d = Some ?chain"
    using assms(3) by (simp_all add: can_share_def setChain_def getChain_def sub_set2 get2_def)
  then show ?thesis
    unfolding run using assms(1,2) by (intro shareChainWithMembers_returns [where chain = ?chain]) (auto simp: contracts_def random_sized_def)
qed

lemma adoptKey_returns:
  assumes "contracts P" "0 < epoch" "epoch < 65536" "length key = 32" "can_share P convId c"
  shows "\<exists>c'. adoptKey P convId epoch key c = Done c'"
proof -
  let ?c = "c\<lparr>c_roomKeys := set2 (c_roomKeys c) convId epoch key, c_currentEpochs := AList.update convId epoch (c_currentEpochs c),
    c_adoptedEpochs := AList.update convId epoch (c_adoptedEpochs c), c_sharedWith := AList.update convId [] (c_sharedWith c)\<rparr>"
  have c: "can_share P convId ?c" using assms(5) by (simp add: can_share_def)
  have "or_default (map_of (c_currentEpochs ?c) convId) 1 = epoch" "getCurrentKey convId ?c = Some key"
    using assms(2) by (simp_all add: getCurrentKey_def or_default_def)
  then obtain c1 where c1: "shareWithNewMembers P convId ?c = Done c1"
    using shareWithNewMembers_returns [OF assms(1) _ c] assms(3,4) by auto
  have core: "client_core c1 = client_core ?c" by (rule done_core [OF c1]) simp
  obtain c2 where "initOwnChain P convId epoch c1 = Done c2"
    using initOwnChain_returns [OF assms(1,3), of convId c1] c can_share_core [OF core] by auto
  then show ?thesis using c1 by (simp add: adoptKey_def Let_def)
qed

end
