(* ===== verification/Dart_Relay.thy ===== *)
theory Dart_Relay
  imports Dart_Exchange
begin

text \<open>
  What the relay does with each kind of packet, branch by branch: who receives it, what the cache
  answers, which frames are refused, how membership changes. The properties of the server rest on
  these lemmas and on the invariant of \<^verbatim>\<open>Dart_Server_Inv\<close>.
\<close>

section \<open>Fan-out and repair\<close>

definition others :: "Server \<Rightarrow> nat \<Rightarrow> Peer \<Rightarrow> Peer list" where
  "others s convId peer = filter (\<lambda>p. p_id p \<noteq> p_id peer) (sub (groups s) convId)"

definition transmit_all :: "buffer \<Rightarrow> Peer list \<Rightarrow> (nat \<Rightarrow> bool) \<Rightarrow> wire_out list" where
  "transmit_all buf ps ws = concat (map (\<lambda>p. transmit buf p ws) ps)"

lemma sendToPeer_live:
  "\<not> closed s \<Longrightarrow> outbox (sendToPeer buf p s) = outbox s @ transmit buf p (wsOpen s)"
  "wsOpen (sendToPeer buf p s) = wsOpen s" "closed (sendToPeer buf p s) = closed s"
  by (simp_all add: sendToPeer_def)

lemma fold_send_outbox:
  "\<not> closed s \<Longrightarrow> outbox (fold (\<lambda>p s. if c p then sendToPeer buf p s else s) ps s)
    = outbox s @ transmit_all buf (filter c ps) (wsOpen s)"
  by (induction ps arbitrary: s) (auto simp: sendToPeer_live transmit_all_def)

lemma fanout_outbox:
  "\<not> closed s \<Longrightarrow> outbox (fanout convId peer buf s) = outbox s @ transmit_all buf (others s convId peer) (wsOpen s)"
  by (simp add: fanout_def fold_send_outbox others_def)

definition answer :: "Server \<Rightarrow> nat \<Rightarrow> nat \<Rightarrow> Peer \<Rightarrow> nat \<Rightarrow> wire_out list" where
  "answer s convId targetId peer seq =
     (case map_of (sub (sub (messageCache s) convId) targetId) seq of
        None \<Rightarrow> [] | Some b \<Rightarrow> transmit b peer (wsOpen s))"

lemma answer_simps [simp]:
  "answer (s\<lparr>stats := x\<rparr>) = answer s" "answer (sendToPeer b p s) = answer s"
  by (auto simp: answer_def sendToPeer_def fun_eq_iff split: option.splits)

lemma repair_loop_spec:
  assumes "\<not> closed s"
  shows "outbox (fst (repair_loop c t peer seqs s ms)) = outbox s @ concat (map (answer s c t peer) seqs) \<and>
    \<not> closed (fst (repair_loop c t peer seqs s ms))"
  using assms
proof (induction seqs arbitrary: s ms)
  case (Cons q seqs)
  show ?case
  proof (cases "map_of (sub (sub (messageCache s) c) t) q")
    case None
    with Cons.IH [OF Cons.prems] show ?thesis by (simp add: answer_def [of s c t peer q])
  next
    case (Some b)
    let ?s = "s\<lparr>stats := (stats s)\<lparr>repairsSent := repairsSent (stats s) + 1\<rparr>\<rparr>"
    show ?thesis
      using Cons.IH [of "sendToPeer b peer ?s"] Cons.prems Some
      by (simp add: sendToPeer_live answer_def [of s c t peer q])
  qed
qed simp

lemma outbox_grows:
  "\<not> closed s \<Longrightarrow> set (outbox s) \<subseteq> set (outbox (sendToPeer b p s))"
  "\<not> closed s \<Longrightarrow> set (outbox s) \<subseteq> set (outbox (fanout c p b s))"
  by (simp_all add: sendToPeer_live fanout_outbox)

lemma handleNack_repairs:
  assumes live: "\<not> closed s" and frame: "stripControlFrame buf = Some body" "parseNack body = Inr nk"
    and seq: "seq \<in> set (nk_missingSeq nk)" "map_of (sub (sub (messageCache s) (nk_convId nk)) (nk_targetId nk)) seq = Some b"
  shows "set (transmit b peer (wsOpen s)) \<subseteq> set (outbox (state_of (handleNack buf peer s)))"
proof -
  let ?s = "s\<lparr>stats := (stats s)\<lparr>nacksReceived := nacksReceived (stats s) + 1\<rparr>\<rparr>"
  let ?r = "repair_loop (nk_convId nk) (nk_targetId nk) peer (nk_missingSeq nk) ?s []"
  have r: "outbox (fst ?r) = outbox s @ concat (map (answer s (nk_convId nk) (nk_targetId nk) peer) (nk_missingSeq nk))"
    "\<not> closed (fst ?r)"
    using repair_loop_spec [of ?s] live by simp_all
  have "transmit b peer (wsOpen s) = answer s (nk_convId nk) (nk_targetId nk) peer seq"
    using seq(2) by (simp add: answer_def)
  then have "set (transmit b peer (wsOpen s)) \<subseteq> set (outbox (fst ?r))"
    unfolding r(1) using seq(1) by auto
  also have "\<dots> \<subseteq> set (outbox (state_of (handleNack buf peer s)))"
    using frame r(2) outbox_grows [of "fst ?r"]
    by (auto simp: handleNack_def Let_def case_prod_unfold)
  finally show ?thesis .
qed

text \<open>Every data packet of a known peer is fanned out, stale or not.\<close>

lemma handleData_outbox:
  assumes "\<not> closed s" "map_of (peerIdentity s) (p_id peer) = Some senderId" "readUIntBE buf 3 3 = Inr seq"
  shows "outbox (state_of (handleData buf peer convId s)) = outbox s @ transmit_all buf (others s convId peer) (wsOpen s)"
proof -
  have "\<exists>mc hs. handleData buf peer convId s = Done (fanout convId peer buf (s\<lparr>messageCache := mc, highestSeq := hs\<rparr>))"
    using assms(2,3) by (simp add: handleData_def Let_def) blast
  then show ?thesis using assms(1) by (auto simp: fanout_outbox others_def)
qed

text \<open>A data packet that is not stale is in the cache afterwards.\<close>

lemma handleData_caches:
  assumes "map_of (peerIdentity s) (p_id peer) = Some senderId" "readUIntBE buf 3 3 = Inr seq"
    and fresh: "\<And>h. get2 (highestSeq s) convId senderId = Some h \<Longrightarrow> seqDelta h seq < 8388608"
  shows "map_of (sub (sub (messageCache (state_of (handleData buf peer convId s))) convId) senderId) seq = Some buf"
    and "closed (state_of (handleData buf peer convId s)) = closed s"
    and "wsOpen (state_of (handleData buf peer convId s)) = wsOpen s"
    and "groups (state_of (handleData buf peer convId s)) = groups s"
    and "\<not> closed s \<Longrightarrow> outbox (state_of (handleData buf peer convId s)) = outbox s @ transmit_all buf (others s convId peer) (wsOpen s)"
proof -
  define mc where "mc = set2 (messageCache s) convId senderId
    (window_gc CACHE_WINDOW seq (AList.update seq buf (sub (sub (messageCache s) convId) senderId)))"
  have g: "get2 (ensure (highestSeq s) convId) convId senderId = get2 (highestSeq s) convId senderId"
    "has (sub (highestSeq s) convId) senderId \<longleftrightarrow> get2 (highestSeq s) convId senderId \<noteq> None"
    by (simp_all add: get2_def has_def)
  have "\<exists>hs. handleData buf peer convId s = Done (fanout convId peer buf (s\<lparr>messageCache := mc, highestSeq := hs\<rparr>))"
  proof (cases "get2 (highestSeq s) convId senderId")
    case None
    then show ?thesis
      using assms(1,2) by (simp add: handleData_def Let_def SEQ_MOD_val g mc_def) blast
  next
    case (Some h)
    have "\<not> 8388608 \<le> seqDelta h seq" using fresh [OF Some] by simp
    then show ?thesis
      using assms(1,2) Some by (simp add: handleData_def Let_def SEQ_MOD_val g mc_def) blast
  qed
  then obtain hs where run: "handleData buf peer convId s = Done (fanout convId peer buf (s\<lparr>messageCache := mc, highestSeq := hs\<rparr>))"
    by blast
  let ?t = "s\<lparr>messageCache := mc, highestSeq := hs\<rparr>"
  have core: "core_state (fanout convId peer buf ?t) = core_state ?t" by simp
  have keep: "closed (fold (\<lambda>p s. if c p then sendToPeer buf p s else s) ps u) = closed u \<and>
      wsOpen (fold (\<lambda>p s. if c p then sendToPeer buf p s else s) ps u) = wsOpen u" for c ps u
    by (induction ps arbitrary: u) (auto simp: sendToPeer_live)
  show "map_of (sub (sub (messageCache (state_of (handleData buf peer convId s))) convId) senderId) seq = Some buf"
    using core_stateD(7) [OF core] by (simp add: run mc_def sub_set2 gc.map_of_gc)
  show "closed (state_of (handleData buf peer convId s)) = closed s"
    "wsOpen (state_of (handleData buf peer convId s)) = wsOpen s"
    "groups (state_of (handleData buf peer convId s)) = groups s"
    using core_stateD(1) [OF core] keep by (simp_all add: run) (simp_all add: fanout_def)
  show "outbox (state_of (handleData buf peer convId s)) = outbox s @ transmit_all buf (others s convId peer) (wsOpen s)" if "\<not> closed s"
    using that fanout_outbox [of ?t] by (simp add: run others_def)
qed

section \<open>Verified relays\<close>

lemma server_verifies_signed:
  assumes "digests_sized P" "server_verifies P s convId i buf = Inr (Some body)"
  shows "\<exists>pub k. get2 (members s) convId i = Some pub \<and> pairwiseKey P (serverECDH s) pub = Inr k \<and>
    buf = signControlFrame P body k"
  using assms by (auto simp: server_verifies_def verify_sign_iff split: option.splits)

text \<open>What a verified relay branch does: all or nothing.\<close>

definition signed_by_member :: "prims \<Rightarrow> Server \<Rightarrow> nat \<Rightarrow> buffer \<Rightarrow> bool" where
  "signed_by_member P s convId buf \<longleftrightarrow> (\<exists>i pub k body. readUInt16BE buf 3 = Inr i \<and>
     get2 (members s) convId i = Some pub \<and> pairwiseKey P (serverECDH s) pub = Inr k \<and>
     buf = signControlFrame P body k)"

lemma verified_relay:
  assumes "digests_sized P"
  shows "state_of (handleSync P buf peer convId s) = (if signed_by_member P s convId buf then fanout convId peer buf s else s)"
    and "state_of (handleDictReset P buf peer convId s) = (if signed_by_member P s convId buf then fanout convId peer buf s else s)"
proof -
  have "(\<exists>body. server_verifies P s convId i buf = Inr (Some body)) \<longleftrightarrow> signed_by_member P s convId buf"
    if "readUInt16BE buf 3 = Inr i" for i
    using that assms by (auto simp: signed_by_member_def server_verifies_def verify_sign_iff verify_sign split: option.splits)
  then show "state_of (handleSync P buf peer convId s) = (if signed_by_member P s convId buf then fanout convId peer buf s else s)"
    "state_of (handleDictReset P buf peer convId s) = (if signed_by_member P s convId buf then fanout convId peer buf s else s)"
    by (cases "readUInt16BE buf 3", auto simp: handleSync_def handleDictReset_def signed_by_member_def eval_in_def split: sum.splits option.splits)+
qed

section \<open>Membership changes\<close>

lemma notifyMembers_keeps:
  "members (state_of (notifyMembers P convId s)) = members s" "creator (state_of (notifyMembers P convId s)) = creator s"
  by (rule core_stateD(3) [OF core_notifyMembers], rule core_stateD(4) [OF core_notifyMembers])

lemma handleKeyReq_rooms:
  assumes "decodeKeyReq buf = Inr req"
  shows "members (state_of (handleKeyReq P buf s))
      = set2 (ensure (members s) (kr_convId req)) (kr_convId req) (kr_senderId req) (kr_clientPubKey req)"
    and "\<not> has (members s) (kr_convId req) \<Longrightarrow>
      map_of (creator (state_of (handleKeyReq P buf s))) (kr_convId req) = Some (kr_senderId req)"
  using assms by (auto simp: handleKeyReq_def Let_def notifyMembers_keeps ensure_def split: option.splits)


lemma drop_member_rooms:
  fixes i :: nat and P :: prims
  assumes "map_of (members s) convId = Some mems"
  defines "ms \<equiv> AList.delete i mems" and "t \<equiv> state_of (drop_member P (Some i) convId s)"
  shows "map_of (members t) = (map_of (members s))(convId := if ms = [] then None else Some ms)"
    and "map_of (creator t) = (if map_of (creator s) convId = Some i
           then (map_of (creator s))(convId := if ms = [] then None else Some (Min (fst ` set ms)))
           else map_of (creator s))"
proof -
  let ?u = "elect_successor convId i ms (s\<lparr>members := AList.update convId ms (members s)\<rparr>)"
  let ?v = "if ms = [] then ?u\<lparr>members := AList.delete convId (members ?u)\<rparr> else ?u"
  have t: "t = state_of (notifyMembers P convId ?v)"
    using assms(1) by (simp add: t_def drop_member_def Let_def ms_def)
  have core: "core_state t = core_state ?v" unfolding t by simp
  have u: "members ?u = AList.update convId ms (members s)"
    "map_of (creator ?u) = (if map_of (creator s) convId = Some i
       then (map_of (creator s))(convId := if ms = [] then None else Some (Min (fst ` set ms))) else map_of (creator s))"
    by (auto simp: elect_successor_def elect_Min)
  show "map_of (members t) = (map_of (members s))(convId := if ms = [] then None else Some ms)"
    using core_stateD(3) [OF core] u(1) by (cases "ms = []") auto
  show "map_of (creator t) = (if map_of (creator s) convId = Some i
      then (map_of (creator s))(convId := if ms = [] then None else Some (Min (fst ` set ms)))
      else map_of (creator s))"
    using core_stateD(4) [OF core] u(2) by (cases "ms = []") auto
qed

text \<open>An announcement that meets a key it cannot use throws.\<close>

lemma notify_loop_throws:
  assumes "(m, pub) \<in> set ms" "ecdhSecret P (serverECDH s) pub = None"
  shows "raised (notify_loop P convId roster ms s)"
  using assms
proof (induction P convId roster ms s rule: notify_loop.induct)
  case (2 P convId roster m1 pub1 ms s)
  show ?case
  proof (cases "pairwiseKey P (serverECDH s) pub1")
    case (Inr k)
    then have "(m, pub) \<in> set ms" using "2.prems" by (auto simp: pairwiseKey_def)
    moreover have "serverECDH (sendToPeer b p (s\<lparr>draws := n\<rparr>)) = serverECDH s" for b p n
      by (simp add: sendToPeer_def)
    ultimately show ?thesis
      using "2.prems"(2) "2.IH" Inr by (auto simp: Let_def eval_in_def split: option.splits sum.splits)
  qed simp
qed simp

lemma removePeer_throws:
  assumes "left_convs peerId s = [convId]" "map_of (peerIdentity s) peerId = Some i"
    and "map_of (members s) convId = Some mems" "(m, pub) \<in> set mems" "m \<noteq> i"
    and "ecdhSecret P (serverECDH s) pub = None"
  shows "raised (removePeer P peerId s)"
proof -
  let ?ms = "AList.delete i mems"
  have m: "(m, pub) \<in> set ?ms" using assms(4,5) by (auto simp: AList.delete_eq)
  then have ne: "?ms \<noteq> []" by auto
  let ?u = "elect_successor convId i ?ms ((leave_groups peerId s)\<lparr>members := AList.update convId ?ms (members s)\<rparr>)"
  have u: "members ?u = AList.update convId ?ms (members s)" "serverECDH ?u = serverECDH s"
    by (auto simp: elect_successor_def leave_groups_def split: option.splits)
  have "removePeer P peerId s = and_then (notifyMembers P convId ?u) (drop_member_loop P (Some i) [])"
    using assms(1-3) ne by (simp add: removePeer_def drop_member_def Let_def leave_groups_def)
  moreover have "notifyMembers P convId ?u = notify_loop P convId ?ms ?ms ?u"
    by (simp add: notifyMembers_def u)
  moreover have "raised (notify_loop P convId ?ms ?ms ?u)"
    using m assms(6) u(2) by (intro notify_loop_throws) auto
  ultimately show ?thesis by (cases "notify_loop P convId ?ms ?ms ?u") auto
qed

section \<open>Identity and admission\<close>

lemma rate_limit_fresh:
  assumes "p_lastPacketTime peer = None"
  shows "\<exists>peer'. rate_limit now peer = (peer', False) \<and> p_id peer' = p_id peer \<and> p_type peer' = p_type peer \<and>
    p_address peer' = p_address peer \<and> p_port peer' = p_port peer \<and> p_tcpSocket peer' = p_tcpSocket peer \<and> p_ws peer' = p_ws peer"
  using assms by (auto simp: rate_limit_def Let_def)

lemma clientMap_dispatch: "clientMap (state_of (dispatch P type convId buf peer s)) = clientMap s"
proof -
  have "clientMap (state_of (handleKeyReq P buf s)) = clientMap s"
  proof (cases "decodeKeyReq buf")
    case (Inr req)
    have "clientMap (state_of (notifyMembers P c t)) = clientMap t" for c t
      by (rule core_stateD(2) [OF core_notifyMembers])
    then show ?thesis using Inr by (simp add: handleKeyReq_def Let_def split: option.splits)
  qed (simp add: handleKeyReq_def)
  moreover have "clientMap (fanout c p b t) = clientMap t" for c p b t
    by (rule core_stateD(2) [OF core_fanout])
  then have "clientMap (state_of (handleData buf peer convId s)) = clientMap s"
    by (simp add: handleData_def Let_def eval_in_def split: option.splits sum.splits)
  ultimately show ?thesis
    using core_stateD(2) [OF core_relays(1)] core_stateD(2) [OF core_relays(2)] core_stateD(2) [OF core_relays(3)]
      core_stateD(2) [OF core_relays(4)] core_stateD(2) [OF core_handleNack]
    by (simp add: dispatch_def)
qed

lemma route_rebound:
  assumes "readUInt8 buf 0 = Inr type" "type \<noteq> TYPE_DATA" "readUInt16BE buf 1 = Inr convId" "readUInt16BE buf 3 = Inr senderId"
  shows "get2 (clientMap (state_of (handle_try P buf peer s))) convId senderId = Some peer"
proof -
  have "5 \<le> length buf" using readUIntBE_range [OF assms(4)] by simp
  then show ?thesis using assms by (simp add: handle_try_def learnIdentity_def clientMap_dispatch)
qed

lemma handle_try_data:
  assumes "readUInt8 buf 0 = Inr TYPE_DATA" "readUInt16BE buf 1 = Inr convId"
  shows "handle_try P buf peer s = handleData buf peer convId (joinGroup s convId peer)"
  using assms by (simp add: handle_try_def learnIdentity_def dispatch_def)

lemma others_join: "others (joinGroup s convId peer) convId peer = others s convId peer"
  by (auto simp: others_def joinGroup_def Let_def find_None_iff has_def sub_def)

text \<open>What a packet does before its branch is entered leaves the rooms alone.\<close>

lemma joinGroup_keeps:
  "members (joinGroup s convId peer) = members s" "creator (joinGroup s convId peer) = creator s"
  "messageCache (joinGroup s convId peer) = messageCache s" "highestSeq (joinGroup s convId peer) = highestSeq s"
  "serverECDH (joinGroup s convId peer) = serverECDH s" "outbox (joinGroup s convId peer) = outbox s"
  "closed (joinGroup s convId peer) = closed s" "wsOpen (joinGroup s convId peer) = wsOpen s"
  by (simp_all add: joinGroup_def Let_def)

lemma handle_try_sync:
  assumes "readUInt8 buf 0 = Inr type" "type \<in> {TYPE_SYNC, 0x06}" "readUInt16BE buf 1 = Inr convId" "digests_sized P"
  obtains pi cm where "state_of (handle_try P buf peer s) =
    (let t = (joinGroup s convId peer)\<lparr>peerIdentity := pi, clientMap := cm\<rparr>
     in if signed_by_member P s convId buf then fanout convId peer buf t else t)"
proof -
  have signed: "signed_by_member P ((joinGroup s convId peer)\<lparr>peerIdentity := pi, clientMap := cm\<rparr>) convId buf
      = signed_by_member P s convId buf" for pi cm
    by (simp add: signed_by_member_def joinGroup_keeps)
  have branch: "state_of (dispatch P type convId buf peer t) = (if signed_by_member P t convId buf then fanout convId peer buf t else t)" for t
    using assms(2) verified_relay [OF assms(4), of buf peer convId t] by (auto simp: dispatch_def TYPE_defs)
  let ?j = "joinGroup s convId peer"
  have "\<exists>pi cm. learnIdentity type convId buf peer ?j = Done (?j\<lparr>peerIdentity := pi, clientMap := cm\<rparr>)"
  proof (cases "5 \<le> length buf")
    case True
    then obtain i where "readUInt16BE buf 3 = Inr i" by (auto simp: readUIntBE_def)
    then show ?thesis using assms(2) True by (auto simp: learnIdentity_def TYPE_defs)
  next
    case False
    then show ?thesis by (intro exI [of _ "peerIdentity ?j"] exI [of _ "clientMap ?j"]) (simp add: learnIdentity_def)
  qed
  then obtain pi cm where "learnIdentity type convId buf peer ?j = Done (?j\<lparr>peerIdentity := pi, clientMap := cm\<rparr>)" by blast
  then show ?thesis
    using assms(1,3) branch signed by (intro that [of cm pi]) (simp add: handle_try_def)
qed

end
