(* ===== verification/Dart_Server_Props.thy ===== *)
theory Dart_Server_Props
  imports Dart_Relay
begin

text \<open>
  The properties of \<^verbatim>\<open>server.ts\<close>: what holds in every reachable state of the relay, who gets which
  packet, what is refused, how rooms change hands, and where the code departs from its comments.
\<close>

section \<open>States for the witnesses\<close>

definition peer_a :: Peer where
  "peer_a = (fresh_peer ''a'' Udp)\<lparr>p_address := Some ''ha'', p_port := Some 1\<rparr>"

definition peer_b :: Peer where
  "peer_b = (fresh_peer ''b'' Udp)\<lparr>p_address := Some ''hb'', p_port := Some 2\<rparr>"

definition room_server :: Server where
  "room_server = (init_server [1] (\<lambda>w. False))
     \<lparr>groups := [(5, [peer_a, peer_b])], peerIdentity := [(''a'', 7), (''b'', 9)],
      clientMap := [(5, [(7, peer_a), (9, peer_b)])],
      members := [(5, [(7, ecdhPublic demo [7]), (9, ecdhPublic demo [9])])], creator := [(5, 7)]\<rparr>"

text \<open>A data packet of conversation 5 with sequence number 3.\<close>

definition data_bytes :: buffer where
  "data_bytes = [1, 0, 5, 0, 0, 3]"

lemma data_bytes_reads:
  "readUInt8 data_bytes 0 = Inr TYPE_DATA" "readUInt16BE data_bytes 1 = Inr 5" "readUIntBE data_bytes 3 3 = Inr 3"
  by code_simp+

lemma room_server_simps [simp]:
  "closed room_server = False" "outbox room_server = []" "messageCache room_server = []" "highestSeq room_server = []"
  "peerIdentity room_server = [(''a'', 7), (''b'', 9)]" "groups room_server = [(5, [peer_a, peer_b])]"
  "members room_server = [(5, [(7, ecdhPublic demo [7]), (9, ecdhPublic demo [9])])]" "creator room_server = [(5, 7)]"
  "serverECDH room_server = [1]" "p_id peer_a = ''a''" "p_id peer_b = ''b''"
  by (simp_all add: room_server_def init_server_def peer_a_def peer_b_def fresh_peer_def)

lemma room_server_inv: "server_inv room_server"
  by (simp add: server_inv_def groups_ok_def rooms_ok_def routed_def cache_ok_def is_map_def)
    (simp add: room_server_def sub_def)

section \<open>Every reachable state\<close>

text \<open>
  C16. In every state the relay can reach, a conversation has a roster exactly when it has a creator,
  the creator is on the roster, and there is a transport peer to reach the creator by. In particular
  the branch of KEY_REQ that hands creatorship over because "the recorded creator has no live
  transport peer" is never taken.
\<close>

theorem creator_is_member:
  assumes "server_started s" "(server_step P)\<^sup>*\<^sup>* s t"
  shows "(has (members t) convId \<longleftrightarrow> has (creator t) convId) \<and>
    (case map_of (creator t) convId of None \<Rightarrow> True
     | Some c \<Rightarrow> has (sub (members t) convId) c \<and> has (sub (clientMap t) convId) c)"
proof -
  have inv: "rooms_ok (members t) (creator t)" "routed (members t) (clientMap t)"
    using srv.inv_reach [OF assms] by (simp_all add: server_inv_def)
  from inv(1) have "room_ok (map_of (members t) convId) (map_of (creator t) convId)"
    by (simp add: rooms_ok_def)
  then show ?thesis
    using inv(2) [unfolded routed_def, rule_format, of convId]
    by (cases "map_of (members t) convId") (auto simp: has_def [of "members t"] has_def [of "creator t"] sub_def [of "members t"]
        split: option.splits)
qed

theorem creator_is_member_witness:
  "\<exists>t. server_step demo (init_server [1] (\<lambda>w. False)) t \<and>
    (has (members t) 5 \<longleftrightarrow> has (creator t) 5) \<and>
    (case map_of (creator t) 5 of None \<Rightarrow> True
     | Some c \<Rightarrow> has (sub (members t) 5) c \<and> has (sub (clientMap t) 5) c)"
proof -
  let ?s = "init_server [1] (\<lambda>w. False)" and ?t = "onUdpMessage demo 0 [4, 0, 5, 0, 7] ''ha'' 1 (init_server [1] (\<lambda>w. False))"
  have step: "server_step demo ?s ?t" by (rule server_step.udp)
  have "server_started ?s" by (auto simp: server_started_def)
  then show ?thesis using creator_is_member [of ?s demo ?t 5] step by blast
qed

text \<open>
  C17. In every reachable state the repair cache of a sender holds at most 201 packets, under
  pairwise different sequence numbers, and every packet in it is a data packet of that conversation
  with the sequence number it is filed under.
\<close>

theorem cache_bounded_and_faithful:
  assumes "server_started s" "(server_step P)\<^sup>*\<^sup>* s t"
  shows "length (sub (sub (messageCache t) convId) senderId) \<le> 201 \<and>
    distinct (map fst (sub (sub (messageCache t) convId) senderId)) \<and>
    (\<forall>(seq, buf) \<in> set (sub (sub (messageCache t) convId) senderId).
       readUInt8 buf 0 = Inr TYPE_DATA \<and> readUInt16BE buf 1 = Inr convId \<and> readUIntBE buf 3 3 = Inr seq)"
proof -
  have "cache_ok (messageCache t)" using srv.inv_reach [OF assms] by (simp add: server_inv_def)
  then show ?thesis by (auto simp: cache_ok_def Let_def seq_keys_def is_map_def is_data_def)
qed

theorem cache_bounded_and_faithful_witness:
  "\<exists>t. server_step demo (init_server [1] (\<lambda>w. False)) t \<and> length (sub (sub (messageCache t) 5) 7) \<le> 201"
proof -
  let ?s = "init_server [1] (\<lambda>w. False)" and ?t = "onUdpMessage demo 0 data_bytes ''ha'' 1 (init_server [1] (\<lambda>w. False))"
  have step: "server_step demo ?s ?t" by (rule server_step.udp)
  have "server_started ?s" by (auto simp: server_started_def)
  then show ?thesis using cache_bounded_and_faithful [of ?s demo ?t 5 7] step by blast
qed

section \<open>Data\<close>

text \<open>
  C23. A data packet from a peer whose identity is known goes, unchanged and once, to every other
  peer of the conversation, in group order, and not back to its sender.
\<close>

theorem data_reaches_every_other_peer:
  assumes "server_inv s" "\<not> closed s" "map_of (peerIdentity s) (p_id peer) = Some i"
    and "readUInt8 buf 0 = Inr TYPE_DATA" "readUInt16BE buf 1 = Inr convId" "readUIntBE buf 3 3 = Inr seq"
  shows "outbox (state_of (handle_try P buf peer s)) = outbox s @ transmit_all buf (others s convId peer) (wsOpen s) \<and>
    distinct (map p_id (others s convId peer)) \<and> p_id peer \<notin> p_id ` set (others s convId peer) \<and>
    (\<forall>p \<in> set (sub (groups s) convId). p_id p \<noteq> p_id peer \<longrightarrow> p \<in> set (others s convId peer))"
proof (intro conjI)
  let ?j = "joinGroup s convId peer"
  have j: "\<not> closed ?j" "map_of (peerIdentity ?j) (p_id peer) = Some i" using assms(2,3) by simp_all
  show "outbox (state_of (handle_try P buf peer s)) = outbox s @ transmit_all buf (others s convId peer) (wsOpen s)"
    using handleData_outbox [OF j assms(6)] by (simp add: handle_try_data [OF assms(4,5)] others_join)
  have "distinct (map p_id (sub (groups s) convId))"
    using assms(1) by (simp add: server_inv_def groups_ok_sub)
  then show "distinct (map p_id (others s convId peer))"
    by (auto simp: others_def distinct_map inj_on_def)
qed (auto simp: others_def)

theorem data_reaches_every_other_peer_witness:
  "outbox (state_of (handle_try demo data_bytes peer_a room_server)) = [UdpSend ''hb'' 2 data_bytes]"
  using data_reaches_every_other_peer [OF room_server_inv _ _ data_bytes_reads, of peer_a 7 demo]
  by (simp add: others_def transmit_all_def sub_def)
    (simp add: peer_b_def fresh_peer_def transmit_def truthy_address_def truthy_port_def)

text \<open>
  A data packet from a transport peer that never sent a control packet is dropped: nothing is
  sent and nothing is cached (only the peer's place in the group remains).
\<close>

lemma unknown_peer_data_dropped:
  assumes "map_of (peerIdentity s) (p_id peer) = None" "readUInt8 buf 0 = Inr TYPE_DATA" "readUInt16BE buf 1 = Inr convId"
  shows "handle_try P buf peer s = Done (joinGroup s convId peer)"
    and "outbox (joinGroup s convId peer) = outbox s" "messageCache (joinGroup s convId peer) = messageCache s"
  using assms by (simp_all add: handle_try_data handleData_def)

text \<open>
  C14. Once a data packet that is not stale has been accepted from a sender, a NACK that names its
  sequence number and that sender is answered with the very bytes of that packet.
\<close>

theorem nack_answered_from_cache:
  assumes "\<not> closed s" "map_of (peerIdentity s) (p_id peer) = Some i"
    and "readUInt8 buf 0 = Inr TYPE_DATA" "readUInt16BE buf 1 = Inr convId" "readUIntBE buf 3 3 = Inr seq"
    and "\<forall>h. get2 (highestSeq s) convId i = Some h \<longrightarrow> seqDelta h seq < SEQ_MOD div 2"
    and "stripControlFrame nackbuf = Some body" "parseNack body = Inr nk"
    and "nk_convId nk = convId" "nk_targetId nk = i" "seq \<in> set (nk_missingSeq nk)"
  shows "set (transmit buf asker (wsOpen s))
    \<subseteq> set (outbox (state_of (handleNack nackbuf asker (state_of (handle_try P buf peer s)))))"
proof -
  let ?j = "joinGroup s convId peer" and ?t = "state_of (handle_try P buf peer s)"
  have t: "?t = state_of (handleData buf peer convId ?j)" using handle_try_data [OF assms(3,4)] by simp
  have j: "map_of (peerIdentity ?j) (p_id peer) = Some i" using assms(2) by simp
  have fresh: "\<And>h. get2 (highestSeq ?j) convId i = Some h \<Longrightarrow> seqDelta h seq < 8388608"
    using assms(6) by (simp add: SEQ_MOD_val)
  note data = handleData_caches [OF j assms(5) fresh]
  have "map_of (sub (sub (messageCache ?t) (nk_convId nk)) (nk_targetId nk)) seq = Some buf"
    using data(1) assms(9,10) unfolding t by simp
  moreover have "\<not> closed ?t" "wsOpen ?t = wsOpen s" using data(2,3) assms(1) unfolding t by simp_all
  ultimately show ?thesis using handleNack_repairs [OF _ assms(7,8,11)] by metis
qed

text \<open>A signed NACK of member 9 for packet 3 of member 7, as bytes.\<close>

definition demo_nack :: NackDart where
  "demo_nack = \<lparr>nk_type = TYPE_NACK, nk_convId = 5, nk_senderId = 9, nk_targetId = 7, nk_missingSeq = [3]\<rparr>"

theorem nack_answered_from_cache_witness:
  "\<exists>f. UdpSend ''hb'' 2 data_bytes
    \<in> set (outbox (state_of (handleNack f peer_b (state_of (handle_try demo data_bytes peer_a room_server)))))"
proof -
  let ?body = "nack_header demo_nack (replicate 12 0)" and ?f = "signControlFrame demo (nack_header demo_nack (replicate 12 0)) []"
  have strip: "stripControlFrame ?f = Some ?body" by (rule strip_sign [OF demo_contracts(1)])
  have parse: "parseNack ?body = Inr demo_nack"
    using parseNack_layout [of "replicate 12 0" demo_nack "[]"]
    by (simp add: wf_nack_def demo_nack_def TYPE_NACK_def)
  have "set (transmit data_bytes peer_b (wsOpen room_server))
      \<subseteq> set (outbox (state_of (handleNack ?f peer_b (state_of (handle_try demo data_bytes peer_a room_server)))))"
    by (rule nack_answered_from_cache [OF _ _ data_bytes_reads _ strip parse]) (simp_all add: demo_nack_def)
  moreover have "UdpSend ''hb'' 2 data_bytes \<in> set (transmit data_bytes peer_b (wsOpen room_server))"
    by (simp add: peer_b_def fresh_peer_def transmit_def truthy_address_def truthy_port_def)
  ultimately show ?thesis by blast
qed

section \<open>Control frames\<close>

text \<open>
  C24. A SYNC or Dict-Reset packet is relayed exactly when it is signed with the pairwise key of the
  server and the member it claims to come from; then it goes to every other peer of the
  conversation. Otherwise nothing is sent at all. Either way rosters, creators, the cache and the
  newest sequence numbers stay as they were; what the packet can change, signed or not, is only the
  relay's idea of who is where (the peers of the conversation, the peer's identity and the route).
\<close>

theorem sync_and_reset_relayed_iff_signed:
  assumes "digests_sized P" "\<not> closed s"
    and "readUInt8 buf 0 = Inr type" "type \<in> {TYPE_SYNC, 0x06}" "readUInt16BE buf 1 = Inr convId"
  shows "outbox (state_of (handle_try P buf peer s)) = outbox s @
      (if signed_by_member P s convId buf then transmit_all buf (others s convId peer) (wsOpen s) else []) \<and>
    members (state_of (handle_try P buf peer s)) = members s \<and> creator (state_of (handle_try P buf peer s)) = creator s \<and>
    messageCache (state_of (handle_try P buf peer s)) = messageCache s \<and>
    highestSeq (state_of (handle_try P buf peer s)) = highestSeq s"
proof -
  obtain pi cm where run: "state_of (handle_try P buf peer s) =
      (let t = (joinGroup s convId peer)\<lparr>peerIdentity := pi, clientMap := cm\<rparr>
       in if signed_by_member P s convId buf then fanout convId peer buf t else t)"
    using handle_try_sync [OF assms(3-5,1)] by blast
  let ?t = "(joinGroup s convId peer)\<lparr>peerIdentity := pi, clientMap := cm\<rparr>"
  have "others ?t convId peer = others s convId peer"
    using others_join [of s convId peer] by (simp add: others_def)
  then show ?thesis
    using assms(2) core_stateD [OF core_fanout [of convId peer buf ?t]]
    by (simp add: run Let_def fanout_outbox joinGroup_keeps)
qed

theorem sync_and_reset_relayed_iff_signed_witness:
  "\<exists>k. pairwiseKey demo [1] (ecdhPublic demo [7]) = Inr k \<and>
    outbox (state_of (handle_try demo (signControlFrame demo [3, 0, 5, 0, 7] k) peer_a room_server))
      = [UdpSend ''hb'' 2 (signControlFrame demo [3, 0, 5, 0, 7] k)] \<and>
    outbox (state_of (handle_try demo [3, 0, 5, 0, 7] peer_a room_server)) = []"
proof -
  obtain k where k: "pairwiseKey demo [1] (ecdhPublic demo [7]) = Inr k" by (simp add: pairwiseKey_def demo_def)
  let ?f = "signControlFrame demo [3, 0, 5, 0, 7] k"
  have u: "readUInt8 [3, 0, 5, 0, 7] 0 = Inr 3" "readUInt16BE [3, 0, 5, 0, 7] 1 = Inr 5" by code_simp+
  have reads: "readUInt8 ([3, 0, 5, 0, 7] @ m) 0 = Inr 3" "readUInt16BE ([3, 0, 5, 0, 7] @ m) 1 = Inr 5"
    "readUInt16BE ([3, 0, 5, 0, 7] @ m) 3 = Inr 7" for m :: buffer
    by (simp_all add: readUIntBE_def unbe_def)
  have f: "readUInt8 ?f 0 = Inr 3" "readUInt16BE ?f 1 = Inr 5" "readUInt16BE ?f 3 = Inr 7"
    using reads by (simp_all add: signControlFrame_def)
  then have "signed_by_member demo room_server 5 ?f"
    using k by (auto simp: signed_by_member_def get2_def sub_def)
  moreover have "\<not> signed_by_member demo room_server 5 [3, 0, 5, 0, 7]"
  proof
    assume "signed_by_member demo room_server 5 [3, 0, 5, 0, 7]"
    then obtain body k where "[3, 0, 5, 0, 7] = signControlFrame demo body k" by (auto simp: signed_by_member_def)
    then have "length [3, 0, 5, 0, 7 :: 8 word] = length (signControlFrame demo body k)" by simp
    then show False by (simp add: signControlFrame_def digest_lengths [OF demo_contracts(1)])
  qed
  moreover have "others room_server 5 peer_a = [peer_b]" by (simp add: others_def sub_def)
  moreover have "transmit ?f peer_b (wsOpen room_server) = [UdpSend ''hb'' 2 ?f]"
    by (simp add: transmit_def peer_b_def fresh_peer_def truthy_address_def truthy_port_def)
  ultimately show ?thesis
    using sync_and_reset_relayed_iff_signed [OF demo_contracts(1) _ f(1) _ f(2), of room_server peer_a]
      sync_and_reset_relayed_iff_signed [OF demo_contracts(1) _ u(1) _ u(2), of room_server peer_a] k
    by (auto simp: transmit_all_def TYPE_defs)
qed

text \<open>
  C39. The transport peer the relay sends a member's traffic to is the last one from which any
  non-data packet claiming that member's id arrived, whether or not the packet is authentic: the
  binding is made before any signature is checked.
\<close>

theorem route_follows_unverified_claim:
  assumes "readUInt8 buf 0 = Inr type" "type \<noteq> TYPE_DATA" "readUInt16BE buf 1 = Inr convId" "readUInt16BE buf 3 = Inr senderId"
  shows "get2 (clientMap (state_of (handle_try P buf peer s))) convId senderId = Some peer"
  using route_rebound [OF assms] .

theorem route_follows_unverified_claim_witness:
  "get2 (clientMap room_server) 5 7 = Some peer_a \<and>
   get2 (clientMap (state_of (handle_try demo [3, 0, 5, 0, 7] peer_b room_server))) 5 7 = Some peer_b"
proof
  have "readUInt8 [3, 0, 5, 0, 7] 0 = Inr 3" "readUInt16BE [3, 0, 5, 0, 7] 1 = Inr 5" "readUInt16BE [3, 0, 5, 0, 7] 3 = Inr 7"
    by code_simp+
  then show "get2 (clientMap (state_of (handle_try demo [3, 0, 5, 0, 7] peer_b room_server))) 5 7 = Some peer_b"
    by (intro route_follows_unverified_claim [where type = 3]) (simp_all add: TYPE_DATA_def)
  show "get2 (clientMap room_server) 5 7 = Some peer_a"
    by (simp add: room_server_def get2_def sub_def)
qed

text \<open>
  C40. The rate limiter never drops a packet: every transport hands \<^verbatim>\<open>handleMessage\<close> a new \<^verbatim>\<open>Peer\<close>
  object, whose packet counter starts at 0.
\<close>

theorem rate_limiter_never_drops:
  "(\<exists>peer. p_id peer = endpoint ''udp'' address port \<and>
      onUdpMessage P now msg address port s = state_of (handle_try P msg peer (count_received s))) \<and>
   (\<exists>peer. p_id peer = endpoint ''ws'' address port \<and>
      onWsMessage P now w address port msg s = state_of (handle_try P msg peer (count_received s))) \<and>
   (\<exists>peer. p_id peer = endpoint ''tcp'' address port \<and>
      onTcpData P now socket address port kept msg s
        = tcp_loop (\<lambda>s payload. state_of (handle_try P payload peer (count_received s))) s (kept @ msg))"
proof -
  have admitted: "\<exists>peer'. p_id peer' = p_id peer \<and> (\<forall>buf s. handleMessage P now buf peer s = state_of (handle_try P buf peer' s))"
    if "p_lastPacketTime peer = None" for peer
    using rate_limit_fresh [OF that, of now] by (auto simp: handleMessage_def)
  show ?thesis
    unfolding onUdpMessage_def onWsMessage_def onTcpData_def
    using admitted [of "(fresh_peer (endpoint ''udp'' address port) Udp)\<lparr>p_address := Some address, p_port := Some port\<rparr>"]
      admitted [of "(fresh_peer (endpoint ''ws'' address port) Ws)\<lparr>p_ws := Some w\<rparr>"]
      admitted [of "(fresh_peer (endpoint ''tcp'' address port) Tcp)\<lparr>p_tcpSocket := Some socket\<rparr>"]
    by (auto simp: fresh_peer_def)
qed

section \<open>Membership\<close>

text \<open>
  C26. KEY_REQ: afterwards the requester is on the roster with the key it sent (the last request
  wins), every other entry is as before, and the first requester of a conversation is its creator.
\<close>

theorem join_registers_member:
  fixes P :: prims and s :: Server
  assumes "decodeKeyReq buf = Inr req"
  defines "t \<equiv> state_of (handleKeyReq P buf s)"
  shows "get2 (members t) (kr_convId req) (kr_senderId req) = Some (kr_clientPubKey req) \<and>
    (\<forall>convId i. (convId, i) \<noteq> (kr_convId req, kr_senderId req) \<longrightarrow> get2 (members t) convId i = get2 (members s) convId i) \<and>
    (\<not> has (members s) (kr_convId req) \<longrightarrow> map_of (creator t) (kr_convId req) = Some (kr_senderId req))"
proof -
  note m = handleKeyReq_rooms [OF assms(1), where P = P and s = s, folded t_def]
  have "get2 (members t) (kr_convId req) (kr_senderId req) = Some (kr_clientPubKey req)"
    "(convId, i) \<noteq> (kr_convId req, kr_senderId req) \<Longrightarrow> get2 (members t) convId i = get2 (members s) convId i" for convId i
    by (auto simp: m(1)) (simp_all add: get2_def)
  then show ?thesis using m(2) by blast
qed

theorem join_registers_member_witness:
  "get2 (members (state_of (handleKeyReq demo ([4, 0, 5, 0, 3] @ replicate 16 0 @ [8]) room_server))) 5 3 = Some [8]"
proof -
  let ?r = "\<lparr>kr_type = 4, kr_convId = 5, kr_senderId = 3, kr_reqNonce = replicate 16 0, kr_clientPubKey = [8]\<rparr>"
  have "be 1 4 = [4]" "be 2 5 = [0, 5]" "be 2 3 = [0, 3]" by code_simp+
  then have "decodeKeyReq ([4, 0, 5, 0, 3] @ replicate 16 0 @ [8]) = Inr ?r"
    using decodeKeyReq_layout [of ?r] by (simp add: wf_keyreq_def)
  from join_registers_member [OF this] show ?thesis by simp
qed

text \<open>
  C25. When a member leaves, it is taken off the roster and nobody else is; the room disappears with
  its last member; and if the creator left, the smallest remaining id is the new creator. Other
  conversations keep their rosters and creators.
\<close>

theorem departure_elects_smallest:
  fixes i :: nat and P :: prims
  assumes "map_of (members s) convId = Some mems"
  defines "t \<equiv> state_of (drop_member P (Some i) convId s)"
  shows "map_of (sub (members t) convId) = (map_of mems)(i := None) \<and>
    (has (members t) convId \<longleftrightarrow> (\<exists>j. j \<noteq> i \<and> has mems j)) \<and>
    (map_of (creator s) convId = Some i \<longrightarrow>
      map_of (creator t) convId = (if \<exists>j. j \<noteq> i \<and> has mems j then Some (LEAST j. j \<noteq> i \<and> has mems j) else None)) \<and>
    (\<forall>c. c \<noteq> convId \<longrightarrow> map_of (members t) c = map_of (members s) c \<and> map_of (creator t) c = map_of (creator s) c)"
proof (intro conjI impI allI)
  let ?ms = "AList.delete i mems"
  note rooms = drop_member_rooms [OF assms(1), where i = i and P = P, folded t_def]
  have ids: "fst ` set ?ms = {j. j \<noteq> i \<and> has mems j}"
    by (auto simp: has_iff_key AList.delete_eq image_iff)
  then have empty: "?ms = [] \<longleftrightarrow> \<not> (\<exists>j. j \<noteq> i \<and> has mems j)"
    by (metis (mono_tags, lifting) empty_Collect_eq image_is_empty set_empty)
  have "sub (members t) convId = ?ms" using rooms(1) by (auto simp: sub_def)
  then show "map_of (sub (members t) convId) = (map_of mems)(i := None)" by simp
  show "has (members t) convId \<longleftrightarrow> (\<exists>j. j \<noteq> i \<and> has mems j)"
    using rooms(1) empty by (auto simp: has_def [of "members t"])
  show "map_of (creator t) convId = (if \<exists>j. j \<noteq> i \<and> has mems j then Some (LEAST j. j \<noteq> i \<and> has mems j) else None)"
    if that: "map_of (creator s) convId = Some i"
  proof (cases "\<exists>j. j \<noteq> i \<and> has mems j")
    case True
    have "finite {j. j \<noteq> i \<and> has mems j}" using ids by (metis finite_imageI finite_set)
    then have "Min {j. j \<noteq> i \<and> has mems j} = (LEAST j. j \<noteq> i \<and> has mems j)"
      using True by (intro Least_Min [symmetric]) auto
    then show ?thesis using True rooms(2) that empty ids by auto
  next
    case False
    then show ?thesis using rooms(2) that empty by auto
  qed
  show "map_of (members t) c = map_of (members s) c" "map_of (creator t) c = map_of (creator s) c" if "c \<noteq> convId" for c
    using rooms that by auto
qed

theorem departure_elects_smallest_witness:
  "map_of (creator (state_of (drop_member demo (Some 7) 5 room_server))) 5 = Some 9"
proof -
  let ?m = "[(7 :: nat, ecdhPublic demo [7]), (9, ecdhPublic demo [9])]"
  have "map_of (creator (state_of (drop_member demo (Some 7) 5 room_server))) 5
      = (if \<exists>j. j \<noteq> 7 \<and> has ?m j then Some (LEAST j. j \<noteq> 7 \<and> has ?m j) else None)"
    using departure_elects_smallest [of room_server 5 ?m demo 7] by simp
  moreover have "(LEAST j. j \<noteq> 7 \<and> has ?m j) = 9" by (rule Least_equality) auto
  moreover have "\<exists>j. j \<noteq> 7 \<and> has ?m j" by (rule exI [of _ 9]) simp
  ultimately show ?thesis by simp
qed

text \<open>
  C38. If a member left on the roster registered bytes that are no public key (KEY_REQ does not check
  them), the notification sent when another member's connection closes throws out of
  \<^verbatim>\<open>removePeer\<close>, which no caller catches.
\<close>

theorem departure_throws_on_bad_key:
  assumes "left_convs peerId s = [convId]" "map_of (peerIdentity s) peerId = Some i"
    and "map_of (members s) convId = Some mems" "(m, pub) \<in> set mems" "m \<noteq> i"
    and "ecdhSecret P (serverECDH s) pub = None"
  shows "raised (removePeer P peerId s)"
  using removePeer_throws [OF assms] .

theorem departure_throws_on_bad_key_witness:
  "raised (removePeer demo ''a'' (room_server\<lparr>members := [(5, [(7, ecdhPublic demo [7]), (9, [])])]\<rparr>))"
  by (rule departure_throws_on_bad_key [where convId = 5 and m = 9 and pub = "[]" and i = 7
        and mems = "[(7, ecdhPublic demo [7]), (9, [])]"])
    (simp_all add: left_convs_def demo_def)

end
