(* ===== verification/Dart_Client_Inv.thy ===== *)
theory Dart_Client_Inv
  imports Dart_Exchange
begin

text \<open>
  The client as a state machine, and the invariant of its reachable states: histories are maps
  from sequence numbers to the messages that carry them, of bounded size, and every buffered packet
  is the data packet its key says.
\<close>

section \<open>The invariant\<close>

definition history where
  "history c = (c_senderId c, c_nextSeq c, c_highestSentSeq c, c_sentMessages c, c_receivedMessages c,
     c_outOfOrderBuffer c, c_highestReceivedSeq c)"

lemma history_core: "client_core c = client_core d \<Longrightarrow> history c = history d"
  unfolding history_def by (simp add: client_core_def)

definition msgs_ok :: "nat \<Rightarrow> (nat, DataDart) jsmap \<Rightarrow> bool" where
  "msgs_ok sender m \<longleftrightarrow> seq_keys m \<and> length m \<le> 217 \<and> (\<forall>(k, d) \<in> set m. dd_seq d = k \<and> dd_senderId d = sender)"

definition buffer_ok :: "nat \<Rightarrow> (nat, buffer) jsmap \<Rightarrow> bool" where
  "buffer_ok sender m \<longleftrightarrow> seq_keys m \<and>
     (\<forall>(k, b) \<in> set m. readUIntBE b 3 3 = Inr k \<and> readUInt16BE b 7 = Inr sender)"

text \<open>What a history promises its readers, written out.\<close>

definition filed :: "nat \<Rightarrow> (nat, DataDart) jsmap \<Rightarrow> bool" where
  "filed sender m \<longleftrightarrow> length m \<le> 217 \<and> distinct (map fst m) \<and>
     (\<forall>(k, d) \<in> set m. k < SEQ_MOD \<and> dd_seq d = k \<and> dd_senderId d = sender)"

lemma msgs_ok_filed: "msgs_ok s m \<Longrightarrow> filed s m"
  by (auto simp: filed_def msgs_ok_def seq_keys_def is_map_def SEQ_MOD_val)

definition client_inv :: "Client \<Rightarrow> bool" where
  "client_inv c \<longleftrightarrow> c_nextSeq c < 16777216 \<and> c_highestSentSeq c < 16777216 \<and>
     msgs_ok (c_senderId c) (c_sentMessages c) \<and>
     (\<forall>s. msgs_ok s (sub (c_receivedMessages c) s)) \<and>
     (\<forall>s. buffer_ok s (sub (c_outOfOrderBuffer c) s)) \<and>
     (\<forall>s h. map_of (c_highestReceivedSeq c) s = Some h \<longrightarrow> h < 16777216)"

lemma client_inv_history:
  assumes "history c = history d"
  shows "client_inv c = client_inv d"
  using assms by (auto simp: client_inv_def history_def)

lemma msgs_ok_Nil [simp]: "msgs_ok s []"
  by (simp add: msgs_ok_def)

lemma buffer_ok_Nil [simp]: "buffer_ok s []"
  by (simp add: buffer_ok_def)

lemma new_client_inv: "client_inv (new_client port sid ecdh secs)"
  by (simp add: client_inv_def new_client_def)

text \<open>Inserting a message and pruning behind any reference point keeps a history well formed.\<close>

lemma msgs_ok_push:
  assumes "msgs_ok s m" "k < 16777216" "dd_seq d = k" "dd_senderId d = s"
  shows "msgs_ok s (window_gc (DICT_WINDOW + 16) ref (AList.update k d m))"
proof -
  have keys: "seq_keys (AList.update k d m)"
    using assms by (intro seq_keys_update) (auto simp: msgs_ok_def)
  have "length (window_gc 216 ref (AList.update k d m)) \<le> 217"
    using gc.gc_bounded [OF keys, of 216 ref] by simp
  moreover have "dd_seq e = j \<and> dd_senderId e = s" if "(j, e) \<in> set (window_gc 216 ref (AList.update k d m))" for j e
    using gc.gc_keys [OF that] assms by (auto simp: msgs_ok_def dest!: in_set_update)
  ultimately show ?thesis
    using gc.gc_seq_keys [OF keys] by (auto simp: msgs_ok_def DICT_WINDOW_def)
qed

section \<open>What leaves the histories alone\<close>

lemma history_simps [simp]:
  "history (c\<lparr>c_draws := n\<rparr>) = history c" "history (setChain i e j s c) = history c"
  "history (c\<lparr>c_chainSeeds := x\<rparr>) = history c" "history (c\<lparr>c_chainSharedWith := y\<rparr>) = history c"
  "history (applyRoster pub info c) = history c" "history (c\<lparr>c_stats := z\<rparr>) = history c"
  "history (c\<lparr>c_ackedSeq := aa\<rparr>) = history c"
  by (simp_all add: history_def setChain_def applyRoster_def Let_def)

lemmas history_keeps [simp] = history_core [OF core_sharing(1)] history_core [OF core_sharing(2)]
  history_core [OF client_core_schedule(3)] history_core [OF client_core_schedule(1)]
  history_core [OF core_share_chain_loop] history_core [OF core_share_key_loop]
  history_core [OF client_core_broadcast]
  history_core [OF client_core_control(1)] history_core [OF client_core_control(2)]
  history_core [OF client_core_control(3)] history_core [OF client_core_control(4)]
  history_core [OF client_core_control(5)] history_core [OF client_core_control(6)]

lemma history_initOwnChain [simp]: "history (state_of (initOwnChain P i e c)) = history c"
  by (simp add: initOwnChain_def with_random_def Let_def)

lemma history_adoptKey [simp]: "history (state_of (adoptKey P i e key c)) = history c"
  unfolding adoptKey_def Let_def
  by (intro core_state_of_and_then) (simp_all, simp add: history_def)

lemma history_pruneOldEpochs [simp]: "history (pruneOldEpochs i c) = history c"
  by (auto simp: pruneOldEpochs_def Let_def split: option.splits intro!: fold_keeps) (simp_all add: history_def)

lemma history_rekey [simp]: "history (state_of (rekey P i c)) = history c"
  unfolding rekey_def with_random_def by (auto intro!: core_state_of_and_then)

lemma history_handleMemberInfo [simp]: "history (state_of (handleMemberInfo P buf c)) = history c"
  by (auto simp: handleMemberInfo_def eval_in_def Let_def with_random_def split: sum.splits
      intro!: core_state_of_and_then)

lemma history_handleKeyShare [simp]: "history (state_of (handleKeyShare P buf c)) = history c"
  by (auto simp: handleKeyShare_def eval_in_def Let_def split: sum.splits option.splits)

lemma history_handleChainShare [simp]: "history (state_of (handleChainShare P buf c)) = history c"
  by (auto simp: handleChainShare_def eval_in_def Let_def split: sum.splits option.splits)

lemma core_retransmit_loop [simp]: "client_core (state_of (retransmit_loop P seqs c)) = client_core c"
proof (induction seqs arbitrary: c)
  case (Cons seq seqs)
  have "client_core (state_of (and_then (broadcast b d) (\<lambda>c. retransmit_loop P seqs (startOptimisticTimer seq
      (clearTimeout (map_of (c_optimisticTimers c) seq)
        (c\<lparr>c_messageStatus := AList.update seq Sent (c_messageStatus c)\<rparr>)))))) = client_core d" for b d
    using Cons.IH by (intro core_state_of_and_then) simp_all
  with Cons.IH show ?case
    by (auto simp: with_random_def eval_in_def Let_def split: option.splits sum.splits)
qed simp

lemma history_onNack [simp]: "history (state_of (onNack P buf c)) = history c"
proof -
  have "history (state_of (and_then (retransmit_loop P seqs d) (\<lambda>c. case get2 (c_chainSeeds c) i (e c) of
      None \<Rightarrow> Done c | Some seed \<Rightarrow> sendChainShare P i (e c) j seed c))) = history d" for seqs i j e d
    by (intro core_state_of_and_then) (auto simp: history_core [OF core_retransmit_loop] split: option.splits)
  then show ?thesis
    by (auto simp: onNack_def eval_in_def Let_def split: sum.splits option.splits)
qed

lemma history_onAck [simp]: "history (state_of (onAck P buf c)) = history c"
  by (auto simp: onAck_def eval_in_def split: sum.splits option.splits)

section \<open>What changes them keeps the invariant\<close>

lemma client_invD:
  assumes "client_inv c"
  shows "c_nextSeq c < 16777216" "c_highestSentSeq c < 16777216" "msgs_ok (c_senderId c) (c_sentMessages c)"
    "msgs_ok s (sub (c_receivedMessages c) s)" "buffer_ok s (sub (c_outOfOrderBuffer c) s)"
    "map_of (c_highestReceivedSeq c) s = Some h \<Longrightarrow> h < 16777216"
  using assms by (auto simp: client_inv_def)

lemma sub_pruneReceived:
  "sub (c_receivedMessages (pruneReceived i c)) s
    = (if s = i \<and> has (c_receivedMessages c) i
       then window_gc (DICT_WINDOW + 16) (or_default (map_of (c_highestReceivedSeq c) i) 0) (sub (c_receivedMessages c) i)
       else sub (c_receivedMessages c) s)"
  by (auto simp: pruneReceived_def Let_def has_def sub_def split: option.splits)

lemma processDataPacket_inv:
  assumes inv: "client_inv c" and seq: "seq < 16777216"
  shows "client_inv (state_of (processDataPacket P dec i seq c))"
proof -
  have cleared: "client_inv (c\<lparr>c_receivedMessages := AList.update i [] (c_receivedMessages c)\<rparr>)"
    using inv by (simp add: client_inv_def)
  have ensured: "client_inv (c\<lparr>c_receivedMessages := ensure (c_receivedMessages c) i\<rparr>)"
    using inv by (simp add: client_inv_def)
  have stored: "client_inv ((setTimeout t ms (clearTimeout h (pruneReceived i e)))\<lparr>c_ackTimers := at\<rparr>)"
    if "dd_seq dart = seq" "dd_senderId dart = i"
      and e: "e = c\<lparr>c_receivedMessages := set2 (ensure (c_receivedMessages c) i) i seq dart\<rparr> \<or>
        e = c\<lparr>c_receivedMessages := set2 (ensure (c_receivedMessages c) i) i seq dart,
              c_highestReceivedSeq := AList.update i seq (c_highestReceivedSeq c)\<rparr>"
    for dart e t ms h at
  proof -
    have "sub (c_receivedMessages e) s = sub (set2 (ensure (c_receivedMessages c) i) i seq dart) s" for s
      using e by auto
    then have "msgs_ok s (sub (c_receivedMessages (pruneReceived i e)) s)" for s
      using that(1,2) client_invD(4) [OF inv] seq e
      by (auto simp: sub_pruneReceived sub_set2 intro!: msgs_ok_push)
    moreover have "c_nextSeq (pruneReceived i e) = c_nextSeq c" "c_highestSentSeq (pruneReceived i e) = c_highestSentSeq c"
      "c_senderId (pruneReceived i e) = c_senderId c" "c_sentMessages (pruneReceived i e) = c_sentMessages c"
      "c_highestReceivedSeq (pruneReceived i e) = c_highestReceivedSeq e" "c_outOfOrderBuffer e = c_outOfOrderBuffer c"
      using e by (auto simp: pruneReceived_def Let_def split: option.splits)
    ultimately have "client_inv (pruneReceived i e)"
      using inv e seq by (auto simp: client_inv_def split: if_splits)
    moreover have core: "client_core ((setTimeout t ms (clearTimeout h (pruneReceived i e)))\<lparr>c_ackTimers := at\<rparr>)
        = client_core (pruneReceived i e)" by simp
    ultimately show ?thesis by (simp only: client_inv_history [OF history_core [OF core]])
  qed
  note reset = client_inv_history [OF history_core [OF client_core_control(4)]]
  show ?thesis
    using cleared ensured inv
    by (auto simp: processDataPacket_def Let_def reset stored [OF _ _ disjI1 [OF refl]] stored [OF _ _ disjI2 [OF refl]]
        split: sum.splits)
qed

lemma decryptDataInOrder_inv:
  assumes "client_inv c" "decryptDataInOrder P buf i c = Inr (Some (dec, c'))"
  shows "client_inv c'"
proof -
  have "history c' = history c"
    using assms(2) by (auto simp: decryptDataInOrder_def Let_def case_prod_unfold split: option.splits if_splits sum.splits)
  then show ?thesis using assms(1) client_inv_history by blast
qed

lemma processBuffered_inv: "client_inv c \<Longrightarrow> seq < 16777216 \<Longrightarrow> client_inv (processBuffered P raw i seq c)"
  by (auto simp: processBuffered_def processDataPacket_inv decryptDataInOrder_inv split: sum.splits option.splits)

lemma buffer_ok_delete: "buffer_ok s m \<Longrightarrow> buffer_ok s (AList.delete k m)"
  by (auto simp: buffer_ok_def seq_keys_def AList.delete_eq is_map_def distinct_map inj_on_def)

lemma buffered_loop_inv: "client_inv c \<Longrightarrow> seq < 16777216 \<Longrightarrow> client_inv (buffered_loop P i seq c)"
proof (induction P i seq c rule: buffered_loop.induct)
  case (1 P i seq c)
  show ?case
  proof (cases "map_of (sub (c_outOfOrderBuffer c) i) seq")
    case None
    with 1 show ?thesis by (simp add: buffered_loop.simps)
  next
    case (Some raw)
    have "client_inv (c\<lparr>c_outOfOrderBuffer := AList.update i (AList.delete seq (sub (c_outOfOrderBuffer c) i)) (c_outOfOrderBuffer c)\<rparr>)"
      using "1.prems"(1) by (simp add: client_inv_def buffer_ok_delete)
    then show ?thesis
      using "1.IH" [OF Some] "1.prems"(2) Some
      by (subst buffered_loop.simps) (simp add: processBuffered_inv)
  qed
qed

lemma buffer_ok_insert:
  assumes "buffer_ok s m" "readUIntBE b 3 3 = Inr k" "readUInt16BE b 7 = Inr s"
  shows "buffer_ok s (AList.update k b m)"
  using assms readUIntBE_bound [OF assms(2)] by (auto simp: buffer_ok_def seq_keys_update dest!: in_set_update)

lemma onData_inv:
  assumes inv: "client_inv c"
  shows "client_inv (state_of (onData P buf c))"
proof (cases "readUInt16BE buf 1")
  case (Inr convId)
  note conv = Inr
  show ?thesis
  proof (cases "readUIntBE buf 3 3")
    case (Inr seq)
    note seq = Inr
    have lt: "seq < 16777216" using readUIntBE_bound [OF seq] by simp
    show ?thesis
    proof (cases "readUInt16BE buf 7")
      case (Inr p)
      let ?c = "noteSeen p seq c"
      have c: "client_inv ?c" using inv client_inv_history [OF history_core [OF client_core_simps(16)]] by blast
      have buffered: "client_inv (?c\<lparr>c_outOfOrderBuffer := set2 (c_outOfOrderBuffer ?c) p seq buf\<rparr>)"
        using c seq Inr by (auto simp: client_inv_def sub_set2 buffer_ok_insert)
      have nacked: "client_inv (state_of (and_then (sendNack P convId p l d) (\<lambda>c. Done (scheduleNackRetry convId p c)))) = client_inv d" for l d
        by (rule client_inv_history [OF history_core [OF client_core_nack_and_retry]])
      have next_inv: "client_inv (state_of (and_then (processDataPacket P dec p seq d) (\<lambda>c. Done (processBufferedPackets P p c))))"
        if "client_inv d" for d dec
        by (rule state_of_and_then [of client_inv])
          (auto simp: processDataPacket_inv [OF that lt] processBufferedPackets_def intro!: buffered_loop_inv)
      have "client_inv (state_of (eval_in ?c (decryptDataInOrder P buf p ?c) (\<lambda>r. case r of None \<Rightarrow> Done ?c
          | Some (dec, c) \<Rightarrow> and_then (processDataPacket P dec p seq c) (\<lambda>c. Done (processBufferedPackets P p c)))))"
        using c decryptDataInOrder_inv [OF c] next_inv by (auto simp: eval_in_def split: sum.splits option.splits)
      then show ?thesis
        using conv seq Inr c buffered nacked inv
        by (cases "readUInt8 buf 6") (simp_all add: onData_def Let_def)
    qed (use conv seq inv in \<open>simp add: onData_def eval_in_def split: sum.splits\<close>)
  qed (use conv inv in \<open>simp add: onData_def\<close>)
qed (use inv in \<open>simp add: onData_def\<close>)

lemma onSync_inv: "client_inv c \<Longrightarrow> client_inv (state_of (onSync P buf c))"
proof -
  assume inv: "client_inv c"
  have seen: "client_inv (noteSeen i s c)" for i s
    using inv client_inv_history [OF history_core [OF client_core_simps(16)]] by blast
  have ensured: "client_inv d \<Longrightarrow> client_inv (d\<lparr>c_receivedMessages := ensure (c_receivedMessages d) i\<rparr>)" for i d
    by (simp add: client_inv_def)
  have nacked: "client_inv (state_of (and_then (sendNack P a p l d) (\<lambda>c. Done (scheduleNackRetry a p c)))) = client_inv d" for a p l d
    by (rule client_inv_history [OF history_core [OF client_core_nack_and_retry]])
  show ?thesis
    using inv seen by (auto simp: onSync_def eval_in_def Let_def nacked ensured split: option.splits sum.splits)
qed

lemma onDictReset_inv: "client_inv c \<Longrightarrow> client_inv (state_of (onDictReset P buf c))"
  by (auto simp: onDictReset_def eval_in_def client_inv_def split: option.splits sum.splits)

lemma client_handleMessage_inv: "client_inv c \<Longrightarrow> client_inv (client_handleMessage P buf c)"
  by (cases "readUInt8 buf 0")
    (simp_all add: client_handleMessage_def client_try_def onData_inv onSync_inv onDictReset_inv
      client_inv_history [OF history_handleChainShare] client_inv_history [OF history_onNack]
      client_inv_history [OF history_handleKeyShare] client_inv_history [OF history_handleMemberInfo]
      client_inv_history [OF history_onAck])

lemma sendData_inv:
  assumes inv: "client_inv c"
  shows "client_inv (state_of (sendData P convId payload c))"
proof -
  let ?c = "c\<lparr>c_nextSeq := seqNext (c_nextSeq c)\<rparr>"
  have c: "client_inv ?c" using inv by (simp add: client_inv_def)
  define e where "e = or_default (map_of (c_currentEpochs ?c) convId) 1"
  define dart where "dart = \<lparr>dd_type = TYPE_DATA, dd_convId = convId, dd_senderId = c_senderId c,
      dd_seq = c_nextSeq c, dd_payload = payload\<rparr>"
  define d where "d k s = (setChain convId e (c_senderId c) s ?c)\<lparr>c_highestSentSeq := c_nextSeq c,
      c_sentMessages := AList.update (c_nextSeq c) dart (c_sentMessages c), c_messageKeys := k\<rparr>" for k s
  have stored: "client_inv ((pruneSent (d k s))\<lparr>c_messageStatus := st, c_draws := n\<rparr>)" for k s st n
  proof -
    have "msgs_ok (c_senderId c) (window_gc (DICT_WINDOW + 16) (c_nextSeq c)
        (AList.update (c_nextSeq c) dart (c_sentMessages c)))"
      using client_invD(1,3) [OF inv] by (intro msgs_ok_push) (simp_all add: dart_def)
    then show ?thesis
      using c inv by (simp add: client_inv_def pruneSent_eq d_def)
  qed
  have sent: "client_inv (state_of (and_then (broadcast b f) (\<lambda>c. Done (startOptimisticTimer q (scheduleProbe convId c)))))
      = client_inv f" for b f q
    by (rule client_inv_history [OF history_core], rule core_state_of_and_then) simp_all
  show ?thesis
  proof (cases "getChain convId e (c_senderId c) c")
    case None
    then show ?thesis using c by (simp add: sendData_def Let_def e_def)
  next
    case (Some chain)
    obtain k s where adv: "advanceChain P chain (cs_index chain) = (k, s)" by force
    show ?thesis
      using Some adv stored [unfolded d_def dart_def] sent
      by (simp add: sendData_def Let_def e_def with_random_def eval_in_def split: sum.splits)
  qed
qed

lemma history_probe [simp]: "history (state_of (probe P i c)) = history c"
  unfolding probe_def Let_def
  by (intro core_state_of_and_then) (simp_all add: history_core [OF client_core_schedule(2)])

lemma history_nackRetry [simp]: "history (state_of (nackRetry P i j c)) = history c"
proof -
  have "history (state_of (and_then (sendNack P i j l d) (\<lambda>c. Done (scheduleNackRetry i j c)))) = history d" for l d
    by (rule history_core [OF client_core_nack_and_retry])
  then show ?thesis
    by (auto simp: nackRetry_def Let_def split: option.splits) (simp_all add: history_def)
qed

lemma history_run_task: "history (state_of (run_task P t c)) = history c"
  by (cases t) (simp_all add: with_random_def, simp add: history_def)

lemma history_fire: "history (state_of (fire P h c)) = history c"
  by (auto simp: fire_def history_run_task history_core [OF client_core_simps(15)] split: option.splits)

lemma history_joinConversation: "history (state_of (joinConversation P i c)) = history c"
proof -
  have "history (state_of (and_then (sendKeyReq r d) (\<lambda>c. Done (setTimeout t x (setTimeout u y (setTimeout v z c)))))) = history d"
    for r d t x u y v z
    by (rule core_state_of_and_then) (simp_all add: history_core [OF client_core_simps(14)])
  then show ?thesis by (simp add: joinConversation_def with_random_def Let_def)
qed

lemma history_close: "history (client_close c) = history c"
proof -
  have "history (fold (\<lambda>t. clearTimeout (Some t)) ts d) = history d" for ts d
    by (rule fold_keeps) (rule history_core [OF client_core_simps(15)])
  moreover have "history (clearTimeout h d) = history d" for h d by (rule history_core [OF client_core_simps(15)])
  ultimately show ?thesis by (simp add: client_close_def Let_def) (simp add: history_def)
qed

section \<open>The client as a machine\<close>

text \<open>
  One rule per event: a datagram (perhaps dropped by the simulated loss), bytes from the TCP
  fallback, the public methods and a timer that fires. Any pending timer may fire at any moment; an
  exception that leaves a public method or a callback keeps the state reached.
\<close>

inductive client_step :: "prims \<Rightarrow> Client \<Rightarrow> Client \<Rightarrow> bool" for P where
  cl_udp: "client_step P c (onUdp P lost msg c)"
| cl_tcp: "client_step P c (fst (onFallbackData P kept data c))"
| cl_send: "client_step P c (state_of (sendData P convId payload c))"
| cl_join: "client_step P c (state_of (joinConversation P convId c))"
| cl_timer: "client_step P c (state_of (fire P h c))"
| cl_peer: "client_step P c (addPeer address port c)"
| cl_pin: "client_step P c (setServerFingerprint fp c)"
| cl_fallback: "client_step P c (enableFallback sock c)"
| cl_nofallback: "client_step P c (disableFallback c)"
| cl_close: "client_step P c (client_close c)"

inductive_cases client_stepE: "client_step P c d"

definition client_started :: "Client \<Rightarrow> bool" where
  "client_started c \<longleftrightarrow> (\<exists>port sid ecdh secs. c = new_client port sid ecdh secs)"

lemma count_bytes_inv [simp]: "client_inv (count_bytes b c) = client_inv c"
  by (rule client_inv_history [OF history_core [OF client_core_simps(17)]])

lemma client_step_inv:
  assumes inv: "client_inv c" and "client_step P c d"
  shows "client_inv d"
  using assms(2)
proof cases
  case (cl_tcp kept data)
  then show ?thesis
    using tcp_loop_inv [of client_inv, OF _ inv] by (simp add: onFallbackData_def client_handleMessage_inv)
next
  case (cl_udp lost msg)
  then show ?thesis using inv by (simp add: onUdp_def client_handleMessage_inv)
next
  case (cl_join convId)
  then show ?thesis using inv client_inv_history [OF history_joinConversation] by simp
next
  case (cl_timer h)
  then show ?thesis using inv client_inv_history [OF history_fire] by simp
next
  case (cl_send convId payload)
  then show ?thesis using inv by (simp add: sendData_inv)
next
  case cl_close
  then show ?thesis using inv client_inv_history [OF history_close] by simp
qed (use inv in \<open>auto simp: addPeer_def setServerFingerprint_def enableFallback_def disableFallback_def client_inv_def\<close>)

interpretation cli: machine client_started "client_step P" client_inv for P
  by unfold_locales (auto simp: client_started_def new_client_inv intro: client_step_inv)

section \<open>Pruned epochs\<close>

text \<open>Pruning removes exactly the keys more than four epochs old.\<close>

lemma pruneOldEpochs_keys:
  "c_currentEpochs (pruneOldEpochs i c) = c_currentEpochs c"
  "map_of (sub (c_roomKeys (pruneOldEpochs i c)) i) e
    = (if e + 4 < currentEpoch i c then None else map_of (sub (c_roomKeys c) i) e)"
proof -
  define f where "f d = (\<lambda>epoch (c :: Client). if epoch + 4 < or_default (map_of (c_currentEpochs d) i) 0
      then c\<lparr>c_roomKeys := AList.update i (AList.delete epoch (sub (c_roomKeys c) i)) (c_roomKeys c),
             c_chainSeeds := (if has (c_chainSeeds c) i
               then AList.update i (AList.delete epoch (sub (c_chainSeeds c) i)) (c_chainSeeds c) else c_chainSeeds c)\<rparr>
      else c)" for d :: Client
  have cur: "c_currentEpochs (fold (f d) es x) = c_currentEpochs x" for d es x
    by (rule fold_keeps) (simp add: f_def)
  have keys: "map_of (sub (c_roomKeys (fold (f d) es x)) i) e
      = (if e \<in> set es \<and> e + 4 < currentEpoch i d then None else map_of (sub (c_roomKeys x) i) e)" for d es x
    by (induction es arbitrary: x) (auto simp: f_def currentEpoch_def)
  have run: "pruneOldEpochs i c = (case map_of (c_roomKeys c) i of None \<Rightarrow> c | Some keys \<Rightarrow> fold (f c) (map fst keys) c)"
    unfolding pruneOldEpochs_def f_def Let_def by (rule refl)
  show "c_currentEpochs (pruneOldEpochs i c) = c_currentEpochs c"
    by (simp add: run cur split: option.splits)
  show "map_of (sub (c_roomKeys (pruneOldEpochs i c)) i) e
      = (if e + 4 < currentEpoch i c then None else map_of (sub (c_roomKeys c) i) e)"
  proof (cases "map_of (c_roomKeys c) i")
    case None
    then show ?thesis by (simp add: run sub_def)
  next
    case (Some m)
    then have m: "sub (c_roomKeys c) i = m" by (simp add: sub_def)
    have "e \<notin> set (map fst m) \<Longrightarrow> map_of m e = None" by (simp add: map_of_eq_None_iff)
    then show ?thesis by (simp only: run Some option.case keys m) auto
  qed
qed

end
