(* ===== verification/Dart_Pinning.thy ===== *)
theory Dart_Pinning
  imports Dart_Client_Inv
begin

text \<open>
  Pinning the relay. A client that was given the fingerprint of its server's key accepts rosters only
  under a key with that fingerprint. The fingerprint, the rosters and the server keys are the client's
  \<open>trust\<close>; only a roster announcement changes it, and the invariant \<open>pinned\<close> holds of every state
  the client can reach while the fingerprint is not set anew.
\<close>

section \<open>What leaves the trust alone\<close>

definition trust where
  "trust c = (c_serverFingerprint c, c_roster c, c_serverPubKeys c)"

lemma trust_core: "client_core c = client_core d \<Longrightarrow> trust c = trust d"
  unfolding trust_def by (simp add: client_core_def)

lemma trust_simps [simp]:
  "trust (c\<lparr>c_draws := n\<rparr>) = trust c" "trust (setChain i e j s c) = trust c"
  "trust (c\<lparr>c_chainSeeds := x\<rparr>) = trust c" "trust (c\<lparr>c_chainSharedWith := y\<rparr>) = trust c"
  "trust (c\<lparr>c_stats := z\<rparr>) = trust c" "trust (c\<lparr>c_ackedSeq := aa\<rparr>) = trust c"
  "trust (c\<lparr>c_receivedMessages := rm\<rparr>) = trust c" "trust (c\<lparr>c_sentMessages := sm\<rparr>) = trust c"
  "trust (c\<lparr>c_outOfOrderBuffer := ob\<rparr>) = trust c" "trust (c\<lparr>c_highestReceivedSeq := hs\<rparr>) = trust c"
  "trust (pruneReceived i c) = trust c" "trust (pruneSent c) = trust c"
  by (simp_all add: trust_def setChain_def pruneReceived_def pruneSent_eq Let_def split: option.splits)

lemmas trust_keeps [simp] = trust_core [OF core_sharing(1)] trust_core [OF core_sharing(2)]
  trust_core [OF client_core_schedule(1)] trust_core [OF client_core_schedule(2)]
  trust_core [OF client_core_schedule(3)] trust_core [OF client_core_schedule(4)]
  trust_core [OF core_share_chain_loop] trust_core [OF core_share_key_loop] trust_core [OF core_retransmit_loop]
  trust_core [OF client_core_broadcast] trust_core [OF client_core_nack_and_retry]
  trust_core [OF client_core_control(1)] trust_core [OF client_core_control(2)]
  trust_core [OF client_core_control(3)] trust_core [OF client_core_control(4)]
  trust_core [OF client_core_control(5)] trust_core [OF client_core_control(6)]
  trust_core [OF client_core_simps(6)] trust_core [OF client_core_simps(9)]
  trust_core [OF client_core_simps(14)] trust_core [OF client_core_simps(15)]
  trust_core [OF client_core_simps(16)] trust_core [OF client_core_simps(17)]

lemma trust_initOwnChain [simp]: "trust (state_of (initOwnChain P i e c)) = trust c"
  by (simp add: initOwnChain_def with_random_def Let_def)

lemma trust_adoptKey [simp]: "trust (state_of (adoptKey P i e key c)) = trust c"
  unfolding adoptKey_def Let_def by (intro core_state_of_and_then) (simp_all, simp add: trust_def)

lemma trust_pruneOldEpochs [simp]: "trust (pruneOldEpochs i c) = trust c"
  by (auto simp: pruneOldEpochs_def Let_def split: option.splits intro!: fold_keeps) (simp_all add: trust_def)

lemma trust_rekey [simp]: "trust (state_of (rekey P i c)) = trust c"
  unfolding rekey_def with_random_def by (auto intro!: core_state_of_and_then)

lemma trust_shares [simp]:
  "trust (state_of (handleKeyShare P buf c)) = trust c" "trust (state_of (handleChainShare P buf c)) = trust c"
  by (auto simp: handleKeyShare_def handleChainShare_def eval_in_def Let_def split: sum.splits option.splits)

lemma trust_onNack [simp]: "trust (state_of (onNack P buf c)) = trust c"
proof -
  have "trust (state_of (and_then (retransmit_loop P seqs d) (\<lambda>c. case get2 (c_chainSeeds c) i (e c) of
      None \<Rightarrow> Done c | Some seed \<Rightarrow> sendChainShare P i (e c) j seed c))) = trust d" for seqs i j e d
    by (intro core_state_of_and_then) (auto split: option.splits)
  then show ?thesis
    by (auto simp: onNack_def eval_in_def Let_def split: sum.splits option.splits)
qed

lemma trust_onAck [simp]: "trust (state_of (onAck P buf c)) = trust c"
  by (auto simp: onAck_def eval_in_def split: sum.splits option.splits)

lemma trust_onSync [simp]: "trust (state_of (onSync P buf c)) = trust c"
  by (auto simp: onSync_def eval_in_def Let_def split: option.splits sum.splits)

lemma trust_onDictReset [simp]: "trust (state_of (onDictReset P buf c)) = trust c"
  by (auto simp: onDictReset_def eval_in_def split: option.splits sum.splits)

lemma trust_processDataPacket [simp]: "trust (state_of (processDataPacket P dec i seq c)) = trust c"
  by (auto simp: processDataPacket_def Let_def split: sum.splits)

lemma trust_decrypt: "decryptDataInOrder P buf i c = Inr (Some (dec, c')) \<Longrightarrow> trust c' = trust c"
  by (auto simp: decryptDataInOrder_def Let_def case_prod_unfold split: option.splits if_splits sum.splits)

lemma trust_buffered_loop [simp]: "trust (buffered_loop P i seq c) = trust c"
proof (induction P i seq c rule: buffered_loop.induct)
  case (1 P i seq c)
  have "trust (processBuffered P raw i seq d) = trust d" for raw d
    by (auto simp: processBuffered_def dest!: trust_decrypt split: sum.splits option.splits)
  with 1 show ?case by (subst buffered_loop.simps) (simp split: option.split)
qed

lemma trust_onData [simp]: "trust (state_of (onData P buf c)) = trust c"
proof -
  have next_: "trust (state_of (and_then (processDataPacket P dec p seq d) (\<lambda>c. Done (processBufferedPackets P p c)))) = trust d"
    for dec p seq d
    by (rule core_state_of_and_then) (simp_all add: processBufferedPackets_def)
  have "trust (state_of (eval_in d (decryptDataInOrder P buf p d) (\<lambda>r. case r of None \<Rightarrow> Done d
      | Some (dec, c) \<Rightarrow> and_then (processDataPacket P dec p seq c) (\<lambda>c. Done (processBufferedPackets P p c))))) = trust d" for d p seq
    by (auto simp: eval_in_def next_ dest!: trust_decrypt split: sum.splits option.splits)
  then show ?thesis
    by (cases "readUInt16BE buf 1"; cases "readUIntBE buf 3 3"; cases "readUInt8 buf 6"; cases "readUInt16BE buf 7")
      (simp_all add: onData_def Let_def)
qed

lemma trust_sendData [simp]: "trust (state_of (sendData P convId payload c)) = trust c"
proof -
  have "trust (state_of (and_then (broadcast b f) (\<lambda>c. Done (startOptimisticTimer q (scheduleProbe convId c))))) = trust f" for b f q
    by (rule core_state_of_and_then) simp_all
  then show ?thesis
    by (auto simp: sendData_def Let_def with_random_def eval_in_def case_prod_unfold split: option.splits sum.splits)
      (simp_all add: trust_def setChain_def pruneSent_eq)
qed

lemma trust_run_task [simp]: "trust (state_of (run_task P t c)) = trust c"
proof -
  have "trust (state_of (probe P i d)) = trust d" for i d
    unfolding probe_def Let_def by (intro core_state_of_and_then) simp_all
  moreover have "trust (state_of (nackRetry P i j d)) = trust d" for i j d
    by (auto simp: nackRetry_def Let_def split: option.splits) (simp_all add: trust_def)
  ultimately show ?thesis by (cases t) (simp_all add: with_random_def)
qed

lemma trust_joinConversation [simp]: "trust (state_of (joinConversation P i c)) = trust c"
proof -
  have "trust (state_of (and_then (sendKeyReq r d) (\<lambda>c. Done (setTimeout t x (setTimeout u y (setTimeout v z c)))))) = trust d"
    for r d t x u y v z
    by (rule core_state_of_and_then) simp_all
  then show ?thesis by (simp add: joinConversation_def with_random_def Let_def)
qed

lemma trust_close [simp]: "trust (client_close c) = trust c"
proof -
  have "trust (fold (\<lambda>t. clearTimeout (Some t)) ts d) = trust d" for ts d by (rule fold_keeps) simp
  then show ?thesis by (simp add: client_close_def Let_def) (simp add: trust_def)
qed

section \<open>The invariant\<close>

definition pinned :: "prims \<Rightarrow> string \<Rightarrow> Client \<Rightarrow> bool" where
  "pinned P fp c \<longleftrightarrow> c_serverFingerprint c = fp \<and>
     (\<forall>convId. has (c_roster c) convId \<longrightarrow>
        (\<exists>pub. map_of (c_serverPubKeys c) convId = Some pub \<and> serverFingerprint P pub = fp)) \<and>
     (\<forall>convId pub. map_of (c_serverPubKeys c) convId = Some pub \<longrightarrow> serverFingerprint P pub = fp)"

lemma pinned_trust: "trust c = trust d \<Longrightarrow> pinned P fp c = pinned P fp d"
  by (simp add: pinned_def trust_def)

text \<open>The one place where trust is given.\<close>

lemma trust_handleMemberInfo:
  "trust (state_of (handleMemberInfo P buf c)) = trust c \<or>
   (\<exists>pub info. (c_serverFingerprint c = '''' \<or> serverFingerprint P pub = c_serverFingerprint c) \<and>
      trust (state_of (handleMemberInfo P buf c)) = trust (applyRoster pub info c))"
proof (cases "memberInfoServerKey buf")
  case (Inr pub)
  show ?thesis
  proof (cases "c_serverFingerprint c = '''' \<or> serverFingerprint P pub = c_serverFingerprint c")
    case True
    have "trust (state_of (handleMemberInfo P buf c)) = trust (applyRoster pub info c)"
      if "pairwiseKey P (c_clientECDH c) pub = Inr k" "decodeMemberInfo P buf k = Inr info" for k info
      using that True Inr unfolding handleMemberInfo_def
      by (auto simp: Let_def with_random_def intro!: core_state_of_and_then)
    with True Inr show ?thesis
      by (cases "pairwiseKey P (c_clientECDH c) pub"; force simp: handleMemberInfo_def split: sum.splits)
  qed (simp add: handleMemberInfo_def Inr)
qed (simp add: handleMemberInfo_def)

lemma pinned_handleMemberInfo:
  assumes "pinned P fp c" "fp \<noteq> ''''"
  shows "pinned P fp (state_of (handleMemberInfo P buf c))"
proof -
  have "pinned P fp (applyRoster pub info c)" if "serverFingerprint P pub = fp" for pub info
    using assms(1) that by (auto simp: pinned_def applyRoster_def Let_def has_def)
  moreover have "c_serverFingerprint c = fp" using assms(1) by (simp add: pinned_def)
  ultimately show ?thesis
    using trust_handleMemberInfo [of P buf c] assms pinned_trust by metis
qed

lemma pinned_handleMessage: "pinned P fp c \<Longrightarrow> fp \<noteq> '''' \<Longrightarrow> pinned P fp (client_handleMessage P buf c)"
  by (cases "readUInt8 buf 0")
    (simp_all add: client_handleMessage_def client_try_def pinned_handleMemberInfo pinned_trust [OF trust_onData]
      pinned_trust [OF trust_onSync] pinned_trust [OF trust_onDictReset] pinned_trust [OF trust_onNack]
      pinned_trust [OF trust_onAck] pinned_trust [OF trust_shares(1)] pinned_trust [OF trust_shares(2)])

text \<open>The steps that do not set another fingerprint.\<close>

definition pinned_step :: "prims \<Rightarrow> string \<Rightarrow> Client \<Rightarrow> Client \<Rightarrow> bool" where
  "pinned_step P fp c d \<longleftrightarrow> client_step P c d \<and> c_serverFingerprint d = fp"

lemma pinned_step_inv:
  assumes inv: "pinned P fp c" "fp \<noteq> ''''" and step: "pinned_step P fp c d"
  shows "pinned P fp d"
  using step [unfolded pinned_step_def, THEN conjunct1]
proof cases
  case (cl_tcp kept data)
  then show ?thesis
    using tcp_loop_inv [of "pinned P fp", OF _ inv(1)] inv(2) pinned_handleMessage
    by (simp add: onFallbackData_def pinned_trust [OF trust_core [OF client_core_simps(17)]])
next
  case (cl_udp lost msg)
  then show ?thesis
    using inv by (simp add: onUdp_def pinned_handleMessage pinned_trust [OF trust_core [OF client_core_simps(17)]])
next
  case (cl_pin fp')
  then show ?thesis using inv(1) step by (simp add: pinned_step_def pinned_def setServerFingerprint_def)
next
  case (cl_timer h)
  then have "trust d = trust c" by (auto simp: fire_def split: option.splits)
  then show ?thesis using inv(1) pinned_trust by blast
next
  case (cl_send convId payload)
  then show ?thesis using inv(1) pinned_trust [OF trust_sendData] by simp
next
  case (cl_join convId)
  then show ?thesis using inv(1) pinned_trust [OF trust_joinConversation] by simp
next
  case cl_close
  then show ?thesis using inv(1) pinned_trust [OF trust_close] by simp
qed (use inv(1) in \<open>auto simp: addPeer_def enableFallback_def disableFallback_def pinned_def\<close>)

definition pinned_start :: "string \<Rightarrow> Client \<Rightarrow> bool" where
  "pinned_start fp c \<longleftrightarrow> fp \<noteq> '''' \<and> (\<exists>port sid ecdh secs given. fp = js_lower (js_trim given) \<and>
     c = setServerFingerprint given (new_client port sid ecdh secs))"

interpretation pins: machine "pinned_start fp" "pinned_step P fp" "\<lambda>c. fp \<noteq> '''' \<and> pinned P fp c" for P fp
proof (unfold_locales, goal_cases)
  case (1 s)
  then show ?case by (auto simp: pinned_start_def pinned_def setServerFingerprint_def new_client_def)
qed (auto intro: pinned_step_inv)

end
