(* ===== verification/Dart_Client_Props.thy ===== *)
theory Dart_Client_Props
  imports Dart_Pinning
begin

text \<open>
  The properties of \<^verbatim>\<open>client.ts\<close>: delivery, retransmission, key and chain hand-over, rotation,
  what is refused, and where the recovery logic falls short of its comments.
\<close>

section \<open>States for the witnesses\<close>

definition hello_stream :: stream where
  "hello_stream = \<lparr>sm_conv = 5, sm_sender = 7, sm_epoch = 1, sm_seed = replicate 32 6, sm_first = 1, sm_idx0 = 0,
     sm_text = (\<lambda>n. [104])\<rparr>"

definition alice :: Client where
  "alice = (new_client 7 None [7] 300)\<lparr>c_peers := [(''relay'', 9000)],
     c_roster := [(5, [(7, ecdhPublic demo [7]), (9, ecdhPublic demo [9])])],
     c_senderChains := [(5, [(1, [(7, \<lparr>cs_key = replicate 32 6, cs_index = 0\<rparr>)])])]\<rparr>"

definition bob :: Client where
  "bob = (new_client 9 None [9] 300)\<lparr>c_peers := [(''relay'', 9000)],
     c_roster := [(5, [(7, ecdhPublic demo [7]), (9, ecdhPublic demo [9])])],
     c_senderChains := [(5, [(1, [(7, \<lparr>cs_key = replicate 32 6, cs_index = 0\<rparr>)])])]\<rparr>"

lemma alice_bob_simps [simp]:
  "c_senderId alice = 7" "c_nextSeq alice = 1" "c_sentMessages alice = []" "\<not> c_closed alice" "\<not> c_useFallback alice"
  "c_peers alice = [(''relay'', 9000)]" "c_currentEpochs alice = []" "c_messageKeys alice = []" "c_outbox alice = []"
  "c_senderId bob = 9" "c_highestReceivedSeq bob = []" "c_receivedMessages bob = []" "c_outOfOrderBuffer bob = []"
  "getChain 5 (Suc 0) 7 alice = Some \<lparr>cs_key = replicate 32 6, cs_index = 0\<rparr>"
  "getChain 5 (Suc 0) 7 bob = Some \<lparr>cs_key = replicate 32 6, cs_index = 0\<rparr>"
  "c_clientECDH alice = [7]" "c_clientECDH bob = [9]" "c_tcpSocket alice = None" "c_adoptedEpochs bob = []"
  by (simp_all add: alice_def bob_def new_client_def getChain_def get2_def sub_def)

lemma hello_simps [simp]:
  "sm_conv hello_stream = 5" "sm_sender hello_stream = 7" "sm_epoch hello_stream = 1" "sm_first hello_stream = 1"
  "sm_seed hello_stream = replicate 32 6" "sm_idx0 hello_stream = 0" "sm_text hello_stream = (\<lambda>n. [104])"
  by (simp_all add: hello_stream_def)

lemma hello_ok: "stream_ok demo hello_stream"
  by (simp add: stream_ok_def demo_contracts is_high_def is_low_def)

lemma hello_based: "recv_at demo hello_stream 1 (bob\<lparr>c_highestReceivedSeq := [(7, 0)]\<rparr>)"
  by (simp add: recv_at_def ready_at_def sm_hist_def sm_seq_def)
    (simp add: bob_def new_client_def getChain_def get2_def sub_def on_chain_def)

section \<open>Delivery\<close>

text \<open>
  C5. Reordering, duplication and retransmission do no harm. A receiver that expects message \<open>lo\<close>
  of a sender, with nothing buffered, is handed packets of the messages \<open>lo\<close> to \<open>N - 1\<close> in any order,
  each at least once, any of them several times and under any nonces. Then all of them have been
  processed: the history is the sender's, the highest sequence number is that of message \<open>N - 1\<close>, and
  the receiver expects message \<open>N\<close>. Sequence numbers may wrap in between.
\<close>

theorem any_order_delivers_all:
  assumes "stream_ok P \<sigma>" "sm_idx \<sigma> N \<le> 4294967296" "N < lo + 8388608" "lo < N"
    and "recv_at P \<sigma> lo c" "sub (c_outOfOrderBuffer c) (sm_sender \<sigma>) = []"
    and "list_all2 (is_frame P \<sigma>) js packets" "set js = {lo..<N}"
  shows "recv_at P \<sigma> N (fold (client_handleMessage P) packets c) \<and>
    sub (c_receivedMessages (fold (client_handleMessage P) packets c)) (sm_sender \<sigma>) = sm_hist \<sigma> N \<and>
    map_of (c_highestReceivedSeq (fold (client_handleMessage P) packets c)) (sm_sender \<sigma>) = Some ((N - 1) mod SEQ_MOD)"
proof (intro conjI)
  show r: "recv_at P \<sigma> N (fold (client_handleMessage P) packets c)"
    using reordered_delivers [OF assms(1-3,5,6,8) _ assms(7)] assms(4) by simp
  then show "sub (c_receivedMessages (fold (client_handleMessage P) packets c)) (sm_sender \<sigma>) = sm_hist \<sigma> N"
    "map_of (c_highestReceivedSeq (fold (client_handleMessage P) packets c)) (sm_sender \<sigma>) = Some ((N - 1) mod SEQ_MOD)"
    by (simp_all add: recv_at_def ready_at_def sm_seq_def SEQ_MOD_val)
qed

theorem any_order_delivers_all_witness:
  "sub (c_receivedMessages (fold (client_handleMessage demo)
      [sm_frame demo hello_stream (replicate 12 1) 2, sm_frame demo hello_stream (replicate 12 2) 2,
       sm_frame demo hello_stream (replicate 12 3) 1] (bob\<lparr>c_highestReceivedSeq := [(7, 0)]\<rparr>))) 7
    = sm_hist hello_stream 3"
proof -
  have packets: "list_all2 (is_frame demo hello_stream) [2, 2, 1]
    [sm_frame demo hello_stream (replicate 12 1) 2, sm_frame demo hello_stream (replicate 12 2) 2,
     sm_frame demo hello_stream (replicate 12 3) 1]"
    by (auto simp: is_frame_def intro: exI [of _ "replicate 12 1"] exI [of _ "replicate 12 2"] exI [of _ "replicate 12 3"])
  have "set [2, 2, 1 :: nat] = {1..<3}" by auto
  from any_order_delivers_all [OF hello_ok _ _ _ hello_based _ packets this]
  show ?thesis by (simp only: hello_simps) (simp add: sm_idx_def)
qed

text \<open>
  C6. A conversation. A sends any texts to B, each delivered (to every address A knows) before the
  next is sent; A has not sent anything yet, B has not received anything from A, and B holds A's
  ratchet chain at an index not beyond A's. Then every text arrives: B's history has each of the
  last 217 texts under its sequence number, and the newest is the highest B has seen.
\<close>

theorem conversation_delivers_texts:
  assumes P: "digests_sized P" "gcm_correct P" "deflate_lossless P" "random_sized P"
    and ids: "convId < 65536" "c_senderId a < 65536" "epoch < 65536" "c_senderId b \<noteq> c_senderId a"
    and a: "c_nextSeq a = 1" "c_sentMessages a = []" "or_default (map_of (c_currentEpochs a) convId) 1 = epoch"
      "getChain convId epoch (c_senderId a) a = Some s" "on_chain P seed s" "cs_index s + length texts \<le> 4294967296"
    and live: "\<not> c_closed a" "\<not> c_useFallback a" "c_peers a \<noteq> []"
    and b: "map_of (c_highestReceivedSeq b) (c_senderId a) = None" "sub (c_receivedMessages b) (c_senderId a) = []"
      "sub (c_outOfOrderBuffer b) (c_senderId a) = []"
      "getChain convId epoch (c_senderId a) b = Some t" "on_chain P seed t" "cs_index t \<le> cs_index s"
    and texts: "\<forall>x \<in> set texts. wf_utf16 x" "k < length texts" "length texts \<le> k + 217"
  shows "map_option dd_payload (get2 (c_receivedMessages (snd (converse P convId texts a b))) (c_senderId a) (Suc k mod SEQ_MOD))
      = Some (texts ! k) \<and>
    map_of (c_highestReceivedSeq (snd (converse P convId texts a b))) (c_senderId a) = Some (length texts mod SEQ_MOD)"
proof (intro conjI)
  define \<sigma> where "\<sigma> = \<lparr>sm_conv = convId, sm_sender = c_senderId a, sm_epoch = epoch, sm_seed = seed, sm_first = 1,
    sm_idx0 = cs_index s, sm_text = (\<lambda>n. if n - 1 < length texts then texts ! (n - 1) else [])\<rparr>"
  have f: "sm_conv \<sigma> = convId" "sm_sender \<sigma> = c_senderId a" "sm_epoch \<sigma> = epoch" "sm_first \<sigma> = 1" "sm_seed \<sigma> = seed"
    "sm_idx0 \<sigma> = cs_index s" "sm_text \<sigma> = (\<lambda>n. if n - 1 < length texts then texts ! (n - 1) else [])"
    by (simp_all add: \<sigma>_def)
  have ok: "stream_ok P \<sigma>" using P ids(1-3) texts(1) by (simp add: stream_ok_def f)
  have h1: "sm_hist \<sigma> 1 = []" by (simp add: sm_hist_def f)
  have sender: "sender_at P \<sigma> 1 a"
    using a h1 by (simp add: sender_at_def f sm_seq_def sm_idx_def)
  have ready: "ready_at P \<sigma> 1 b" "due \<sigma> 1 b"
    using ids(4) b h1 by (simp_all add: ready_at_def due_def f sm_seq_def sm_idx_def)
  obtain a' b' where run: "converse P convId texts a b = (a', b')" by (cases "converse P convId texts a b") auto
  have "recv_at P \<sigma> (1 + length texts) b'"
    using conversation [OF ok _ _ sender live(1) _ live(3) ready, of texts] a(6) live(2) b(3) texts(2) run
    by (auto simp: f sm_idx_def)
  then have r: "sub (c_receivedMessages b') (c_senderId a) = sm_hist \<sigma> (Suc (length texts))"
    "map_of (c_highestReceivedSeq b') (c_senderId a) = Some (length texts mod SEQ_MOD)"
    by (simp_all add: recv_at_def ready_at_def f sm_seq_def SEQ_MOD_val)
  have "map_of (sm_hist \<sigma> (Suc (length texts))) (sm_seq (Suc k)) = Some (sm_dart \<sigma> (Suc k))"
    using texts(2,3) by (intro map_of_hist) (auto simp: f)
  then show "map_option dd_payload (get2 (c_receivedMessages (snd (converse P convId texts a b))) (c_senderId a) (Suc k mod SEQ_MOD))
      = Some (texts ! k)"
    using r(1) texts(2) by (simp add: run get2_def sm_seq_def SEQ_MOD_val sm_dart_def f)
  show "map_of (c_highestReceivedSeq (snd (converse P convId texts a b))) (c_senderId a) = Some (length texts mod SEQ_MOD)"
    using r(2) by (simp add: run)
qed

theorem conversation_delivers_texts_witness:
  "map_option dd_payload (get2 (c_receivedMessages (snd (converse demo 5 [[104], [105]] alice bob))) 7 (Suc 1 mod SEQ_MOD)) = Some [105]"
proof -
  have "map_option dd_payload (get2 (c_receivedMessages (snd (converse demo 5 [[104], [105]] alice bob))) (c_senderId alice)
      (Suc 1 mod SEQ_MOD)) = Some ([[104], [105]] ! 1)"
    by (rule conjunct1 [OF conversation_delivers_texts [OF demo_contracts(1,2,5,6), where epoch = 1 and seed = "replicate 32 6"
        and s = "\<lparr>cs_key = replicate 32 6, cs_index = 0\<rparr>" and t = "\<lparr>cs_key = replicate 32 6, cs_index = 0\<rparr>"]])
      (simp_all add: is_high_def is_low_def)
  then show ?thesis by (simp only: alice_bob_simps) simp
qed

section \<open>Retransmission\<close>

text \<open>
  C15. The sender's answer to a NACK. While the sender's history still reaches 200 messages behind
  message \<open>j\<close> (it is at most 17 messages old, or the stream is young), the retransmission is again a
  packet of message \<open>j\<close>: same dictionary, same ratchet key, only a new nonce.
\<close>

theorem retransmission_repeats_message:
  assumes "stream_ok P \<sigma>" "sender_at P \<sigma> n c" "sm_first \<sigma> \<le> j" "j < n" "n \<le> j + 17 \<or> n \<le> sm_first \<sigma> + 217"
    and "\<not> c_closed c" "\<not> c_useFallback c"
  shows "\<exists>c' f. retransmit_loop P [j mod SEQ_MOD] c = Done c' \<and> is_frame P \<sigma> j f \<and>
    c_outbox c' = c_outbox c @ map (\<lambda>(address, port). UdpSend address port f) (c_peers c) \<and> client_core c' = client_core c"
  using retransmit_repeats [OF assms(1-6)] assms(7) by (auto simp: sm_seq_def SEQ_MOD_val)

lemma alice_after_hello:
  "\<exists>c. sendData demo 5 [104] alice = Done c \<and> sender_at demo hello_stream 2 c \<and> \<not> c_closed c \<and> \<not> c_useFallback c"
proof -
  have "sender_at demo hello_stream 1 alice"
    by (simp add: sender_at_def sm_hist_def sm_seq_def sm_idx_def)
  from sendData_sends [OF hello_ok this] show ?thesis by (auto simp: numeral_2_eq_2)
qed

theorem retransmission_repeats_message_witness:
  "\<exists>c c' f. sendData demo 5 [104] alice = Done c \<and> retransmit_loop demo [1 mod SEQ_MOD] c = Done c' \<and> is_frame demo hello_stream 1 f \<and>
    c_outbox c' = c_outbox c @ map (\<lambda>(address, port). UdpSend address port f) (c_peers c)"
proof -
  obtain c where c: "sendData demo 5 [104] alice = Done c" "sender_at demo hello_stream 2 c" "\<not> c_closed c" "\<not> c_useFallback c"
    using alice_after_hello by blast
  then show ?thesis
    using retransmission_repeats_message [OF hello_ok c(2), of 1] by fastforce
qed

text \<open>
  C36. Further back the history is gone: for a message more than 17 behind, in a stream of more than
  217 messages with non-empty texts, the sender compresses the retransmission against a dictionary
  that is not the one the message was first sent with, which is the one its receivers have.
\<close>

theorem late_retransmission_uses_other_dictionary:
  assumes st: "c_senderId c = sm_sender \<sigma>" "c_sentMessages c = sm_hist \<sigma> n"
    and "sm_first \<sigma> + 217 < n" "n - 217 \<le> j" "j + 17 < n"
    and "\<forall>k. utf8_encode (sm_text \<sigma> k) \<noteq> []"
  shows "getDictionary (c_senderId c) (j mod SEQ_MOD) c \<noteq> sm_dict \<sigma> j"
proof -
  let ?len = "\<lambda>a. length (concat (map (\<lambda>k. utf8_encode (sm_text \<sigma> k)) [a..<j]))"
  have d1: "getDictionary (c_senderId c) (j mod SEQ_MOD) c = concat (map (\<lambda>k. utf8_encode (sm_text \<sigma> k)) [n - 217..<j])"
    using dict_of_hist [of \<sigma> j n] assms(3-5) st by (simp add: getDictionary_def sm_seq_def SEQ_MOD_val max_def)
  define b where "b = max (sm_first \<sigma>) (j - 200)"
  have d2: "sm_dict \<sigma> j = concat (map (\<lambda>k. utf8_encode (sm_text \<sigma> k)) [b..<j])"
    using dict_of_hist [of \<sigma> j j] assms(3-5) by (simp add: sm_dict_def b_def)
  have lt: "b < n - 217" using assms(3,5) by (auto simp: b_def)
  have "[Suc b..<j] = [Suc b..<n - 217] @ [n - 217..<j]"
    using upt_add_eq_append [of "Suc b" "n - 217" "j - (n - 217)"] lt assms(4) by simp
  then have split: "[b..<j] = [b] @ [Suc b..<n - 217] @ [n - 217..<j]"
    using upt_conv_Cons [of b j] lt assms(4) by simp
  have "length (utf8_encode (sm_text \<sigma> b)) \<noteq> 0" using assms(6) by simp
  then have "length (sm_dict \<sigma> j) > length (concat (map (\<lambda>k. utf8_encode (sm_text \<sigma> k)) [n - 217..<j]))"
    unfolding d2 split by simp
  then show ?thesis unfolding d1 by auto
qed

theorem late_retransmission_uses_other_dictionary_witness:
  "getDictionary (c_senderId (alice\<lparr>c_sentMessages := sm_hist hello_stream 300\<rparr>)) (200 mod SEQ_MOD)
     (alice\<lparr>c_sentMessages := sm_hist hello_stream 300\<rparr>) \<noteq> sm_dict hello_stream 200"
proof (rule late_retransmission_uses_other_dictionary [where n = 300 and j = 200 and \<sigma> = hello_stream and c = "alice\<lparr>c_sentMessages := sm_hist hello_stream 300\<rparr>"])
  have "utf8_decode (utf8_encode [104]) = [104]" by (rule utf8_roundtrip) (simp add: is_high_def is_low_def)
  moreover have "utf8_decode [] = []" by (simp add: utf8_decode_def)
  ultimately have "utf8_encode [104] \<noteq> []" by auto
  then show "\<forall>k. utf8_encode (sm_text hello_stream k) \<noteq> []" by simp
qed simp_all

section \<open>Keys and chains\<close>

text \<open>
  C10. A chain share sent to a member of the roster is understood by it: the receiver's client then
  holds the sender's chain for that epoch, at the index the share had.
\<close>

theorem chain_share_is_adopted:
  assumes "contracts P" "acquainted P convId a b" "ids_fit convId a b" "epoch < 65536" "length (cs_key chain) = 32"
    and "\<not> c_closed a" "\<not> c_useFallback a"
  shows "\<exists>a' f. sendChainShare P convId epoch (c_senderId b) chain a = Done a' \<and>
    sent_since a a' = replicate (length (c_peers a)) f \<and>
    getChain convId epoch (c_senderId a) (client_handleMessage P f b)
      = Some \<lparr>cs_key = cs_key chain, cs_index = js_ushr0 (cs_index chain)\<rparr>"
proof -
  obtain a' f where "sendChainShare P convId epoch (c_senderId b) chain a = Done a'"
    "sent_since a a' = replicate (length (c_peers a)) f"
    "client_handleMessage P f b = setChain convId epoch (c_senderId a)
      \<lparr>cs_key = cs_key chain, cs_index = js_ushr0 (cs_index chain)\<rparr> b"
    using chain_share_handover [OF assms(1-6)] assms(7) by auto
  then show ?thesis by (intro exI [of _ a'] exI [of _ f]) simp
qed

lemma demo_acquainted: "contracts demo" "acquainted demo 5 alice bob" "ids_fit 5 alice bob"
  by (simp_all add: contracts_def demo_contracts acquainted_def ids_fit_def)
    (simp add: alice_def bob_def new_client_def get2_def sub_def)

theorem chain_share_is_adopted_witness:
  "\<exists>a' f. sendChainShare demo 5 1 (c_senderId bob) \<lparr>cs_key = replicate 32 6, cs_index = 4\<rparr> alice = Done a' \<and>
    sent_since alice a' = replicate (length (c_peers alice)) f \<and>
    getChain 5 1 (c_senderId alice) (client_handleMessage demo f bob)
      = Some \<lparr>cs_key = cs_key \<lparr>cs_key = replicate 32 6, cs_index = 4\<rparr>, cs_index = js_ushr0 (cs_index \<lparr>cs_key = replicate 32 6, cs_index = 4\<rparr>)\<rparr>"
  by (rule chain_share_is_adopted [OF demo_acquainted]) simp_all

text \<open>
  C11. A group key shared with a member that has an older epoch (or none) is adopted by it: the key
  becomes its current key and the epoch its current epoch.
\<close>

theorem key_share_is_adopted:
  assumes "contracts P" "acquainted P convId a b" "ids_fit convId a b" "epoch < 65536" "length key = 32"
    and "\<not> c_closed a" "\<not> c_useFallback a"
    and "map_of roster (c_senderId b) = Some (ecdhPublic P (c_clientECDH b))"
    and "or_default (map_of (c_adoptedEpochs b) convId) 0 < epoch"
  shows "\<exists>a' f. share_key_loop P convId epoch roster key [c_senderId b] a = Done a' \<and>
    sent_since a a' = replicate (length (c_peers a)) f \<and>
    getCurrentKey convId (client_handleMessage P f b) = Some key \<and>
    currentEpoch convId (client_handleMessage P f b) = epoch"
proof -
  have e: "0 < epoch" using assms(9) by simp
  obtain a' f where "share_key_loop P convId epoch roster key [c_senderId b] a = Done a'"
    "sent_since a a' = replicate (length (c_peers a)) f"
    "client_handleMessage P f b = state_of (adoptKey P convId epoch key b)"
    using key_share_handover [OF assms(1-6) _ assms(8,9)] assms(7) by auto
  then show ?thesis using adoptKey_current [OF e] by (intro exI [of _ a'] exI [of _ f]) simp
qed

theorem key_share_is_adopted_witness:
  "\<exists>a' f. share_key_loop demo 5 2 [(9, ecdhPublic demo [9])] (replicate 32 8) [c_senderId bob] alice = Done a' \<and>
    sent_since alice a' = replicate (length (c_peers alice)) f \<and>
    getCurrentKey 5 (client_handleMessage demo f bob) = Some (replicate 32 8) \<and>
    currentEpoch 5 (client_handleMessage demo f bob) = 2"
  by (rule key_share_is_adopted [OF demo_acquainted]) simp_all

text \<open>A key share never takes a client back to an older epoch, in any conversation.\<close>

lemma key_share_never_goes_back:
  "or_default (map_of (c_adoptedEpochs c) convId) 0
    \<le> or_default (map_of (c_adoptedEpochs (state_of (handleKeyShare P buf c))) convId) 0"
proof -
  have adopt: "c_adoptedEpochs (state_of (adoptKey P i e key c)) = AList.update i e (c_adoptedEpochs c)" for i e key
    using keyring_adoptKey [of P i e key c] by (simp add: keyring_def)
  show ?thesis
    by (auto simp: handleKeyShare_def eval_in_def Let_def adopt or_default_def split: sum.splits option.splits)
qed

text \<open>
  C12. Rotation. With a roster of usable keys the creator's re-key returns; then the epoch is one
  higher, the current key is a freshly drawn one, and no key more than four epochs old is left.
\<close>

theorem rekey_rotates:
  assumes "contracts P" "map_of (c_isCreator c) convId = Some True" "can_share P convId c"
    and "or_default (map_of (c_currentEpochs c) convId) 1 + 1 < 65536"
  shows "\<exists>c'. rekey P convId c = Done c' \<and>
    currentEpoch convId c' = or_default (map_of (c_currentEpochs c) convId) 1 + 1 \<and>
    getCurrentKey convId c' = Some (randomBytes P (c_draws c) 32) \<and>
    (\<forall>e. has (sub (c_roomKeys c') convId) e \<longrightarrow> currentEpoch convId c' \<le> e + 4)"
proof -
  define e where "e = or_default (map_of (c_currentEpochs c) convId) 1 + 1"
  let ?k = "randomBytes P (c_draws c) 32" and ?c = "c\<lparr>c_draws := c_draws c + 1\<rparr>"
  have "can_share P convId ?c" using assms(3) by (simp add: can_share_def)
  then obtain d where d: "adoptKey P convId e ?k ?c = Done d"
    using adoptKey_returns [OF assms(1), of e ?k convId ?c] assms(1,4) by (auto simp: e_def contracts_def random_sized_def)
  then have run: "rekey P convId c = Done (pruneOldEpochs convId d)"
    using assms(2) by (simp add: rekey_def with_random_def e_def)
  have ring: "map_of (c_currentEpochs d) convId = Some e" "get2 (c_roomKeys d) convId e = Some ?k"
    using keyring_adoptKey [of P convId e ?k ?c] d by (simp_all add: keyring_def)
  have e: "or_default (Some e) 0 = e" "or_default (Some e) 1 = e" "e \<noteq> 0" by (simp_all add: e_def)
  note prune = pruneOldEpochs_keys [of convId d]
  have cur: "map_of (c_currentEpochs (pruneOldEpochs convId d)) convId = Some e" using prune(1) ring(1) by simp
  have "getCurrentKey convId (pruneOldEpochs convId d) = Some ?k"
    using cur e prune(2) [of e] ring by (simp add: getCurrentKey_def currentEpoch_def get2_def)
  moreover have "\<forall>x. has (sub (c_roomKeys (pruneOldEpochs convId d)) convId) x \<longrightarrow> e \<le> x + 4"
    using e(1) prune(2) ring(1) by (auto simp: has_def currentEpoch_def split: if_splits)
  ultimately show ?thesis using run cur e(1) by (simp add: currentEpoch_def e_def)
qed

theorem rekey_rotates_witness:
  "\<exists>c'. rekey demo 5 (alice\<lparr>c_isCreator := [(5, True)]\<rparr>) = Done c' \<and> currentEpoch 5 c' = 2"
proof -
  let ?c = "alice\<lparr>c_isCreator := [(5, True)]\<rparr>"
  have "c_roster alice = [(5, [(7, ecdhPublic demo [7]), (9, ecdhPublic demo [9])])]" by (simp add: alice_def new_client_def)
  then have "can_share demo 5 ?c" by (auto simp: can_share_def valid_roster_def sub_def)
  then show ?thesis using rekey_rotates [OF demo_acquainted(1), of ?c 5] by auto
qed

section \<open>Refusals\<close>

text \<open>
  C30. A pinned client trusts one server only. The client is created, given a server fingerprint, and
  then runs through any events (packets of whatever origin over either transport, sends, joins,
  timers, peers, the fallback), except that the fingerprint is not changed. In every state it
  reaches, each server key it has recorded, which is what it signs SYNCs and Dict-Resets for, has
  that fingerprint, and each conversation it has a roster of has such a key: no roster was ever
  taken from another server.
\<close>

theorem pinned_client_trusts_one_server:
  assumes "fp = js_lower (js_trim given)" "fp \<noteq> ''''"
    and "(\<lambda>c d. client_step P c d \<and> c_serverFingerprint d = fp)\<^sup>*\<^sup>* (setServerFingerprint given (new_client port sid ecdh secs)) d"
  shows "(has (c_roster d) convId \<longrightarrow> has (c_serverPubKeys d) convId) \<and>
    (\<forall>pub. map_of (c_serverPubKeys d) convId = Some pub \<longrightarrow> serverFingerprint P pub = fp)"
proof -
  have "pinned_start fp (setServerFingerprint given (new_client port sid ecdh secs))"
    using assms(1,2) unfolding pinned_start_def by blast
  then have "pinned P fp d"
    using pins.inv_reach [of fp _ P d] assms(3) by (simp add: pinned_step_def [abs_def])
  then show ?thesis by (auto simp: pinned_def has_def)
qed

theorem pinned_client_trusts_one_server_witness:
  "\<not> has (c_roster (onUdp demo False (0x09 # replicate 69 0) (setServerFingerprint ''beef'' (new_client 7 None [7] 300)))) 0"
proof -
  let ?c = "setServerFingerprint ''beef'' (new_client 7 None [7] 300)" and ?m = "0x09 # replicate 69 0 :: buffer"
  have beef: "js_lower (js_trim ''beef'') = ''beef''" by code_simp
  have "pinned demo ''beef'' ?c" by (simp add: pinned_def setServerFingerprint_def new_client_def beef)
  then have "pinned demo ''beef'' (onUdp demo False ?m ?c)"
    by (simp add: onUdp_def pinned_handleMessage pinned_trust [OF trust_core [OF client_core_simps(17)]])
  then have "client_step demo ?c (onUdp demo False ?m ?c) \<and> c_serverFingerprint (onUdp demo False ?m ?c) = ''beef''"
    using client_step.cl_udp by (auto simp: pinned_def)
  from pinned_client_trusts_one_server [OF beef [symmetric] _ r_into_rtranclp [of "\<lambda>c d. client_step demo c d \<and> c_serverFingerprint d = ''beef''", OF this], of 0]
  have "has (c_roster (onUdp demo False ?m ?c)) 0 \<longrightarrow> (\<exists>pub. serverFingerprint demo pub = ''beef'')" by (auto simp: has_def)
  moreover have "length (to_hex bs) = 2 * length bs" for bs by (induction bs) (simp_all add: to_hex_def)
  then have "length (serverFingerprint demo pub) \<noteq> length ''beef''" for pub
    by (simp add: serverFingerprint_def demo_def)
  ultimately show ?thesis by metis
qed

text \<open>The frames a client accepts as coming from a member it knows.\<close>

definition signed_by_peer :: "prims \<Rightarrow> Client \<Rightarrow> buffer \<Rightarrow> bool" where
  "signed_by_peer P c buf \<longleftrightarrow> (\<exists>convId i pub k body. readUInt16BE buf 1 = Inr convId \<and> readUInt16BE buf 3 = Inr i \<and>
     get2 (c_roster c) convId i = Some pub \<and> pairwiseKey P (c_clientECDH c) pub = Inr k \<and> buf = signControlFrame P body k)"

text \<open>
  C31. A NACK or an ACK is acted on only if it is signed with the pairwise key this client shares
  with the member it claims to come from. Otherwise an ACK changes nothing, and a NACK nothing but
  the count of NACKs received: nothing is sent.
\<close>

theorem forged_nack_and_ack_ignored:
  assumes "digests_sized P" "\<not> signed_by_peer P c buf"
  shows "state_of (onAck P buf c) = c \<and>
    state_of (onNack P buf c) = c\<lparr>c_stats := (c_stats c)\<lparr>st_nacksReceived := st_nacksReceived (c_stats c) + 1\<rparr>\<rparr>"
proof (intro conjI)
  have no: "client_verifies P d convId i buf \<noteq> Inr (Some body)"
    if "readUInt16BE buf 1 = Inr convId" "readUInt16BE buf 3 = Inr i" "c_roster d = c_roster c" "c_clientECDH d = c_clientECDH c"
    for d convId i body
    using that assms by (auto simp: client_verifies_def signed_by_peer_def verify_sign_iff split: option.splits)
  show "state_of (onAck P buf c) = c"
    using no [of _ _ c] by (auto simp: onAck_def eval_in_def split: sum.splits option.splits)
  let ?d = "c\<lparr>c_stats := (c_stats c)\<lparr>st_nacksReceived := st_nacksReceived (c_stats c) + 1\<rparr>\<rparr>"
  show "state_of (onNack P buf c) = ?d"
    using no [of _ _ ?d] by (auto simp: onNack_def eval_in_def Let_def split: sum.splits option.splits)
qed

theorem forged_nack_and_ack_ignored_witness: "state_of (onAck demo [7, 0, 5, 0, 7, 0, 9] bob) = bob"
proof (rule conjunct1 [OF forged_nack_and_ack_ignored [OF demo_contracts(1)]])
  show "\<not> signed_by_peer demo bob [7, 0, 5, 0, 7, 0, 9]"
  proof
    assume "signed_by_peer demo bob [7, 0, 5, 0, 7, 0, 9]"
    then obtain body k where "[7, 0, 5, 0, 7, 0, 9] = signControlFrame demo body k" by (auto simp: signed_by_peer_def)
    then have "length [7, 0, 5, 0, 7, 0, 9 :: byte] = length (signControlFrame demo body k)" by simp
    then show False by (simp add: signControlFrame_def digest_lengths [OF demo_contracts(1)])
  qed
qed

section \<open>Bounds and recovery\<close>

text \<open>
  C18. In every reachable state of a client each history, its own and each sender's, holds at most 217
  messages under pairwise different sequence numbers, each filed under the number and the sender it
  carries; and its sequence counters, the newest number of each sender included, have 24 bits.
\<close>

theorem histories_bounded:
  assumes "client_started c" "(client_step P)\<^sup>*\<^sup>* c d"
  shows "filed (c_senderId d) (c_sentMessages d) \<and> filed i (sub (c_receivedMessages d) i) \<and>
     c_nextSeq d < SEQ_MOD \<and> c_highestSentSeq d < SEQ_MOD \<and>
     (\<forall>h. map_of (c_highestReceivedSeq d) i = Some h \<longrightarrow> h < SEQ_MOD)"
  using client_invD [OF cli.inv_reach [OF assms]] by (auto simp: msgs_ok_filed SEQ_MOD_val)

theorem histories_bounded_witness:
  "filed 7 (sub (c_receivedMessages (onUdp demo False [1] (new_client 7 None [7] 300))) 7)"
proof -
  let ?c = "new_client 7 None [7] 300" and ?d = "onUdp demo False [1] (new_client 7 None [7] 300)"
  have "client_step demo ?c ?d" by (rule client_step.cl_udp)
  moreover have "client_started ?c" by (auto simp: client_started_def)
  ultimately show ?thesis using histories_bounded [of ?c demo ?d 7] by blast
qed

text \<open>
  The probe. With the acknowledged and the last sent message at most half the sequence space
  apart, the SYNC probe re-arms itself exactly while the last message is unacknowledged.
\<close>

lemma probe_repeats_until_acked:
  assumes "c_highestSentSeq c = h mod SEQ_MOD" "or_default (map_of (c_ackedSeq c) convId) 0 = a mod SEQ_MOD"
    and "a \<le> h" "h \<le> a + SEQ_MOD div 2"
  shows "probe P convId c = (if a < h then and_then (sendSync P convId c) (\<lambda>c. Done (scheduleProbe convId c))
    else sendSync P convId c)"
proof -
  have d: "seqDelta (h mod SEQ_MOD) (a mod SEQ_MOD) \<ge> SEQ_MOD div 2 \<longleftrightarrow> a < h"
  proof (cases "a = h")
    case False
    then have "seqDelta (a mod SEQ_MOD) (h mod SEQ_MOD) = h - a"
      using assms(3,4) by (simp add: SEQ_MOD_val seqDelta_counter)
    moreover from this have "a mod SEQ_MOD \<noteq> h mod SEQ_MOD" using False assms(3) by auto
    ultimately show ?thesis
      using seqDelta_swap [of "a mod SEQ_MOD" "h mod SEQ_MOD"] False assms(3,4) by (simp add: SEQ_MOD_val) linarith
  qed (simp add: SEQ_MOD_val)
  have core: "client_core d = client_core c" if "sendSync P convId c = Done d" for d
    using client_core_control(3) [of P convId c] that by simp
  show ?thesis
  proof (cases "sendSync P convId c")
    case (Done d')
    then show ?thesis
      using d client_coreD(4,8) [OF core [OF Done]] assms(1,2) by (simp add: probe_def)
  qed (simp add: probe_def)
qed

text \<open>
  C37. The NACK retry gives up on a gap of one: if the newest sequence number seen is the very next
  one, the retry asks for nothing and does not re-arm, so a message lost with its repair at the
  end of a burst is not asked for again.
\<close>

theorem nack_retry_ignores_tail_loss:
  assumes "map_of (c_highestReceivedSeq c) senderId = Some h" "map_of (c_seenSeq c) senderId = Some (seqNext h)"
  shows "nackRetry P convId senderId c = Done (c\<lparr>c_nackRetryTimers := AList.delete senderId (c_nackRetryTimers c)\<rparr>)"
  using assms by (simp add: nackRetry_def missing_after_def)

theorem nack_retry_ignores_tail_loss_witness:
  "nackRetry demo 5 7 (bob\<lparr>c_highestReceivedSeq := [(7, 4)], c_seenSeq := [(7, seqNext 4)]\<rparr>)
    = Done (bob\<lparr>c_highestReceivedSeq := [(7, 4)], c_seenSeq := [(7, seqNext 4)],
        c_nackRetryTimers := AList.delete 7 (c_nackRetryTimers (bob\<lparr>c_highestReceivedSeq := [(7, 4)], c_seenSeq := [(7, seqNext 4)]\<rparr>))\<rparr>)"
  by (rule nack_retry_ignores_tail_loss) simp_all

text \<open>
  Before the key exchange is complete \<^verbatim>\<open>sendData\<close> sends nothing but still uses up a sequence
  number, which no packet will ever carry.
\<close>

lemma send_without_chain_burns_sequence_number:
  assumes "getChain convId (or_default (map_of (c_currentEpochs c) convId) 1) (c_senderId c) c = None"
  shows "sendData P convId payload c = Done (c\<lparr>c_nextSeq := seqNext (c_nextSeq c)\<rparr>)"
  using assms by (simp add: sendData_def Let_def)

text \<open>
  A gap of more than 65535 messages is never asked for: the NACK cannot be encoded and nothing
  is sent.
\<close>

lemma oversized_gap_not_requested:
  assumes "65535 < length missing"
  shows "c_outbox (state_of (sendNack P convId targetId missing c)) = c_outbox c"
  using assms encodeNack_overflow by (auto simp: sendNack_def Let_def with_random_def split: option.splits)

text \<open>
  A packet whose dictionary fingerprint does not match wipes the receiver's history of that
  sender and is not counted as received: the expected sequence number stays the same, so the same
  packet is due again.
\<close>

lemma desync_clears_without_advancing:
  assumes "dc_dictFp dec \<noteq> dictFingerprint P (getDictionary i seq c)"
  shows "sub (c_receivedMessages (state_of (processDataPacket P dec i seq c))) i = []"
    and "c_highestReceivedSeq (state_of (processDataPacket P dec i seq c)) = c_highestReceivedSeq c"
  using assms client_coreD(3,6) [OF client_core_control(4)]
  by (auto simp: processDataPacket_def Let_def has_def sub_def split: option.splits)

end
