(* ===== verification/Dart_App.thy ===== *)
theory Dart_App
  imports Dart_Client Dart_Server
begin

text \<open>
  The interactive clients: \<^verbatim>\<open>NativeDartClient\<close> of \<^verbatim>\<open>cli.ts\<close>, \<^verbatim>\<open>WebDartClient\<close> of \<^verbatim>\<open>web-app.ts\<close> and
  \<^verbatim>\<open>ElectronDartClient\<close> of \<^verbatim>\<open>electron-gui.ts\<close>. The three classes repeat one protocol engine; they differ in
  their transport (\<^verbatim>\<open>broadcast\<close>, \<^verbatim>\<open>connect\<close>, \<^verbatim>\<open>joinRoom\<close>), in the packet counters only the graphical ones
  keep, and in the text they greet a room with. The engine is modelled once, over the record \<open>App\<close> and the
  datatype \<open>variant\<close> that selects these differences; the line numbers of the engine are those of
  \<^verbatim>\<open>cli.ts\<close>. The last sections give each class its own entry points.

  Compared with \<^verbatim>\<open>client.ts\<close> the engine limits its own sending rate, queues messages until the key
  exchange is complete, and gives up on a gap that stays open for four seconds. What \<^verbatim>\<open>Date.now()\<close>
  returns is an argument: a number where an event reads it once, a \<open>clock\<close> where it may be read
  several times. What the user sees of a conversation is the list \<open>a_shown\<close>; status
  messages are not recorded.
\<close>

section \<open>The clock\<close>

text \<open>
  The clock during one event: the value of the next reading of \<^verbatim>\<open>Date.now()\<close> and the values of the
  readings after it. An event takes a finite time, so after the last listed reading the clock stands
  still until the event is over. Nothing is assumed about the order of the values.
\<close>

type_synonym clock = "nat \<times> nat list"

definition clock_now :: "clock \<Rightarrow> nat" where
  "clock_now clk = fst clk"

definition clock_tick :: "clock \<Rightarrow> clock" where
  "clock_tick clk = (case snd clk of [] \<Rightarrow> clk | t # ts \<Rightarrow> (t, ts))"

definition readings :: "clock \<Rightarrow> nat set" where
  "readings clk = insert (fst clk) (set (snd clk))"

lemma clock_now_reading [simp]: "clock_now clk \<in> readings clk"
  by (simp add: clock_now_def readings_def)

lemma readings_tick: "readings (clock_tick clk) \<subseteq> readings clk"
  by (auto simp: readings_def clock_tick_def split: list.splits)

lemma readings_const [simp]: "readings (t, []) = {t}"
  by (simp add: readings_def)

section \<open>State\<close>

datatype variant = Cli | Web | Electron

record AppStats =
  as_packetsSent :: nat
  as_packetsReceived :: nat
  as_nacksSent :: nat
  as_nacksReceived :: nat
  as_retransmits :: nat
  as_bytesSent :: nat

datatype shown = Notice jsstring | Said nat jsstring

datatype app_task =
    AppResend KeyReqDart
  | AppShareKey nat nat "(nat, buffer) jsmap" buffer "nat list"   \<comment> \<open>convId, epoch, roster, key, targets\<close>
  | AppShareChain nat nat ChainState "nat list"                  \<comment> \<open>convId, epoch, chain, targets\<close>
  | AppRekey nat
  | AppProbe nat
  | AppAck nat nat nat                                          \<comment> \<open>convId, targetId, seq\<close>

record App =
  a_senderId :: nat
  a_currentRoomId :: nat
  a_nextSeq :: nat
  a_highestReceivedSeq :: "(nat, nat) jsmap"
  a_highestSentSeq :: nat
  a_sentMessages :: "(nat, DataDart) jsmap"
  a_receivedMessages :: "(nat, (nat, DataDart) jsmap) jsmap"
  a_syncTimers :: "nat list"
  a_ackedSeq :: "(nat, nat) jsmap"
  a_ackTimers :: "(nat, nat) jsmap"
  a_clientECDH :: buffer
  a_lastSendTime :: nat
  a_serverFingerprint :: string
  a_outOfOrderBuffer :: "(nat, (nat, buffer) jsmap) jsmap"
  a_nackTimestamps :: "(nat, (nat, nat) jsmap) jsmap"
  a_pendingQueue :: "(nat \<times> jsstring) list"
  a_serverPort :: nat
  a_serverHost :: string
  a_roster :: "(nat, (nat, buffer) jsmap) jsmap"
  a_sharedWith :: "(nat, nat list) jsmap"
  a_rekeyTimer :: "nat option"
  a_isCreator :: "(nat, bool) jsmap"
  a_serverPubKeys :: "(nat, buffer) jsmap"
  a_senderChains :: "(nat, (nat, (nat, ChainState) jsmap) jsmap) jsmap"
  a_chainSharedWith :: "(nat, nat list) jsmap"
  a_messageKeys :: "(nat, MessageKey) jsmap"
  a_chainSeeds :: "(nat, (nat, ChainState) jsmap) jsmap"
  a_adoptedEpochs :: "(nat, nat) jsmap"
  a_roomKeys :: "(nat, (nat, buffer) jsmap) jsmap"
  a_currentEpochs :: "(nat, nat) jsmap"
  a_ws :: "nat option"          \<comment> \<open>the web socket, if there is one\<close>
  a_wsOpen :: bool              \<comment> \<open>its \<^verbatim>\<open>readyState\<close> is \<^verbatim>\<open>OPEN\<close>\<close>
  a_udp :: bool                 \<comment> \<open>the UDP socket exists\<close>
  a_useWs :: bool               \<comment> \<open>\<^verbatim>\<open>transport === 'ws'\<close> (Electron)\<close>
  a_stats :: AppStats
  a_rekeySeconds :: nat         \<comment> \<open>\<^verbatim>\<open>DART_REKEY_SECONDS\<close>, 300 by default\<close>
  a_draws :: nat
  a_timers :: "(nat \<times> nat \<times> app_task) list"
  a_nextTimer :: nat
  a_outbox :: "wire_out list"
  a_shown :: "shown list"

section \<open>Timers, randomness, transports\<close>

definition app_setTimeout :: "app_task \<Rightarrow> nat \<Rightarrow> App \<Rightarrow> App" where
  "app_setTimeout t ms a =
     a\<lparr>a_timers := a_timers a @ [(a_nextTimer a, ms, t)], a_nextTimer := a_nextTimer a + 1\<rparr>"

definition app_clearTimeout :: "nat option \<Rightarrow> App \<Rightarrow> App" where
  "app_clearTimeout handle a =
     (case handle of None \<Rightarrow> a
      | Some i \<Rightarrow> a\<lparr>a_timers := filter (\<lambda>(j, ms, t). j \<noteq> i) (a_timers a)\<rparr>)"

definition app_random :: "prims \<Rightarrow> nat \<Rightarrow> App \<Rightarrow> (buffer \<Rightarrow> App \<Rightarrow> App outcome) \<Rightarrow> App outcome" where
  "app_random P n a f = f (randomBytes P (a_draws a) n) (a\<lparr>a_draws := a_draws a + 1\<rparr>)"

text \<open>The counters of the graphical clients; \<^verbatim>\<open>cli.ts\<close> has none.\<close>

definition app_count :: "variant \<Rightarrow> (AppStats \<Rightarrow> AppStats) \<Rightarrow> App \<Rightarrow> App" where
  "app_count V f a = (if V = Cli then a else a\<lparr>a_stats := f (a_stats a)\<rparr>)"

definition count_sent :: "buffer \<Rightarrow> App \<Rightarrow> App" where
  "count_sent buf a = a\<lparr>a_stats := (a_stats a)\<lparr>as_packetsSent := as_packetsSent (a_stats a) + 1,
     as_bytesSent := as_bytesSent (a_stats a) + length buf\<rparr>\<rparr>"

definition app_put :: "wire_out \<Rightarrow> App \<Rightarrow> App" where
  "app_put w a = a\<lparr>a_outbox := a_outbox a @ [w]\<rparr>"

definition cli_broadcast :: "buffer \<Rightarrow> App \<Rightarrow> App" where
  "cli_broadcast buf a = app_put (UdpSend (a_serverHost a) (a_serverPort a) buf) a"

definition web_broadcast :: "buffer \<Rightarrow> App \<Rightarrow> App" where
  "web_broadcast buf a =
     (let a = count_sent buf a in
      case a_ws a of
        Some w \<Rightarrow> if a_wsOpen a then app_put (WsSend w buf) a else a
      | None \<Rightarrow> a)"

definition electron_broadcast :: "buffer \<Rightarrow> App \<Rightarrow> App" where
  "electron_broadcast buf a =
     (let a = count_sent buf a in
      if a_ws a \<noteq> None \<and> a_wsOpen a then app_put (WsSend (the (a_ws a)) buf) a
      else if a_udp a then app_put (UdpSend (a_serverHost a) (a_serverPort a) buf) a
      else a)"

definition app_broadcast :: "variant \<Rightarrow> buffer \<Rightarrow> App \<Rightarrow> App" where
  "app_broadcast V = (case V of Cli \<Rightarrow> cli_broadcast | Web \<Rightarrow> web_broadcast | Electron \<Rightarrow> electron_broadcast)"

section \<open>Keys, chains and history\<close>

definition app_getCurrentKey :: "nat \<Rightarrow> App \<Rightarrow> buffer option" where
  "app_getCurrentKey convId a = get2 (a_roomKeys a) convId (or_default (map_of (a_currentEpochs a) convId) 1)"

definition app_getChain :: "nat \<Rightarrow> nat \<Rightarrow> nat \<Rightarrow> App \<Rightarrow> ChainState option" where
  "app_getChain convId epoch senderId a = get2 (sub (a_senderChains a) convId) epoch senderId"

definition app_setChain :: "nat \<Rightarrow> nat \<Rightarrow> nat \<Rightarrow> ChainState \<Rightarrow> App \<Rightarrow> App" where
  "app_setChain convId epoch senderId state a =
     a\<lparr>a_senderChains := AList.update convId (set2 (sub (a_senderChains a) convId) epoch senderId state)
                          (a_senderChains a)\<rparr>"

definition app_getDictionary :: "nat \<Rightarrow> nat \<Rightarrow> App \<Rightarrow> buffer" where
  "app_getDictionary senderId maxSeq a =
     (if senderId = a_senderId a then dict_of (map snd (a_sentMessages a)) maxSeq
      else dict_of (map snd (sub (a_receivedMessages a) senderId)) maxSeq)"

definition app_pruneSent :: "App \<Rightarrow> App" where
  "app_pruneSent a =
     fold (\<lambda>k a. if seqDelta k (a_highestSentSeq a) > DICT_WINDOW + 16
                 then a\<lparr>a_sentMessages := AList.delete k (a_sentMessages a),
                        a_messageKeys := AList.delete k (a_messageKeys a)\<rparr>
                 else a)
       (map fst (a_sentMessages a)) a"

definition app_pruneReceived :: "nat \<Rightarrow> App \<Rightarrow> App" where
  "app_pruneReceived senderId a =
     (let highest = or_default (map_of (a_highestReceivedSeq a) senderId) 0;
          a = (case map_of (a_receivedMessages a) senderId of
                 None \<Rightarrow> a
               | Some msgs \<Rightarrow> a\<lparr>a_receivedMessages :=
                   AList.update senderId (window_gc (DICT_WINDOW + 16) highest msgs) (a_receivedMessages a)\<rparr>)
      in case map_of (a_nackTimestamps a) senderId of
           None \<Rightarrow> a
         | Some nacks \<Rightarrow> a\<lparr>a_nackTimestamps :=
             AList.update senderId (window_gc (DICT_WINDOW + 16) highest nacks) (a_nackTimestamps a)\<rparr>)"

section \<open>Control frames\<close>

definition app_sendDictReset :: "prims \<Rightarrow> variant \<Rightarrow> nat \<Rightarrow> nat \<Rightarrow> App \<Rightarrow> App outcome" where
  "app_sendDictReset P V convId targetId a =
     (case (app_getCurrentKey convId a, map_of (a_serverPubKeys a) convId) of
        (Some convKey, Some serverPub) \<Rightarrow>
          app_random P 12 a (\<lambda>nonce a.
          eval_in a (encodeDictReset P \<lparr>dr_type = 0x06, dr_convId = convId, dr_senderId = a_senderId a,
                       dr_targetId = targetId\<rparr> convKey nonce) (\<lambda>buf.
          eval_in a (pairwiseKey P (a_clientECDH a) serverPub) (\<lambda>k.
          Done (app_broadcast V (signControlFrame P buf k) a))))
      | _ \<Rightarrow> Done a)"

definition app_sendAck :: "prims \<Rightarrow> variant \<Rightarrow> nat \<Rightarrow> nat \<Rightarrow> nat \<Rightarrow> App \<Rightarrow> App outcome" where
  "app_sendAck P V convId targetId seq a =
     (case (app_getCurrentKey convId a, get2 (a_roster a) convId targetId) of
        (Some convKey, Some peerPub) \<Rightarrow>
          app_random P 12 a (\<lambda>nonce a.
          eval_in a (encodeAck P \<lparr>ak_type = TYPE_ACK, ak_convId = convId, ak_senderId = a_senderId a,
                       ak_targetId = targetId, ak_seq = seq\<rparr> convKey nonce) (\<lambda>buf.
          eval_in a (pairwiseKey P (a_clientECDH a) peerPub) (\<lambda>k.
          Done (app_broadcast V (signControlFrame P buf k) a))))
      | _ \<Rightarrow> Done a)"

definition app_sendNack :: "prims \<Rightarrow> variant \<Rightarrow> nat \<Rightarrow> nat \<Rightarrow> nat list \<Rightarrow> App \<Rightarrow> App outcome" where
  "app_sendNack P V convId targetId missingSeq a =
     (let a = app_count V (\<lambda>s. s\<lparr>as_nacksSent := as_nacksSent s + 1\<rparr>) a in
      case (app_getCurrentKey convId a, get2 (a_roster a) convId targetId) of
        (Some convKey, Some peerPub) \<Rightarrow>
          app_random P 12 a (\<lambda>nonce a.
          eval_in a (encodeNack P \<lparr>nk_type = TYPE_NACK, nk_convId = convId, nk_senderId = a_senderId a,
                       nk_targetId = targetId, nk_missingSeq = missingSeq\<rparr> convKey nonce) (\<lambda>buf.
          eval_in a (pairwiseKey P (a_clientECDH a) peerPub) (\<lambda>k.
          Done (app_broadcast V (signControlFrame P buf k) a))))
      | _ \<Rightarrow> Done a)"

definition app_sendSync :: "prims \<Rightarrow> variant \<Rightarrow> nat \<Rightarrow> App \<Rightarrow> App outcome" where
  "app_sendSync P V convId a =
     (if a_highestSentSeq a = 0 then Done a
      else case (app_getCurrentKey convId a, map_of (a_serverPubKeys a) convId) of
        (Some convKey, Some serverPub) \<Rightarrow>
          app_random P 12 a (\<lambda>nonce a.
          eval_in a (encodeSync P \<lparr>sy_type = TYPE_SYNC, sy_convId = convId, sy_senderId = a_senderId a,
                       sy_highestSeq = a_highestSentSeq a\<rparr> convKey nonce) (\<lambda>buf.
          eval_in a (pairwiseKey P (a_clientECDH a) serverPub) (\<lambda>k.
          Done (app_broadcast V (signControlFrame P buf k) a))))
      | _ \<Rightarrow> Done a)"

text \<open>\<^verbatim>\<open>this.syncTimers.push(setTimeout(...))\<close>, and its callback.\<close>

definition syncProbe :: "nat \<Rightarrow> App \<Rightarrow> App" where
  "syncProbe convId a =
     (app_setTimeout (AppProbe convId) 300 a)\<lparr>a_syncTimers := a_syncTimers a @ [a_nextTimer a]\<rparr>"

definition clearSyncTimers :: "App \<Rightarrow> App" where
  "clearSyncTimers a = (fold (\<lambda>t. app_clearTimeout (Some t)) (a_syncTimers a) a)\<lparr>a_syncTimers := []\<rparr>"

definition app_probe :: "prims \<Rightarrow> variant \<Rightarrow> nat \<Rightarrow> App \<Rightarrow> App outcome" where
  "app_probe P V convId a =
     and_then (app_sendSync P V convId a) (\<lambda>a.
     let acked = or_default (map_of (a_ackedSeq a) convId) 0 in
     if seqDelta (a_highestSentSeq a) acked \<ge> SEQ_MOD div 2 then Done (syncProbe convId a) else Done a)"

section \<open>Sending\<close>

definition app_sendData :: "prims \<Rightarrow> variant \<Rightarrow> nat \<Rightarrow> nat \<Rightarrow> jsstring \<Rightarrow> App \<Rightarrow> App outcome" where
  "app_sendData P V now convId payload a =
     (if now - a_lastSendTime a < 250 then Done a
      else let a = a\<lparr>a_lastSendTime := now\<rparr>;
               epoch = or_default (map_of (a_currentEpochs a) convId) 1 in
        case (app_getCurrentKey convId a, app_getChain convId epoch (a_senderId a) a) of
          (Some key, Some myChain) \<Rightarrow>
            let idx = cs_index myChain;
                (messageKey, state) = advanceChain P myChain idx;
                a = app_setChain convId epoch (a_senderId a) state a;
                seq = a_nextSeq a;
                dart = \<lparr>dd_type = TYPE_DATA, dd_convId = convId, dd_senderId = a_senderId a, dd_seq = seq,
                        dd_payload = payload\<rparr>;
                a = a\<lparr>a_nextSeq := seqNext (a_nextSeq a),
                      a_sentMessages := AList.update seq dart (a_sentMessages a),
                      a_messageKeys := AList.update seq
                        \<lparr>mk_key = messageKey, mk_idx = idx, mk_epoch = epoch\<rparr> (a_messageKeys a),
                      a_highestSentSeq := seq\<rparr>;
                a = app_pruneSent a;
                dict = app_getDictionary (a_senderId a) seq a
            in app_random P 12 a (\<lambda>nonce a.
               eval_in a (encodeDataHelper P dart dict messageKey idx epoch nonce) (\<lambda>buf.
               Done (syncProbe convId (clearSyncTimers (app_broadcast V buf a)))))
        | _ \<Rightarrow> Done (a\<lparr>a_pendingQueue := a_pendingQueue a @ [(convId, payload)]\<rparr>))"

definition app_sendKeyReq :: "variant \<Rightarrow> KeyReqDart \<Rightarrow> App \<Rightarrow> App outcome" where
  "app_sendKeyReq V req a = eval_in a (encodeKeyReq req) (\<lambda>buf. Done (app_broadcast V buf a))"

definition key_request :: "prims \<Rightarrow> nat \<Rightarrow> buffer \<Rightarrow> App \<Rightarrow> KeyReqDart" where
  "key_request P roomId reqNonce a = \<lparr>kr_type = TYPE_KEY_REQ, kr_convId = roomId, kr_senderId = a_senderId a,
     kr_reqNonce = reqNonce, kr_clientPubKey = ecdhPublic P (a_clientECDH a)\<rparr>"

definition resend_thrice :: "KeyReqDart \<Rightarrow> App \<Rightarrow> App" where
  "resend_thrice req a = app_setTimeout (AppResend req) 3000 (app_setTimeout (AppResend req) 2000
     (app_setTimeout (AppResend req) 1000 a))"

section \<open>Group keys and ratchet chains\<close>

definition app_sendChainShare :: "prims \<Rightarrow> variant \<Rightarrow> nat \<Rightarrow> nat \<Rightarrow> nat \<Rightarrow> ChainState \<Rightarrow> App \<Rightarrow> App outcome" where
  "app_sendChainShare P V convId epoch targetId chain a =
     (case get2 (a_roster a) convId targetId of
        None \<Rightarrow> Done a
      | Some targetPubKey \<Rightarrow>
          eval_in a (pairwiseKey P (a_clientECDH a) targetPubKey) (\<lambda>transportKey.
          app_random P 12 a (\<lambda>nonce a.
          eval_in a (encodeChainShare P \<lparr>ch_type = TYPE_CHAIN_SHARE, ch_convId = convId,
              ch_senderId = a_senderId a, ch_targetId = targetId, ch_epoch = epoch, ch_nonce = nonce,
              ch_chainKey = cs_key chain, ch_chainIndex = cs_index chain\<rparr> transportKey) (\<lambda>buf.
          Done (app_broadcast V buf a)))))"

fun app_share_chain_loop :: "prims \<Rightarrow> variant \<Rightarrow> nat \<Rightarrow> nat \<Rightarrow> ChainState \<Rightarrow> nat list \<Rightarrow> App \<Rightarrow> App outcome" where
  "app_share_chain_loop P V convId epoch chain [] a = Done a"
| "app_share_chain_loop P V convId epoch chain (mId # ms) a =
     and_then (app_sendChainShare P V convId epoch mId chain a) (app_share_chain_loop P V convId epoch chain ms)"

definition app_shareChainWithMembers :: "prims \<Rightarrow> variant \<Rightarrow> nat \<Rightarrow> nat \<Rightarrow> App \<Rightarrow> App outcome" where
  "app_shareChainWithMembers P V convId epoch a =
     (case (app_getChain convId epoch (a_senderId a) a, map_of (a_roster a) convId) of
        (Some myChain, Some roster) \<Rightarrow>
          (let served = sub (a_chainSharedWith a) convId;
               targets = share_targets (a_senderId a) served roster;
               a = a\<lparr>a_chainSharedWith := AList.update convId (served @ targets) (a_chainSharedWith a)\<rparr>
           in if targets = [] then Done a
              else and_then (app_share_chain_loop P V convId epoch myChain targets a) (\<lambda>a.
                Done (app_setTimeout (AppShareChain convId epoch myChain targets) 1000
                       (app_setTimeout (AppShareChain convId epoch myChain targets) 300 a))))
      | _ \<Rightarrow> Done a)"

definition app_initOwnChain :: "prims \<Rightarrow> variant \<Rightarrow> nat \<Rightarrow> nat \<Rightarrow> App \<Rightarrow> App outcome" where
  "app_initOwnChain P V convId epoch a =
     app_random P 32 a (\<lambda>seed a.
     let a = app_setChain convId epoch (a_senderId a) \<lparr>cs_key = seed, cs_index = 0\<rparr> a;
         a = a\<lparr>a_chainSeeds := set2 (a_chainSeeds a) convId epoch \<lparr>cs_key = seed, cs_index = 0\<rparr>,
               a_chainSharedWith := AList.update convId [] (a_chainSharedWith a)\<rparr>
     in app_shareChainWithMembers P V convId epoch a)"

fun app_share_key_loop ::
    "prims \<Rightarrow> variant \<Rightarrow> nat \<Rightarrow> nat \<Rightarrow> (nat, buffer) jsmap \<Rightarrow> buffer \<Rightarrow> nat list \<Rightarrow> App \<Rightarrow> App outcome" where
  "app_share_key_loop P V convId epoch roster key [] a = Done a"
| "app_share_key_loop P V convId epoch roster key (mId # ms) a =
     (case map_of roster mId of
        None \<Rightarrow> Raised InvalidPublicKey a
      | Some targetPubKey \<Rightarrow>
          eval_in a (pairwiseKey P (a_clientECDH a) targetPubKey) (\<lambda>transportKey.
          app_random P 12 a (\<lambda>nonce a.
          eval_in a (encodeKeyShare P \<lparr>ks_type = TYPE_KEY_SHARE, ks_convId = convId,
              ks_senderId = a_senderId a, ks_targetId = mId, ks_epoch = epoch, ks_nonce = nonce,
              ks_encryptedKey = key\<rparr> transportKey) (\<lambda>buf.
          app_share_key_loop P V convId epoch roster key ms (app_broadcast V buf a)))))"

definition app_shareWithNewMembers :: "prims \<Rightarrow> variant \<Rightarrow> nat \<Rightarrow> App \<Rightarrow> App outcome" where
  "app_shareWithNewMembers P V convId a =
     (case (app_getCurrentKey convId a, map_of (a_roster a) convId) of
        (Some key, Some roster) \<Rightarrow>
          (let epoch = or_default (map_of (a_currentEpochs a) convId) 1;
               served = sub (a_sharedWith a) convId;
               targets = share_targets (a_senderId a) served roster;
               a = a\<lparr>a_sharedWith := AList.update convId (served @ targets) (a_sharedWith a)\<rparr>
           in if targets = [] then Done a
              else and_then (app_share_key_loop P V convId epoch roster key targets a) (\<lambda>a.
                Done (app_setTimeout (AppShareKey convId epoch roster key targets) 1000
                       (app_setTimeout (AppShareKey convId epoch roster key targets) 300 a))))
      | _ \<Rightarrow> Done a)"

definition app_scheduleRekey :: "nat \<Rightarrow> App \<Rightarrow> App" where
  "app_scheduleRekey convId a =
     (let a = app_clearTimeout (a_rekeyTimer a) a
      in (app_setTimeout (AppRekey convId) (a_rekeySeconds a * 1000) a)\<lparr>a_rekeyTimer := Some (a_nextTimer a)\<rparr>)"

text \<open>A string literal or a number as a JavaScript string, and the greeting of each client.\<close>

definition js_text :: "string \<Rightarrow> jsstring" where
  "js_text = map (\<lambda>ch. word_of_nat (of_char ch))"

definition joined_text :: "variant \<Rightarrow> nat \<Rightarrow> jsstring" where
  "joined_text V i = js_text (''User '' @ show_nat i @ '' joined the room'' @ (if V = Cli then '' (Native Client)'' else []))"

text \<open>
  The loop that hands the queued messages to \<^verbatim>\<open>sendData\<close>, each with its own reading of the clock. As
  \<^verbatim>\<open>for ... of\<close> does, it goes by position in the queue as it is at that moment: a message for a room
  whose key is still missing is appended again and met again. It ends because \<^verbatim>\<open>sendData\<close> appends
  at most once while the clock stands still.
\<close>

lemma send_bookkeeping [simp]:
  "a_lastSendTime (app_setChain i e j st a) = a_lastSendTime a" "a_lastSendTime (app_broadcast V b a) = a_lastSendTime a"
  "a_lastSendTime (syncProbe i a) = a_lastSendTime a" "a_lastSendTime (clearSyncTimers a) = a_lastSendTime a"
  "a_lastSendTime (app_pruneSent a) = a_lastSendTime a"
proof -
  show "a_lastSendTime (app_pruneSent a) = a_lastSendTime a"
    unfolding app_pruneSent_def by (rule fold_keeps) simp
  have "a_lastSendTime (fold (\<lambda>t. app_clearTimeout (Some t)) ts a) = a_lastSendTime a" for ts
    by (rule fold_keeps) (simp add: app_clearTimeout_def)
  then show "a_lastSendTime (clearSyncTimers a) = a_lastSendTime a" by (simp add: clearSyncTimers_def)
qed (simp_all add: app_setChain_def app_broadcast_def cli_broadcast_def web_broadcast_def electron_broadcast_def
    count_sent_def app_put_def syncProbe_def app_setTimeout_def Let_def split: variant.splits option.splits)

lemma send_clock:
  "app_sendData P V now convId payload a = Done a \<and> now - a_lastSendTime a < 250 \<or>
   250 \<le> now - a_lastSendTime a \<and> a_lastSendTime (state_of (app_sendData P V now convId payload a)) = now"
  by (auto simp: app_sendData_def Let_def app_random_def eval_in_def case_prod_unfold split: option.splits sum.splits)

function flush_loop :: "prims \<Rightarrow> variant \<Rightarrow> clock \<Rightarrow> nat \<Rightarrow> App \<Rightarrow> App outcome" where
  "flush_loop P V clk i a =
     (if i < length (a_pendingQueue a)
      then (case app_sendData P V (clock_now clk) (fst (a_pendingQueue a ! i)) (snd (a_pendingQueue a ! i)) a of
              Raised e a' \<Rightarrow> Raised e a'
            | Done a' \<Rightarrow> flush_loop P V (clock_tick clk) (Suc i) a')
      else Done a)"
  by pat_completeness auto

termination
proof (relation "measures [\<lambda>(P, V, clk, i, a). length (snd clk),
    \<lambda>(P, V, clk, i, a). if 250 \<le> fst clk - a_lastSendTime a then 1 else 0,
    \<lambda>(P, V, clk, i, a). length (a_pendingQueue a) - i]", goal_cases)
  case (2 P V clk i a a')
  then show ?case
    using send_clock [of P V "fst clk" "fst (a_pendingQueue a ! i)" "snd (a_pendingQueue a ! i)" a]
    by (cases "snd clk") (auto simp: clock_now_def clock_tick_def)
qed simp

declare flush_loop.simps [simp del]

definition app_greet :: "prims \<Rightarrow> variant \<Rightarrow> clock \<Rightarrow> nat \<Rightarrow> App \<Rightarrow> App outcome" where
  "app_greet P V clk convId a =
     and_then (app_sendData P V (clock_now clk) convId (joined_text V (a_senderId a)) a) (\<lambda>a.
     and_then (flush_loop P V (clock_tick clk) 0 a) (\<lambda>a. Done (a\<lparr>a_pendingQueue := []\<rparr>)))"

definition app_adoptKey :: "prims \<Rightarrow> variant \<Rightarrow> clock \<Rightarrow> nat \<Rightarrow> nat \<Rightarrow> buffer \<Rightarrow> App \<Rightarrow> App outcome" where
  "app_adoptKey P V clk convId epoch key a =
     (let isNew = (or_default (map_of (a_adoptedEpochs a) convId) 0 = 0);
          a = a\<lparr>a_roomKeys := set2 (a_roomKeys a) convId epoch key,
                a_currentEpochs := AList.update convId epoch (a_currentEpochs a),
                a_adoptedEpochs := AList.update convId epoch (a_adoptedEpochs a),
                a_sharedWith := AList.update convId [] (a_sharedWith a)\<rparr>
      in and_then (app_initOwnChain P V convId epoch a) (\<lambda>a.
         and_then (if isNew then app_greet P V clk convId a else Done a) (\<lambda>a.
         and_then (app_shareWithNewMembers P V convId a) (\<lambda>a.
         Done (app_scheduleRekey convId a)))))"

definition app_pruneOldEpochs :: "nat \<Rightarrow> App \<Rightarrow> App" where
  "app_pruneOldEpochs convId a =
     (let current = or_default (map_of (a_currentEpochs a) convId) 0 in
      case map_of (a_roomKeys a) convId of
        None \<Rightarrow> a
      | Some keys \<Rightarrow>
          fold (\<lambda>epoch a. if epoch + 4 < current
              then a\<lparr>a_roomKeys := AList.update convId (AList.delete epoch (sub (a_roomKeys a) convId)) (a_roomKeys a)\<rparr>
              else a)
            (map fst keys) a)"

definition app_rekey :: "prims \<Rightarrow> variant \<Rightarrow> clock \<Rightarrow> nat \<Rightarrow> App \<Rightarrow> App outcome" where
  "app_rekey P V clk convId a =
     (if map_of (a_isCreator a) convId = Some True
      then app_random P 32 a (\<lambda>key a.
        and_then (app_adoptKey P V clk convId (or_default (map_of (a_currentEpochs a) convId) 1 + 1) key a) (\<lambda>a.
        Done (app_pruneOldEpochs convId a)))
      else Done a)"

definition app_applyRoster :: "buffer \<Rightarrow> MemberInfo \<Rightarrow> App \<Rightarrow> App" where
  "app_applyRoster serverPubKey info a =
     (let convId = mi_convId info;
          rosterMap = roster_of (mi_members info);
          changed = (case map_of (a_roster a) convId of None \<Rightarrow> [] | Some prev \<Rightarrow> rekeyed_members prev rosterMap)
      in a\<lparr>a_roster := AList.update convId rosterMap (a_roster a),
           a_sharedWith := forget_served convId changed (a_sharedWith a),
           a_chainSharedWith := forget_served convId changed (a_chainSharedWith a),
           a_serverPubKeys := AList.update convId serverPubKey (a_serverPubKeys a),
           a_isCreator := AList.update convId (mi_creator info) (a_isCreator a)\<rparr>)"

definition app_handleMemberInfo :: "prims \<Rightarrow> variant \<Rightarrow> clock \<Rightarrow> buffer \<Rightarrow> App \<Rightarrow> App outcome" where
  "app_handleMemberInfo P V clk buf a =
     (case memberInfoServerKey buf of
        Inl e \<Rightarrow> Done a
      | Inr serverPubKey \<Rightarrow>
          if a_serverFingerprint a \<noteq> '''' \<and> serverFingerprint P serverPubKey \<noteq> a_serverFingerprint a then Done a
          else eval_in a (pairwiseKey P (a_clientECDH a) serverPubKey) (\<lambda>transportKey.
          case decodeMemberInfo P buf transportKey of
            Inl e \<Rightarrow> Done a
          | Inr info \<Rightarrow>
              let convId = mi_convId info;
                  prevCreator = (map_of (a_isCreator a) convId = Some True);
                  a = app_applyRoster serverPubKey info a;
                  myEpoch = or_default (map_of (a_adoptedEpochs a) convId) 0
              in and_then
                   (if mi_creator info \<and> myEpoch = 0
                    then app_random P 32 a (\<lambda>key a. app_adoptKey P V clk convId 1 key a)
                    else if myEpoch \<noteq> 0 then app_shareWithNewMembers P V convId a
                    else Done a) (\<lambda>a.
                 and_then
                   (if mi_creator info \<and> \<not> prevCreator \<and> myEpoch \<noteq> 0 then app_rekey P V clk convId a else Done a) (\<lambda>a.
                 and_then
                   (app_shareChainWithMembers P V convId (or_default (map_of (a_currentEpochs a) convId) 1) a) (\<lambda>a.
                 Done (app_scheduleRekey convId a))))))"

definition app_handleKeyShare :: "prims \<Rightarrow> variant \<Rightarrow> clock \<Rightarrow> buffer \<Rightarrow> App \<Rightarrow> App outcome" where
  "app_handleKeyShare P V clk buf a =
     eval_in a (readUInt16BE buf 1) (\<lambda>convId.
     eval_in a (readUInt16BE buf 3) (\<lambda>senderId.
     eval_in a (readUInt16BE buf 5) (\<lambda>targetId.
     if targetId \<noteq> a_senderId a then Done a
     else case get2 (a_roster a) convId senderId of
       None \<Rightarrow> Done a
     | Some sharerPubKey \<Rightarrow>
         eval_in a (pairwiseKey P (a_clientECDH a) sharerPubKey) (\<lambda>transportKey.
         case decodeKeyShare P buf transportKey of
           Inl e \<Rightarrow> Done a
         | Inr (epoch, groupKey) \<Rightarrow>
             let myEpoch = or_default (map_of (a_adoptedEpochs a) convId) 0;
                 curKey = app_getCurrentKey convId a
             in if myEpoch = 0 \<or> myEpoch < epoch
                   \<or> (epoch = myEpoch \<and> curKey \<noteq> None \<and> curKey \<noteq> Some groupKey)
                then app_adoptKey P V clk convId epoch groupKey a else Done a))))"

definition app_handleChainShare :: "prims \<Rightarrow> buffer \<Rightarrow> App \<Rightarrow> App outcome" where
  "app_handleChainShare P buf a =
     eval_in a (readUInt16BE buf 1) (\<lambda>convId.
     eval_in a (readUInt16BE buf 3) (\<lambda>senderId.
     eval_in a (readUInt16BE buf 5) (\<lambda>targetId.
     if targetId \<noteq> a_senderId a then Done a
     else case get2 (a_roster a) convId senderId of
       None \<Rightarrow> Done a
     | Some sharerPubKey \<Rightarrow>
         eval_in a (pairwiseKey P (a_clientECDH a) sharerPubKey) (\<lambda>transportKey.
         case decodeChainShare P buf transportKey of
           Inl e \<Rightarrow> Done a
         | Inr decoded \<Rightarrow>
             Done (app_setChain convId (ch_epoch decoded) (ch_senderId decoded)
                     \<lparr>cs_key = ch_chainKey decoded, cs_index = ch_chainIndex decoded\<rparr> a)))))"

section \<open>Receiving data\<close>

definition app_decryptDataInOrder ::
    "prims \<Rightarrow> buffer \<Rightarrow> nat \<Rightarrow> App \<Rightarrow> exn + (DecryptedData \<times> App) option" where
  "app_decryptDataInOrder P buf senderId a =
     sbind (readUInt16BE buf 21) (\<lambda>epoch.
     sbind (readUInt32BE buf 27) (\<lambda>idx.
     sbind (readUInt16BE buf 1) (\<lambda>convId.
     case app_getChain convId epoch senderId a of
       None \<Rightarrow> Inr None
     | Some chain \<Rightarrow>
         if idx < cs_index chain then Inr None
         else let (messageKey, state) = advanceChain P chain idx in
           (case decryptData P buf messageKey of
              Inl e \<Rightarrow> Inr None
            | Inr dec \<Rightarrow> Inr (Some (dec, app_setChain convId epoch senderId state a))))))"

text \<open>\<^verbatim>\<open>startsWith\<close> and \<^verbatim>\<open>includes\<close>, and the line that is printed for a message.\<close>

definition js_startsWith :: "jsstring \<Rightarrow> jsstring \<Rightarrow> bool" where
  "js_startsWith s p \<longleftrightarrow> take (length p) s = p"

fun js_includes :: "jsstring \<Rightarrow> jsstring \<Rightarrow> bool" where
  "js_includes [] p \<longleftrightarrow> p = []"
| "js_includes (ch # s) p \<longleftrightarrow> js_startsWith (ch # s) p \<or> js_includes s p"

definition shown_for :: "nat \<Rightarrow> jsstring \<Rightarrow> shown list" where
  "shown_for senderId payload =
     (if js_startsWith payload (js_text ''User '') \<and> js_includes payload (js_text '' joined '')
      then [Notice payload]
      else if payload \<noteq> [] then [Said senderId payload] else [])"

text \<open>Both desynchronisation branches: forget the sender's history and ask it to start afresh.\<close>

definition app_desync :: "prims \<Rightarrow> variant \<Rightarrow> nat \<Rightarrow> nat \<Rightarrow> App \<Rightarrow> App outcome" where
  "app_desync P V convId senderId a =
     app_sendDictReset P V convId senderId
       (if has (a_receivedMessages a) senderId
        then a\<lparr>a_receivedMessages := AList.update senderId [] (a_receivedMessages a)\<rparr> else a)"

definition app_processDataPacket :: "prims \<Rightarrow> variant \<Rightarrow> DecryptedData \<Rightarrow> nat \<Rightarrow> nat \<Rightarrow> App \<Rightarrow> App outcome" where
  "app_processDataPacket P V dec parsedSenderId seq a =
     (if dc_senderId dec \<noteq> parsedSenderId then Done a
      else let dict = app_getDictionary parsedSenderId seq a in
      if dc_dictFp dec \<noteq> dictFingerprint P dict then app_desync P V (dc_convId dec) parsedSenderId a
      else case inflateData P (dc_compressed dec) dict of
        Inl e \<Rightarrow> app_desync P V (dc_convId dec) parsedSenderId a
      | Inr payload \<Rightarrow>
          let dart = \<lparr>dd_type = TYPE_DATA, dd_convId = dc_convId dec, dd_senderId = parsedSenderId,
                      dd_seq = seq, dd_payload = payload\<rparr>;
              a = a\<lparr>a_receivedMessages := ensure (a_receivedMessages a) parsedSenderId\<rparr>
          in if has (sub (a_receivedMessages a) parsedSenderId) seq then Done a
             else
               let a = a\<lparr>a_receivedMessages := set2 (a_receivedMessages a) parsedSenderId seq dart\<rparr>;
                   hasBaseline = has (a_highestReceivedSeq a) parsedSenderId;
                   h = or_default (map_of (a_highestReceivedSeq a) parsedSenderId) 0;
                   d = (if hasBaseline then seqDelta h seq else 1);
                   a = (if d > 0 \<and> d < SEQ_MOD div 2
                        then a\<lparr>a_highestReceivedSeq := AList.update parsedSenderId seq (a_highestReceivedSeq a)\<rparr>
                        else a);
                   a = app_pruneReceived parsedSenderId a;
                   a = a\<lparr>a_shown := a_shown a @ shown_for parsedSenderId payload\<rparr>;
                   a = app_clearTimeout (map_of (a_ackTimers a) parsedSenderId) a
               in Done ((app_setTimeout (AppAck (dc_convId dec) parsedSenderId seq) 200 a)
                    \<lparr>a_ackTimers := AList.update parsedSenderId (a_nextTimer a) (a_ackTimers a)\<rparr>))"

text \<open>One round of the drain loop, with the \<^verbatim>\<open>catch\<close> around it.\<close>

definition app_processBuffered :: "prims \<Rightarrow> variant \<Rightarrow> buffer \<Rightarrow> nat \<Rightarrow> nat \<Rightarrow> App \<Rightarrow> App" where
  "app_processBuffered P V raw senderId seq a =
     (case app_decryptDataInOrder P raw senderId a of
        Inr (Some (dec, a')) \<Rightarrow>
          if dc_senderId dec = senderId then state_of (app_processDataPacket P V dec senderId seq a') else a'
      | _ \<Rightarrow> a)"

text \<open>The receive path leaves the out-of-order buffers alone, so the drain loop ends.\<close>

lemma app_buffer_helpers [simp]:
  "a_outOfOrderBuffer (app_setTimeout t ms a) = a_outOfOrderBuffer a"
  "a_outOfOrderBuffer (app_clearTimeout h a) = a_outOfOrderBuffer a"
  "a_outOfOrderBuffer (app_pruneReceived i a) = a_outOfOrderBuffer a"
  "a_outOfOrderBuffer (app_setChain x b i st a) = a_outOfOrderBuffer a"
  by (simp_all add: app_setTimeout_def app_clearTimeout_def app_pruneReceived_def app_setChain_def Let_def
      split: option.splits)

lemma app_buffer_broadcast [simp]: "a_outOfOrderBuffer (app_broadcast V buf a) = a_outOfOrderBuffer a"
  by (simp add: app_broadcast_def cli_broadcast_def web_broadcast_def electron_broadcast_def app_put_def
      count_sent_def Let_def split: variant.splits option.splits)

lemma app_buffer_sendDictReset [simp]:
  "a_outOfOrderBuffer (state_of (app_sendDictReset P V x b a)) = a_outOfOrderBuffer a"
  by (auto simp: app_sendDictReset_def app_random_def eval_in_def split: option.splits sum.splits)

lemma app_buffer_processDataPacket [simp]:
  "a_outOfOrderBuffer (state_of (app_processDataPacket P V dec i seq a)) = a_outOfOrderBuffer a"
  by (simp add: app_processDataPacket_def app_desync_def Let_def split: sum.splits)

lemma app_buffer_decrypt:
  "app_decryptDataInOrder P raw i a = Inr (Some (dec, a')) \<Longrightarrow> a_outOfOrderBuffer a' = a_outOfOrderBuffer a"
  by (auto simp: app_decryptDataInOrder_def Let_def case_prod_unfold split: option.splits if_splits sum.splits)

lemma app_buffer_processBuffered [simp]:
  "a_outOfOrderBuffer (app_processBuffered P V raw i seq a) = a_outOfOrderBuffer a"
  by (auto simp: app_processBuffered_def app_buffer_decrypt split: sum.splits option.splits)

function app_buffered_loop :: "prims \<Rightarrow> variant \<Rightarrow> nat \<Rightarrow> nat \<Rightarrow> App \<Rightarrow> App" where
  "app_buffered_loop P V senderId nextSeq a =
     (case map_of (sub (a_outOfOrderBuffer a) senderId) nextSeq of
        None \<Rightarrow> a
      | Some raw \<Rightarrow>
          app_buffered_loop P V senderId (seqNext nextSeq)
            (app_processBuffered P V raw senderId nextSeq
              (a\<lparr>a_outOfOrderBuffer := AList.update senderId
                  (AList.delete nextSeq (sub (a_outOfOrderBuffer a) senderId)) (a_outOfOrderBuffer a)\<rparr>)))"
  by pat_completeness auto
termination
  by (relation "measure (\<lambda>(P, V, i, s, a). length (sub (a_outOfOrderBuffer a) i))")
    (auto intro: length_delete_less simp: has_def)

declare app_buffered_loop.simps [simp del]

definition app_processBufferedPackets :: "prims \<Rightarrow> variant \<Rightarrow> nat \<Rightarrow> App \<Rightarrow> App" where
  "app_processBufferedPackets P V senderId a =
     app_buffered_loop P V senderId (seqNext (or_default (map_of (a_highestReceivedSeq a) senderId) 0)) a"

text \<open>
  Giving up on a gap. The placeholder message that is stored first is removed again by the
  \<^verbatim>\<open>clear()\<close> that follows.
\<close>

definition declarePermanentLoss :: "prims \<Rightarrow> variant \<Rightarrow> nat \<Rightarrow> nat \<Rightarrow> nat \<Rightarrow> App \<Rightarrow> App outcome" where
  "declarePermanentLoss P V convId senderId lostSeq a =
     (let a = a\<lparr>a_receivedMessages := set2 (ensure (a_receivedMessages a) senderId) senderId lostSeq
                  \<lparr>dd_type = TYPE_DATA, dd_convId = convId, dd_senderId = senderId, dd_seq = lostSeq,
                   dd_payload = []\<rparr>\<rparr>;
          d = seqDelta (or_default (map_of (a_highestReceivedSeq a) senderId) 0) lostSeq;
          a = (if d > 0 \<and> d < SEQ_MOD div 2
               then a\<lparr>a_highestReceivedSeq := AList.update senderId lostSeq (a_highestReceivedSeq a)\<rparr> else a);
          a = a\<lparr>a_receivedMessages := AList.update senderId [] (a_receivedMessages a)\<rparr>;
          a = (if has (a_outOfOrderBuffer a) senderId
               then a\<lparr>a_outOfOrderBuffer := AList.update senderId [] (a_outOfOrderBuffer a)\<rparr> else a)
      in app_sendDictReset P V convId senderId a)"

text \<open>
  The loop over a gap, with the NACK that closes it. A sequence number not seen yet is stamped with
  the time it was first missed; after 4000 ms it is given up, otherwise it is asked for again. Each
  round that looks at the time makes one reading of the clock. \<open>drain\<close> is the call of
  \<^verbatim>\<open>processBufferedPackets\<close> that only the SYNC branch has.
\<close>

fun app_gap_loop ::
    "prims \<Rightarrow> variant \<Rightarrow> clock \<Rightarrow> bool \<Rightarrow> nat \<Rightarrow> nat \<Rightarrow> nat \<Rightarrow> nat list \<Rightarrow> nat list \<Rightarrow> App \<Rightarrow> App outcome" where
  "app_gap_loop P V clk drain convId senderId highestReceived missing [] a =
     (if missing \<noteq> [] then app_sendNack P V convId senderId missing a else Done a)"
| "app_gap_loop P V clk drain convId senderId highestReceived missing (k # ks) a =
     (let i = seqAdd highestReceived k in
      if has (sub (a_outOfOrderBuffer a) senderId) i \<or> has (sub (a_receivedMessages a) senderId) i
      then app_gap_loop P V clk drain convId senderId highestReceived missing ks a
      else case map_of (sub (a_nackTimestamps a) senderId) i of
        None \<Rightarrow>
          app_gap_loop P V (clock_tick clk) drain convId senderId highestReceived (missing @ [i]) ks
            (a\<lparr>a_nackTimestamps := set2 (a_nackTimestamps a) senderId i (clock_now clk)\<rparr>)
      | Some ts \<Rightarrow>
          let later = (if ts > 0 then clock_tick clk else clk) in
          if ts > 0 \<and> clock_now clk - ts > 4000
          then and_then (declarePermanentLoss P V convId senderId i a) (\<lambda>a.
               app_gap_loop P V later drain convId senderId highestReceived missing ks
                 (if drain then app_processBufferedPackets P V senderId a else a))
          else app_gap_loop P V later drain convId senderId highestReceived (missing @ [i]) ks a)"

section \<open>handleMessage\<close>

definition app_onData :: "prims \<Rightarrow> variant \<Rightarrow> clock \<Rightarrow> buffer \<Rightarrow> App \<Rightarrow> App outcome" where
  "app_onData P V clk buf a =
     eval_in a (readUInt16BE buf 1) (\<lambda>convId.
     eval_in a (readUIntBE buf 3 3) (\<lambda>seq.
     eval_in a (readUInt8 buf 6) (\<lambda>extLen.
     if extLen < 24 then Done a
     else eval_in a (readUInt16BE buf 7) (\<lambda>parsedSenderId.
       let hasBaseline = has (a_highestReceivedSeq a) parsedSenderId;
           highestReceived = or_default (map_of (a_highestReceivedSeq a) parsedSenderId) 0;
           ahead = (if hasBaseline then seqDelta highestReceived seq
                    else if seq \<ge> 1 \<and> seq \<le> DICT_WINDOW then seq else 1)
       in if ahead = 0 \<or> ahead \<ge> SEQ_MOD div 2 then Done a
          else if ahead > 1 then
            app_gap_loop P V clk False convId parsedSenderId highestReceived [] [1..<ahead]
              (a\<lparr>a_outOfOrderBuffer := set2 (a_outOfOrderBuffer a) parsedSenderId seq buf\<rparr>)
          else eval_in a (app_decryptDataInOrder P buf parsedSenderId a) (\<lambda>r.
            case r of
              None \<Rightarrow> Done a
            | Some (dec, a) \<Rightarrow>
                and_then (app_processDataPacket P V dec parsedSenderId seq a)
                  (\<lambda>a. Done (app_processBufferedPackets P V parsedSenderId a)))))))"

fun app_retransmit_loop :: "prims \<Rightarrow> variant \<Rightarrow> nat list \<Rightarrow> App \<Rightarrow> App outcome" where
  "app_retransmit_loop P V [] a = Done a"
| "app_retransmit_loop P V (seq # seqs) a =
     (case (map_of (a_sentMessages a) seq, map_of (a_messageKeys a) seq) of
        (Some dart, Some mk) \<Rightarrow>
          let a = app_count V (\<lambda>s. s\<lparr>as_retransmits := as_retransmits s + 1\<rparr>) a;
              dict = app_getDictionary (a_senderId a) seq a
          in app_random P 12 a (\<lambda>nonce a.
             eval_in a (encodeDataHelper P dart dict (mk_key mk) (mk_idx mk) (mk_epoch mk) nonce) (\<lambda>outBuf.
             app_retransmit_loop P V seqs (app_broadcast V outBuf a)))
      | _ \<Rightarrow> app_retransmit_loop P V seqs a)"

definition app_verifies :: "prims \<Rightarrow> App \<Rightarrow> nat \<Rightarrow> nat \<Rightarrow> buffer \<Rightarrow> exn + buffer option" where
  "app_verifies P a convId senderId buf =
     (case get2 (a_roster a) convId senderId of
        None \<Rightarrow> Inr None
      | Some peerPub \<Rightarrow>
          sbind (pairwiseKey P (a_clientECDH a) peerPub) (\<lambda>k. Inr (verifyControlFrame P buf k)))"

definition app_onNack :: "prims \<Rightarrow> variant \<Rightarrow> buffer \<Rightarrow> App \<Rightarrow> App outcome" where
  "app_onNack P V buf a =
     (let a = app_count V (\<lambda>s. s\<lparr>as_nacksReceived := as_nacksReceived s + 1\<rparr>) a in
      eval_in a (readUInt16BE buf 1) (\<lambda>nackConvId.
      eval_in a (readUInt16BE buf 3) (\<lambda>nackSenderId.
      eval_in a (readUInt16BE buf 5) (\<lambda>nackTargetId.
      if nackTargetId \<noteq> a_senderId a then Done a
      else eval_in a (app_verifies P a nackConvId nackSenderId buf) (\<lambda>verified.
        case (verified, app_getCurrentKey nackConvId a) of
          (Some nackStripped, Some nackKey) \<Rightarrow>
            eval_in a (decodeNack P nackStripped nackKey) (\<lambda>nack.
            and_then (app_retransmit_loop P V (nk_missingSeq nack) a) (\<lambda>a.
            let epoch = or_default (map_of (a_currentEpochs a) nackConvId) 1 in
            case (app_getChain nackConvId epoch (a_senderId a) a, get2 (a_chainSeeds a) nackConvId epoch) of
              (Some myChain, Some seed) \<Rightarrow> app_sendChainShare P V nackConvId epoch nackSenderId seed a
            | _ \<Rightarrow> Done a))
        | _ \<Rightarrow> Done a)))))"

definition app_onSync :: "prims \<Rightarrow> variant \<Rightarrow> clock \<Rightarrow> buffer \<Rightarrow> App \<Rightarrow> App outcome" where
  "app_onSync P V clk buf a =
     (case stripControlFrame buf of
        None \<Rightarrow> Done a
      | Some syncStripped \<Rightarrow>
          eval_in a (readUInt16BE syncStripped 1) (\<lambda>syncConvId.
          case app_getCurrentKey syncConvId a of
            None \<Rightarrow> Done a
          | Some syncKey \<Rightarrow>
              eval_in a (decodeSync P syncStripped syncKey) (\<lambda>sync.
              let senderId = sy_senderId sync;
                  hasBaseline = has (a_highestReceivedSeq a) senderId;
                  highestReceived = or_default (map_of (a_highestReceivedSeq a) senderId) 0;
                  ahead = (if hasBaseline then seqDelta highestReceived (sy_highestSeq sync)
                           else sy_highestSeq sync)
              in if ahead > 0 \<and> ahead < SEQ_MOD div 2
                 then app_gap_loop P V clk True (sy_convId sync) senderId highestReceived [] [1..<ahead + 1]
                        (a\<lparr>a_receivedMessages := ensure (a_receivedMessages a) senderId\<rparr>)
                 else Done a)))"

definition app_onAck :: "prims \<Rightarrow> buffer \<Rightarrow> App \<Rightarrow> App outcome" where
  "app_onAck P buf a =
     eval_in a (readUInt16BE buf 1) (\<lambda>ackConvId.
     eval_in a (readUInt16BE buf 3) (\<lambda>ackSenderId.
     eval_in a (readUInt16BE buf 5) (\<lambda>ackTargetId.
     if ackTargetId \<noteq> a_senderId a then Done a
     else eval_in a (app_verifies P a ackConvId ackSenderId buf) (\<lambda>verified.
       case (verified, app_getCurrentKey ackConvId a) of
         (Some ackStripped, Some ackKey) \<Rightarrow>
           eval_in a (decodeAck P ackStripped ackKey) (\<lambda>ack.
           if seqDelta (a_highestSentSeq a) (ak_seq ack) < SEQ_MOD div 2
           then Done (a\<lparr>a_ackedSeq := AList.update ackConvId (ak_seq ack) (a_ackedSeq a)\<rparr>) else Done a)
       | _ \<Rightarrow> Done a))))"

definition app_onDictReset :: "prims \<Rightarrow> buffer \<Rightarrow> App \<Rightarrow> App outcome" where
  "app_onDictReset P buf a =
     (case stripControlFrame buf of
        None \<Rightarrow> Done a
      | Some resetStripped \<Rightarrow>
          eval_in a (readUInt16BE resetStripped 1) (\<lambda>resetConvId.
          case app_getCurrentKey resetConvId a of
            None \<Rightarrow> Done a
          | Some resetKey \<Rightarrow>
              eval_in a (decodeDictReset P resetStripped resetKey) (\<lambda>reset.
              if dr_targetId reset = a_senderId a then Done (a\<lparr>a_sentMessages := []\<rparr>)
              else if has (a_receivedMessages a) (dr_targetId reset)
              then Done (a\<lparr>a_receivedMessages := AList.update (dr_targetId reset) [] (a_receivedMessages a)\<rparr>)
              else Done a)))"

definition app_try :: "prims \<Rightarrow> variant \<Rightarrow> clock \<Rightarrow> buffer \<Rightarrow> App \<Rightarrow> App outcome" where
  "app_try P V clk buf a =
     eval_in a (readUInt8 buf 0) (\<lambda>type.
     if type = TYPE_DATA then app_onData P V clk buf a
     else if type = TYPE_CHAIN_SHARE then app_handleChainShare P buf a
     else if type = TYPE_NACK then app_onNack P V buf a
     else if type = TYPE_SYNC then app_onSync P V clk buf a
     else if type = TYPE_ACK then app_onAck P buf a
     else if type = TYPE_KEY_SHARE then app_handleKeyShare P V clk buf a
     else if type = TYPE_MEMBER_INFO then app_handleMemberInfo P V clk buf a
     else if type = 0x06 then app_onDictReset P buf a
     else Done a)"

definition app_handleMessage :: "prims \<Rightarrow> variant \<Rightarrow> clock \<Rightarrow> buffer \<Rightarrow> App \<Rightarrow> App" where
  "app_handleMessage P V clk buf a = state_of (app_try P V clk buf a)"

section \<open>Timers\<close>

text \<open>
  The key request of the web client goes to its socket directly, if it is open, and is not counted.
  A repeated request draws a new nonce and keeps everything else, the public key included.
\<close>

definition web_requestKey :: "KeyReqDart \<Rightarrow> App \<Rightarrow> App outcome" where
  "web_requestKey req a =
     (case a_ws a of
        Some w \<Rightarrow> if a_wsOpen a then eval_in a (encodeKeyReq req) (\<lambda>buf. Done (app_put (WsSend w buf) a)) else Done a
      | None \<Rightarrow> Done a)"

definition app_requestKey :: "variant \<Rightarrow> KeyReqDart \<Rightarrow> App \<Rightarrow> App outcome" where
  "app_requestKey V req a = (if V = Web then web_requestKey req a else app_sendKeyReq V req a)"

definition app_resend :: "prims \<Rightarrow> variant \<Rightarrow> KeyReqDart \<Rightarrow> App \<Rightarrow> App outcome" where
  "app_resend P V req a =
     (if V = Web \<and> \<not> (a_ws a \<noteq> None \<and> a_wsOpen a) then Done a
      else app_random P 16 a (\<lambda>n a. app_requestKey V (req\<lparr>kr_reqNonce := n\<rparr>) a))"

primrec app_run_task :: "prims \<Rightarrow> variant \<Rightarrow> clock \<Rightarrow> app_task \<Rightarrow> App \<Rightarrow> App outcome" where
  "app_run_task P V clk (AppResend req) a = app_resend P V req a"
| "app_run_task P V clk (AppShareKey convId epoch roster key targets) a =
     app_share_key_loop P V convId epoch roster key targets a"
| "app_run_task P V clk (AppShareChain convId epoch chain targets) a =
     app_share_chain_loop P V convId epoch chain targets a"
| "app_run_task P V clk (AppRekey convId) a = app_rekey P V clk convId a"
| "app_run_task P V clk (AppProbe convId) a = app_probe P V convId a"
| "app_run_task P V clk (AppAck convId targetId seq) a = app_sendAck P V convId targetId seq a"

definition app_fire :: "prims \<Rightarrow> variant \<Rightarrow> clock \<Rightarrow> nat \<Rightarrow> App \<Rightarrow> App outcome" where
  "app_fire P V clk handle a =
     (case map_of (a_timers a) handle of
        None \<Rightarrow> Done a
      | Some (ms, t) \<Rightarrow> app_run_task P V clk t (app_clearTimeout (Some handle) a))"

section \<open>Construction\<close>

text \<open>
  The field initialisers the three classes share. \<open>senderId\<close> is \<^verbatim>\<open>Math.floor(Math.random() * 65535)\<close>; the
  key pair is generated by \<^verbatim>\<open>connect\<close>.
\<close>

definition blank_app :: "nat \<Rightarrow> nat \<Rightarrow> string \<Rightarrow> string \<Rightarrow> nat \<Rightarrow> nat \<Rightarrow> App" where
  "blank_app senderId room fingerprint host port secs =
     \<lparr>a_senderId = senderId, a_currentRoomId = room, a_nextSeq = 1, a_highestReceivedSeq = [], a_highestSentSeq = 0,
      a_sentMessages = [], a_receivedMessages = [], a_syncTimers = [], a_ackedSeq = [], a_ackTimers = [],
      a_clientECDH = [], a_lastSendTime = 0, a_serverFingerprint = fingerprint, a_outOfOrderBuffer = [],
      a_nackTimestamps = [], a_pendingQueue = [], a_serverPort = port, a_serverHost = host, a_roster = [],
      a_sharedWith = [], a_rekeyTimer = None, a_isCreator = [], a_serverPubKeys = [], a_senderChains = [],
      a_chainSharedWith = [], a_messageKeys = [], a_chainSeeds = [], a_adoptedEpochs = [], a_roomKeys = [],
      a_currentEpochs = [], a_ws = None, a_wsOpen = False, a_udp = False, a_useWs = False,
      a_stats = \<lparr>as_packetsSent = 0, as_packetsReceived = 0, as_nacksSent = 0, as_nacksReceived = 0,
                 as_retransmits = 0, as_bytesSent = 0\<rparr>,
      a_rekeySeconds = secs, a_draws = 0, a_timers = [], a_nextTimer = 0, a_outbox = [], a_shown = []\<rparr>"

text \<open>
  What \<^verbatim>\<open>connect\<close> and \<^verbatim>\<open>resetSession\<close> do in all three classes: counters and histories restart,
  with a new key pair. The sender's id stays.
\<close>

definition app_restart :: "buffer \<Rightarrow> App \<Rightarrow> App" where
  "app_restart ecdh a =
     a\<lparr>a_nextSeq := 1, a_highestReceivedSeq := [], a_highestSentSeq := 0, a_sentMessages := [],
       a_receivedMessages := [], a_pendingQueue := [], a_nackTimestamps := [], a_outOfOrderBuffer := [],
       a_clientECDH := ecdh\<rparr>"

text \<open>\<^verbatim>\<open>trim()\<close> on UTF-16 code units: white space and line terminators of ECMAScript.\<close>

definition js_blank :: "16 word \<Rightarrow> bool" where
  "js_blank u \<longleftrightarrow> unat u \<in> {9, 10, 11, 12, 13, 32, 160, 0x1680, 0x2028, 0x2029, 0x202F, 0x205F, 0x3000, 0xFEFF}
     \<or> 0x2000 \<le> unat u \<and> unat u \<le> 0x200A"

definition text_trim :: "jsstring \<Rightarrow> jsstring" where
  "text_trim s = rev (dropWhile js_blank (rev (dropWhile js_blank s)))"

end
