(* ===== verification/Dart_App_Stream.thy ===== *)
theory Dart_App_Stream
  imports Dart_App Dart_Receive
begin

text \<open>
  The interactive clients as receivers. \<open>as_client\<close> reads the state of an interactive client as one of
  \<^verbatim>\<open>client.ts\<close>; sending control frames and running timers does not show in it. While no gap is older
  than four seconds, one arriving packet does to the two the same, which makes the interactive
  clients an instance of \<open>stream_receiver\<close>: delivery in any order holds for them too, and the texts
  are shown in the order they were sent.
\<close>

section \<open>The state the protocol is about\<close>

definition as_client :: "App \<Rightarrow> Client" where
  "as_client a = (new_client 0 None [] 0)\<lparr>c_senderId := a_senderId a, c_nextSeq := a_nextSeq a,
     c_highestReceivedSeq := a_highestReceivedSeq a, c_highestSentSeq := a_highestSentSeq a,
     c_sentMessages := a_sentMessages a, c_receivedMessages := a_receivedMessages a,
     c_outOfOrderBuffer := a_outOfOrderBuffer a, c_ackedSeq := a_ackedSeq a, c_clientECDH := a_clientECDH a,
     c_roster := a_roster a, c_serverPubKeys := a_serverPubKeys a, c_senderChains := a_senderChains a,
     c_messageKeys := a_messageKeys a, c_chainSeeds := a_chainSeeds a, c_adoptedEpochs := a_adoptedEpochs a,
     c_roomKeys := a_roomKeys a, c_currentEpochs := a_currentEpochs a, c_isCreator := a_isCreator a\<rparr>"

lemma as_client_fields [simp]:
  "c_senderId (as_client a) = a_senderId a" "c_nextSeq (as_client a) = a_nextSeq a"
  "c_highestReceivedSeq (as_client a) = a_highestReceivedSeq a" "c_highestSentSeq (as_client a) = a_highestSentSeq a"
  "c_sentMessages (as_client a) = a_sentMessages a" "c_receivedMessages (as_client a) = a_receivedMessages a"
  "c_outOfOrderBuffer (as_client a) = a_outOfOrderBuffer a" "c_ackedSeq (as_client a) = a_ackedSeq a"
  "c_clientECDH (as_client a) = a_clientECDH a" "c_roster (as_client a) = a_roster a"
  "c_serverPubKeys (as_client a) = a_serverPubKeys a" "c_senderChains (as_client a) = a_senderChains a"
  "c_messageKeys (as_client a) = a_messageKeys a" "c_chainSeeds (as_client a) = a_chainSeeds a"
  "c_adoptedEpochs (as_client a) = a_adoptedEpochs a" "c_roomKeys (as_client a) = a_roomKeys a"
  "c_currentEpochs (as_client a) = a_currentEpochs a" "c_isCreator (as_client a) = a_isCreator a"
  by (simp_all add: as_client_def)

lemma as_client_reads [simp]:
  "getChain i e s (as_client a) = app_getChain i e s a"
  "getCurrentKey i (as_client a) = app_getCurrentKey i a"
  "getDictionary s m (as_client a) = app_getDictionary s m a"
  "client_verifies P (as_client a) i s buf = app_verifies P a i s buf"
  by (simp_all add: getChain_def app_getChain_def getCurrentKey_def app_getCurrentKey_def getDictionary_def
      app_getDictionary_def client_verifies_def app_verifies_def split: option.split)

lemma as_client_setChain: "as_client (app_setChain i e s st a) = setChain i e s st (as_client a)"
  by (simp add: app_setChain_def setChain_def as_client_def)

lemma app_setChain_fields [simp]:
  "a_senderId (app_setChain i e s st a) = a_senderId a" "a_nextSeq (app_setChain i e s st a) = a_nextSeq a"
  "a_sentMessages (app_setChain i e s st a) = a_sentMessages a" "a_messageKeys (app_setChain i e s st a) = a_messageKeys a"
  "a_draws (app_setChain i e s st a) = a_draws a" "a_shown (app_setChain i e s st a) = a_shown a"
  "a_receivedMessages (app_setChain i e s st a) = a_receivedMessages a"
  "a_nackTimestamps (app_setChain i e s st a) = a_nackTimestamps a"
  by (simp_all add: app_setChain_def)

lemma as_client_buffer: "as_client (a\<lparr>a_outOfOrderBuffer := m\<rparr>) = (as_client a)\<lparr>c_outOfOrderBuffer := m\<rparr>"
  by (simp add: as_client_def)

lemma as_client_received:
  "as_client (a\<lparr>a_receivedMessages := r, a_highestReceivedSeq := h\<rparr>) =
    (as_client a)\<lparr>c_receivedMessages := r, c_highestReceivedSeq := h\<rparr>"
  "(as_client a)\<lparr>c_receivedMessages := r, c_highestReceivedSeq := a_highestReceivedSeq a\<rparr>
    = (as_client a)\<lparr>c_receivedMessages := r\<rparr>"
  by (simp_all add: as_client_def)

text \<open>The rest of the state that matters here: what was shown, asked for, queued and last sent.\<close>

definition app_core where
  "app_core a = (as_client a, a_shown a, a_nackTimestamps a, a_pendingQueue a, a_lastSendTime a, a_senderId a)"

lemma app_coreD:
  assumes "app_core a = app_core b"
  shows "as_client a = as_client b" "a_shown a = a_shown b" "a_nackTimestamps a = a_nackTimestamps b"
    "a_pendingQueue a = a_pendingQueue b" "a_lastSendTime a = a_lastSendTime b" "a_senderId a = a_senderId b"
  using assms by (simp_all add: app_core_def)

lemma app_core_simps [simp]:
  "app_core (a\<lparr>a_stats := x\<rparr>) = app_core a"
  "app_core (a\<lparr>a_draws := n\<rparr>) = app_core a"
  "app_core (a\<lparr>a_outbox := ob\<rparr>) = app_core a"
  "app_core (a\<lparr>a_timers := ts\<rparr>) = app_core a"
  "app_core (a\<lparr>a_syncTimers := hs\<rparr>) = app_core a"
  "app_core (a\<lparr>a_ackTimers := ht\<rparr>) = app_core a"
  "app_core (a\<lparr>a_rekeyTimer := h\<rparr>) = app_core a"
  "app_core (a\<lparr>a_sharedWith := sw\<rparr>) = app_core a"
  "app_core (a\<lparr>a_chainSharedWith := sw\<rparr>) = app_core a"
  "app_core (app_setTimeout t ms a) = app_core a"
  "app_core (app_clearTimeout h a) = app_core a"
  "app_core (app_count V f a) = app_core a"
  by (simp_all add: app_core_def as_client_def app_setTimeout_def app_clearTimeout_def app_count_def
      split: option.splits)

text \<open>
  What the protocol engine relies on of a transport: \<^verbatim>\<open>broadcast\<close> hands over at most one datagram or
  web-socket message, the packet itself, and touches nothing else but the counters.
\<close>

primrec wire_payload :: "wire_out \<Rightarrow> buffer" where
  "wire_payload (UdpSend address port buf) = buf"
| "wire_payload (TcpWrite sock buf) = buf"
| "wire_payload (WsSend w buf) = buf"

locale transport =
  fixes put :: "buffer \<Rightarrow> App \<Rightarrow> App"
  assumes put_core: "app_core (put buf a) = app_core a"
    and put_draws: "a_draws (put buf a) = a_draws a"
    and put_link: "a_ws (put buf a) = a_ws a \<and> a_wsOpen (put buf a) = a_wsOpen a \<and> a_udp (put buf a) = a_udp a \<and>
        a_serverHost (put buf a) = a_serverHost a \<and> a_serverPort (put buf a) = a_serverPort a"
    and put_once: "map wire_payload (a_outbox (put buf a)) = map wire_payload (a_outbox a)
        \<or> map wire_payload (a_outbox (put buf a)) = map wire_payload (a_outbox a) @ [buf]"
begin

lemma put_all_core: "app_core (fold put bufs a) = app_core a"
  by (induction bufs arbitrary: a) (simp_all add: put_core)

lemma put_all_only: "\<exists>sent. map wire_payload (a_outbox (fold put bufs a)) = map wire_payload (a_outbox a) @ sent \<and> set sent \<subseteq> set bufs"
proof (induction bufs arbitrary: a)
  case (Cons b bufs)
  obtain sent where "map wire_payload (a_outbox (fold put bufs (put b a))) = map wire_payload (a_outbox (put b a)) @ sent"
    "set sent \<subseteq> set bufs"
    using Cons [of "put b a"] by blast
  with put_once [of b a] show ?case by (auto intro: exI [of _ sent] exI [of _ "b # sent"])
qed simp

end

interpretation air: transport "app_broadcast V" for V
  by unfold_locales
    (auto simp: app_broadcast_def cli_broadcast_def web_broadcast_def electron_broadcast_def app_put_def count_sent_def
      app_core_def as_client_def Let_def split: variant.splits option.splits)

lemmas app_core_broadcast [simp] = air.put_core

lemma app_core_control [simp]:
  "app_core (state_of (app_sendNack P V i b l a)) = app_core a"
  "app_core (state_of (app_sendAck P V i b s a)) = app_core a"
  "app_core (state_of (app_sendSync P V i a)) = app_core a"
  "app_core (state_of (app_sendDictReset P V i b a)) = app_core a"
  "app_core (state_of (app_sendChainShare P V i e b ch a)) = app_core a"
  "app_core (state_of (app_sendKeyReq V r a)) = app_core a"
  by (auto simp: app_sendNack_def app_sendAck_def app_sendSync_def app_sendDictReset_def app_sendChainShare_def
      app_sendKeyReq_def app_random_def Let_def eval_in_def split: option.splits sum.splits)

section \<open>Gaps\<close>

text \<open>Every gap of a sender was noticed at or after \<open>t0\<close>.\<close>

definition stamped_since :: "nat \<Rightarrow> nat \<Rightarrow> App \<Rightarrow> bool" where
  "stamped_since t0 i a \<longleftrightarrow> (\<forall>s t. map_of (sub (a_nackTimestamps a) i) s = Some t \<longrightarrow> t0 \<le> t)"

lemma stamped_core: "app_core a = app_core b \<Longrightarrow> stamped_since t0 i a = stamped_since t0 i b"
  by (simp add: stamped_since_def app_core_def)

text \<open>Every reading of the clock lies within the four seconds from \<open>t0\<close>.\<close>

definition prompt :: "nat \<Rightarrow> clock \<Rightarrow> bool" where
  "prompt t0 clk \<longleftrightarrow> (\<forall>t \<in> readings clk. t0 \<le> t \<and> t \<le> t0 + 4000)"

lemma prompt_now: "prompt t0 clk \<Longrightarrow> t0 \<le> clock_now clk \<and> clock_now clk \<le> t0 + 4000"
  by (simp add: prompt_def)

lemma prompt_tick: "prompt t0 clk \<Longrightarrow> prompt t0 (clock_tick clk)"
  using readings_tick [of clk] by (auto simp: prompt_def)

text \<open>While that is so, a gap is only asked for.\<close>

lemma gap_loop_asks:
  assumes "stamped_since t0 i a" "prompt t0 clk"
  shows "as_client (state_of (app_gap_loop P V clk d convId i h missing ks a)) = as_client a \<and>
    a_shown (state_of (app_gap_loop P V clk d convId i h missing ks a)) = a_shown a \<and>
    stamped_since t0 i (state_of (app_gap_loop P V clk d convId i h missing ks a))"
  using assms
proof (induction ks arbitrary: missing a clk)
  case Nil
  then show ?case
    using app_coreD(1,2) [OF app_core_control(1)] stamped_core [OF app_core_control(1)] by simp
next
  case (Cons k ks)
  let ?a = "a\<lparr>a_nackTimestamps := set2 (a_nackTimestamps a) i (seqAdd h k) (clock_now clk)\<rparr>"
  have old: "\<not> clock_now clk - t > 4000" if "map_of (sub (a_nackTimestamps a) i) s = Some t" for s t
    using Cons.prems(1) that prompt_now [OF Cons.prems(2)] by (fastforce simp: stamped_since_def)
  have "as_client ?a = as_client a" "stamped_since t0 i ?a"
    using Cons.prems(1) prompt_now [OF Cons.prems(2)] by (auto simp: as_client_def stamped_since_def sub_set2 split: if_splits)
  then show ?case
    using Cons.IH [of a] Cons.IH [of ?a] Cons.prems prompt_tick [OF Cons.prems(2)] old [of "seqAdd h k"]
    by (cases "map_of (sub (a_nackTimestamps a) i) (seqAdd h k)") (simp_all add: Let_def)
qed

section \<open>One arrival\<close>

lemma stamps_prune: "stamped_since t0 i a \<Longrightarrow> stamped_since t0 i (app_pruneReceived j a)"
  by (auto simp: stamped_since_def app_pruneReceived_def Let_def gc.gc_filter map_of_filter_key sub_def
      split: option.splits if_splits)

lemma app_decrypt:
  "decryptDataInOrder P f s (as_client a) =
     map_sum id (map_option (\<lambda>(dec, a'). (dec, as_client a'))) (app_decryptDataInOrder P f s a)"
  by (simp add: decryptDataInOrder_def app_decryptDataInOrder_def as_client_setChain sbind_def Let_def case_prod_unfold
      split: sum.splits option.splits)

lemma as_client_prune: "as_client (app_pruneReceived i a) = pruneReceived i (as_client a)"
  by (simp add: app_pruneReceived_def pruneReceived_def Let_def as_client_def split: option.splits)

lemma shown_prune [simp]: "a_shown (app_pruneReceived i a) = a_shown a"
  by (simp add: app_pruneReceived_def Let_def split: option.splits)

text \<open>A new message that inflates: the two clients agree, and the text is shown.\<close>

lemma app_process_like:
  assumes dec: "dc_senderId dec = i" "dc_dictFp dec = dictFingerprint P (app_getDictionary i s a)"
      "inflateData P (dc_compressed dec) (app_getDictionary i s a) = Inr payload" "\<not> has (sub (a_receivedMessages a) i) s"
    and st: "stamped_since t0 j a"
  shows "\<exists>a'. app_processDataPacket P V dec i s a = Done a' \<and>
    client_core (as_client a') = client_core (state_of (processDataPacket P dec i s (as_client a))) \<and>
    a_shown a' = a_shown a @ shown_for i payload \<and> stamped_since t0 j a'"
proof -
  let ?dart = "\<lparr>dd_type = TYPE_DATA, dd_convId = dc_convId dec, dd_senderId = i, dd_seq = s, dd_payload = payload\<rparr>"
  let ?d = "if has (a_highestReceivedSeq a) i then seqDelta (or_default (map_of (a_highestReceivedSeq a) i) 0) s else 1"
  let ?h = "if ?d > 0 \<and> ?d < SEQ_MOD div 2 then AList.update i s (a_highestReceivedSeq a) else a_highestReceivedSeq a"
  let ?a = "a\<lparr>a_receivedMessages := set2 (ensure (a_receivedMessages a) i) i s ?dart, a_highestReceivedSeq := ?h\<rparr>"
  let ?b = "(app_pruneReceived i ?a)\<lparr>a_shown := a_shown a @ shown_for i payload\<rparr>"
  let ?b' = "app_clearTimeout (map_of (a_ackTimers ?b) i) ?b"
  let ?r = "(app_setTimeout (AppAck (dc_convId dec) i s) 200 ?b')\<lparr>a_ackTimers := AList.update i (a_nextTimer ?b') (a_ackTimers ?b')\<rparr>"
  have run: "app_processDataPacket P V dec i s a = Done ?r"
    using dec by (simp add: app_processDataPacket_def Let_def)
  have core: "app_core ?r = app_core ?b" by simp
  have "as_client ?b = pruneReceived i (as_client ?a)" using as_client_prune [of i ?a] by (simp add: as_client_def)
  moreover have "client_core (state_of (processDataPacket P dec i s (as_client a))) = client_core (pruneReceived i (as_client ?a))"
    using dec by (simp add: processDataPacket_def Let_def as_client_received)
  moreover have "stamped_since t0 j ?b"
    using stamps_prune [of t0 j ?a i] st by (simp add: stamped_since_def)
  ultimately show ?thesis
    using run app_coreD(1,2) [OF core] stamped_core [OF core] by auto
qed

lemma app_process_next:
  assumes ok: "stream_ok P \<sigma>" and at: "ready_at P \<sigma> i (as_client a)" "due \<sigma> i (as_client a)"
    and s': "on_chain P (sm_seed \<sigma>) s'" "cs_index s' = sm_idx \<sigma> (Suc i)" and st: "stamped_since t0 (sm_sender \<sigma>) a"
  shows "\<exists>a'. app_processDataPacket P V (data_decrypted P (sm_dart \<sigma> i) (sm_dict \<sigma> i) (sm_idx \<sigma> i)) (sm_sender \<sigma>) (sm_seq i)
      (app_setChain (sm_conv \<sigma>) (sm_epoch \<sigma>) (sm_sender \<sigma>) s' a) = Done a' \<and> recv_at P \<sigma> (Suc i) (as_client a') \<and>
    a_outOfOrderBuffer a' = a_outOfOrderBuffer a \<and> a_shown a' = a_shown a @ shown_for (sm_sender \<sigma>) (sm_text \<sigma> i) \<and>
    stamped_since t0 (sm_sender \<sigma>) a'"
proof -
  let ?a = "app_setChain (sm_conv \<sigma>) (sm_epoch \<sigma>) (sm_sender \<sigma>) s' a"
    and ?dec = "data_decrypted P (sm_dart \<sigma> i) (sm_dict \<sigma> i) (sm_idx \<sigma> i)"
  have a: "app_getDictionary (sm_sender \<sigma>) (sm_seq i) ?a = sm_dict \<sigma> i"
    "\<not> has (sub (a_receivedMessages ?a) (sm_sender \<sigma>)) (sm_seq i)" "stamped_since t0 (sm_sender \<sigma>) ?a" "a_shown ?a = a_shown a"
    using ready_reads(1,3) [OF ok at(1)] st
    by (simp_all add: app_setChain_def app_getDictionary_def stamped_since_def split: if_splits)
  have dec: "dc_senderId ?dec = sm_sender \<sigma>" "dc_dictFp ?dec = dictFingerprint P (sm_dict \<sigma> i)"
    by (simp_all add: data_decrypted_def sm_dart_def)
  obtain a' where a': "app_processDataPacket P V ?dec (sm_sender \<sigma>) (sm_seq i) ?a = Done a'"
    "client_core (as_client a') = client_core (state_of (processDataPacket P ?dec (sm_sender \<sigma>) (sm_seq i) (as_client ?a)))"
    "a_shown a' = a_shown ?a @ shown_for (sm_sender \<sigma>) (sm_text \<sigma> i)" "stamped_since t0 (sm_sender \<sigma>) a'"
    using app_process_like [OF dec(1) _ _ a(2,3), of P "sm_text \<sigma> i" V] dec(2) ready_reads(2) [OF ok at(1)] a(1) by auto
  obtain c' where "processDataPacket P ?dec (sm_sender \<sigma>) (sm_seq i) (as_client ?a) = Done c'" "recv_at P \<sigma> (Suc i) c'"
    using process_next [OF ok at s'] by (auto simp: as_client_setChain)
  then have "recv_at P \<sigma> (Suc i) (as_client a')" using recv_at_core(1) [OF a'(2)] by simp
  moreover have "a_outOfOrderBuffer a' = a_outOfOrderBuffer a"
    using app_buffer_processDataPacket [of P V ?dec "sm_sender \<sigma>" "sm_seq i" ?a] a'(1) by simp
  ultimately show ?thesis using a' a(4) by simp
qed

lemma app_decrypt_next:
  assumes ok: "stream_ok P \<sigma>" "sm_idx \<sigma> i < 4294967296" "is_frame P \<sigma> i f" and at: "ready_at P \<sigma> i (as_client a)"
  shows "\<exists>s'. app_decryptDataInOrder P f (sm_sender \<sigma>) a
      = Inr (Some (data_decrypted P (sm_dart \<sigma> i) (sm_dict \<sigma> i) (sm_idx \<sigma> i),
                   app_setChain (sm_conv \<sigma>) (sm_epoch \<sigma>) (sm_sender \<sigma>) s' a))
    \<and> on_chain P (sm_seed \<sigma>) s' \<and> cs_index s' = sm_idx \<sigma> (Suc i)"
proof -
  from at obtain s where s: "app_getChain (sm_conv \<sigma>) (sm_epoch \<sigma>) (sm_sender \<sigma>) a = Some s"
    "on_chain P (sm_seed \<sigma>) s" "cs_index s \<le> sm_idx \<sigma> i" and i: "sm_first \<sigma> \<le> i"
    unfolding ready_at_def by auto
  show ?thesis
    using s frame_opens [OF ok s(2,3) i] sm_frame_reads [OF ok] by (auto simp: app_decryptDataInOrder_def)
qed

section \<open>The interactive clients as receivers\<close>

definition app_pop :: "nat \<Rightarrow> nat \<Rightarrow> App \<Rightarrow> App" where
  "app_pop i s a = a\<lparr>a_outOfOrderBuffer := AList.update i (AList.delete s (sub (a_outOfOrderBuffer a) i)) (a_outOfOrderBuffer a)\<rparr>"

lemma app_buffered_next:
  assumes "stream_ok P \<sigma>" "sm_idx \<sigma> i < 4294967296" "recv_at P \<sigma> i (as_client a)" "is_frame P \<sigma> i f"
    and "stamped_since t0 (sm_sender \<sigma>) a"
  shows "recv_at P \<sigma> (Suc i) (as_client (app_processBuffered P V f (sm_sender \<sigma>) (sm_seq i) a)) \<and>
    a_shown (app_processBuffered P V f (sm_sender \<sigma>) (sm_seq i) a) = a_shown a @ shown_for (sm_sender \<sigma>) (sm_text \<sigma> i) \<and>
    stamped_since t0 (sm_sender \<sigma>) (app_processBuffered P V f (sm_sender \<sigma>) (sm_seq i) a)"
proof -
  note at = recv_at_due [OF assms(1,3)]
  obtain s' where s': "app_decryptDataInOrder P f (sm_sender \<sigma>) a
      = Inr (Some (data_decrypted P (sm_dart \<sigma> i) (sm_dict \<sigma> i) (sm_idx \<sigma> i),
                   app_setChain (sm_conv \<sigma>) (sm_epoch \<sigma>) (sm_sender \<sigma>) s' a))"
    "on_chain P (sm_seed \<sigma>) s'" "cs_index s' = sm_idx \<sigma> (Suc i)"
    using app_decrypt_next [OF assms(1,2,4) at(1)] by blast
  with app_process_next [OF assms(1) at s'(2,3) assms(5), of V] show ?thesis
    by (auto simp: app_processBuffered_def data_decrypted_def sm_dart_def)
qed

lemma app_ignores_old:
  assumes "readUInt8 f 0 = Inr TYPE_DATA" "readUInt16BE f 1 = Inr conv" "readUIntBE f 3 3 = Inr s" "readUInt8 f 6 = Inr 24"
    and "readUInt16BE f 7 = Inr i" "map_of (a_highestReceivedSeq a) i = Some h" "\<not> seq_newer h s"
  shows "app_handleMessage P V clk f a = a"
  using assms by (auto simp: app_handleMessage_def app_try_def app_onData_def Let_def has_def seq_newer_def TYPE_DATA_def)

lemma app_takes_old:
  assumes ok: "stream_ok P \<sigma>" "sm_idx \<sigma> j < 4294967296" "is_frame P \<sigma> j f" and at: "recv_at P \<sigma> i (as_client a)"
    and j: "j < i" "i < j + 8388608"
  shows "app_handleMessage P V clk f a = a"
proof -
  have "\<not> seq_newer (sm_seq (i - 1)) (sm_seq j)"
    using j sm_seq_newer [of j "i - 1"] by auto
  then show ?thesis
    using at app_ignores_old [OF sm_frame_reads(1-5) [OF ok]] by (simp add: recv_at_def)
qed

lemma app_takes_early:
  assumes ok: "stream_ok P \<sigma>" "sm_idx \<sigma> j < 4294967296" "is_frame P \<sigma> j f" and at: "recv_at P \<sigma> i (as_client a)"
    and j: "i < j" "j < i + 8388607" and st: "stamped_since t0 (sm_sender \<sigma>) a" "prompt t0 clk"
  shows "as_client (app_handleMessage P V clk f a) =
      (as_client a)\<lparr>c_outOfOrderBuffer := set2 (a_outOfOrderBuffer a) (sm_sender \<sigma>) (sm_seq j) f\<rparr> \<and>
    a_shown (app_handleMessage P V clk f a) = a_shown a \<and>
    stamped_since t0 (sm_sender \<sigma>) (app_handleMessage P V clk f a)"
proof -
  let ?a = "a\<lparr>a_outOfOrderBuffer := set2 (a_outOfOrderBuffer a) (sm_sender \<sigma>) (sm_seq j) f\<rparr>"
  have h: "map_of (a_highestReceivedSeq a) (sm_sender \<sigma>) = Some (sm_seq (i - 1))" and "1 \<le> i"
    using at ok(1) by (auto simp: recv_at_def ready_at_def stream_ok_def)
  have "seqDelta (sm_seq (i - 1)) (sm_seq j) = j - (i - 1)"
    using j \<open>1 \<le> i\<close> by (intro sm_seq_delta) auto
  then obtain k where k: "seqDelta (sm_seq (i - 1)) (sm_seq j) = k" "1 < k" "k < 8388608"
    using j \<open>1 \<le> i\<close> by force
  have run: "app_handleMessage P V clk f a
      = state_of (app_gap_loop P V clk False (sm_conv \<sigma>) (sm_sender \<sigma>) (sm_seq (i - 1)) [] [1..<k] ?a)"
    using h k sm_frame_reads [OF ok]
    by (simp add: app_handleMessage_def app_try_def app_onData_def Let_def has_def SEQ_MOD_val TYPE_DATA_def)
  have "stamped_since t0 (sm_sender \<sigma>) ?a" using st(1) by (simp add: stamped_since_def)
  from gap_loop_asks [OF this st(2)] show ?thesis by (simp add: run as_client_buffer)
qed

lemma app_takes_due:
  assumes ok: "stream_ok P \<sigma>" "sm_idx \<sigma> i < 4294967296" "is_frame P \<sigma> i f" and at: "ready_at P \<sigma> i (as_client a)" "due \<sigma> i (as_client a)"
    and st: "stamped_since t0 (sm_sender \<sigma>) a"
  shows "\<exists>a'. app_handleMessage P V clk f a = app_buffered_loop P V (sm_sender \<sigma>) (sm_seq (Suc i)) a' \<and>
    recv_at P \<sigma> (Suc i) (as_client a') \<and> a_shown a' = a_shown a @ shown_for (sm_sender \<sigma>) (sm_text \<sigma> i) \<and>
    stamped_since t0 (sm_sender \<sigma>) a' \<and> a_outOfOrderBuffer a' = a_outOfOrderBuffer a"
proof -
  obtain s' where dec: "app_decryptDataInOrder P f (sm_sender \<sigma>) a
      = Inr (Some (data_decrypted P (sm_dart \<sigma> i) (sm_dict \<sigma> i) (sm_idx \<sigma> i),
                   app_setChain (sm_conv \<sigma>) (sm_epoch \<sigma>) (sm_sender \<sigma>) s' a))"
    and s': "on_chain P (sm_seed \<sigma>) s'" "cs_index s' = sm_idx \<sigma> (Suc i)"
    using app_decrypt_next [OF ok at(1)] by blast
  from app_process_next [OF ok(1) at s' st, of V] obtain a' where a':
    "app_processDataPacket P V (data_decrypted P (sm_dart \<sigma> i) (sm_dict \<sigma> i) (sm_idx \<sigma> i)) (sm_sender \<sigma>) (sm_seq i)
      (app_setChain (sm_conv \<sigma>) (sm_epoch \<sigma>) (sm_sender \<sigma>) s' a) = Done a'"
    "recv_at P \<sigma> (Suc i) (as_client a')" "a_outOfOrderBuffer a' = a_outOfOrderBuffer a"
    "a_shown a' = a_shown a @ shown_for (sm_sender \<sigma>) (sm_text \<sigma> i)" "stamped_since t0 (sm_sender \<sigma>) a'"
    by blast
  have "map_of (a_highestReceivedSeq a') (sm_sender \<sigma>) = Some (sm_seq i)"
    using a'(2) by (simp add: recv_at_def)
  then have "app_handleMessage P V clk f a = app_buffered_loop P V (sm_sender \<sigma>) (sm_seq (Suc i)) a'"
    using at(2) dec a'(1) sm_frame_reads [OF ok]
    by (cases "map_of (a_highestReceivedSeq a) (sm_sender \<sigma>)")
      (simp_all add: due_def app_handleMessage_def app_try_def app_onData_def Let_def has_def SEQ_MOD_val
        TYPE_DATA_def DICT_WINDOW_def app_processBufferedPackets_def sm_seq_Suc, auto)
  then show ?thesis using a' by auto
qed

text \<open>Events carry the clock they are handled by; all readings lie within the four seconds from \<open>t0\<close>.\<close>

interpretation ui: stream_receiver P \<sigma> as_client a_shown "\<lambda>n. shown_for (sm_sender \<sigma>) (sm_text \<sigma> n)"
    "stamped_since t0 (sm_sender \<sigma>)" "snd :: clock \<times> buffer \<Rightarrow> buffer" "\<lambda>e. prompt t0 (fst e)"
    "app_pop (sm_sender \<sigma>)" "\<lambda>raw s. app_processBuffered P V raw (sm_sender \<sigma>) s" "app_buffered_loop P V (sm_sender \<sigma>)"
    "\<lambda>e. app_handleMessage P V (fst e) (snd e)"
  for P \<sigma> t0 V
proof (unfold_locales, goal_cases)
  case (1 s x)
  show ?case by (simp add: app_buffered_loop.simps [of P V "sm_sender \<sigma>" s x] app_pop_def split: option.split)
next
  case (5 i x f)
  then show ?case using app_buffered_next [of P \<sigma> i x f t0 V] by simp
next
  case (6 j e i x)
  then show ?case using app_takes_old [of P \<sigma> j "snd e" i x V "fst e"] by simp
next
  case (7 j e i x)
  then show ?case using app_takes_early [of P \<sigma> j "snd e" i x t0 "fst e" V] by simp
next
  case (8 i e x)
  then show ?case using app_takes_due [of P \<sigma> i "snd e" x t0 V "fst e"] recv_at_due [of P \<sigma> i "as_client x"] by auto
qed (simp_all add: app_pop_def as_client_buffer stamped_since_def)

section \<open>Where a packet goes\<close>

definition wire_for :: "variant \<Rightarrow> App \<Rightarrow> buffer \<Rightarrow> wire_out list" where
  "wire_for V a buf =
     (case V of
        Cli \<Rightarrow> [UdpSend (a_serverHost a) (a_serverPort a) buf]
      | Web \<Rightarrow> (case a_ws a of Some w \<Rightarrow> if a_wsOpen a then [WsSend w buf] else [] | None \<Rightarrow> [])
      | Electron \<Rightarrow> if a_ws a \<noteq> None \<and> a_wsOpen a then [WsSend (the (a_ws a)) buf]
                    else if a_udp a then [UdpSend (a_serverHost a) (a_serverPort a) buf] else [])"

definition linked :: "variant \<Rightarrow> App \<Rightarrow> bool" where
  "linked V a \<longleftrightarrow> wire_for V a [] \<noteq> []"

lemma broadcast_outbox: "a_outbox (app_broadcast V buf a) = a_outbox a @ wire_for V a buf"
  by (simp add: app_broadcast_def cli_broadcast_def web_broadcast_def electron_broadcast_def app_put_def count_sent_def
      wire_for_def Let_def split: variant.splits option.splits)

lemma wire_for_linked: "map wire_payload (wire_for V a buf) = (if linked V a then [buf] else [])"
  by (simp add: wire_for_def linked_def split: variant.splits option.splits)

text \<open>The transport itself: nothing but connecting and closing changes it.\<close>

definition link where
  "link a = (a_ws a, a_wsOpen a, a_udp a, a_serverHost a, a_serverPort a)"

lemma wire_for_link: "link a = link b \<Longrightarrow> wire_for V a buf = wire_for V b buf" "link a = link b \<Longrightarrow> linked V a = linked V b"
  by (simp_all add: wire_for_def linked_def link_def split: variant.split option.split)

section \<open>The sending end\<close>

lemma app_pruneSent_run:
  "app_pruneSent a = a\<lparr>a_sentMessages := window_gc (DICT_WINDOW + 16) (a_highestSentSeq a) (a_sentMessages a),
     a_messageKeys := fold (\<lambda>k m. if seqDelta k (a_highestSentSeq a) > DICT_WINDOW + 16 then AList.delete k m else m)
       (map fst (a_sentMessages a)) (a_messageKeys a)\<rparr>"
proof -
  have "fold (\<lambda>k a. if seqDelta k (a_highestSentSeq a) > w then a\<lparr>a_sentMessages := AList.delete k (a_sentMessages a),
           a_messageKeys := AList.delete k (a_messageKeys a)\<rparr> else a) ks a
      = a\<lparr>a_sentMessages := fold (\<lambda>k m. if seqDelta k (a_highestSentSeq a) > w then AList.delete k m else m) ks (a_sentMessages a),
          a_messageKeys := fold (\<lambda>k m. if seqDelta k (a_highestSentSeq a) > w then AList.delete k m else m) ks (a_messageKeys a)\<rparr>" for ks w a
    by (induction ks arbitrary: a) auto
  then show ?thesis by (simp add: app_pruneSent_def window_gc_def)
qed

lemma dict_after_push: "sm_first \<sigma> \<le> n \<Longrightarrow> dict_of (map snd (sm_hist \<sigma> (Suc n))) (sm_seq n) = sm_dict \<sigma> n"
  by (rule retransmit_dict) auto

lemma sync_timers_keep:
  "app_core (syncProbe i a) = app_core a" "app_core (clearSyncTimers a) = app_core a"
  "a_outbox (syncProbe i a) = a_outbox a" "a_outbox (clearSyncTimers a) = a_outbox a"
  "link (syncProbe i a) = link a" "link (clearSyncTimers a) = link a"
proof -
  have "app_core (fold (\<lambda>t. app_clearTimeout (Some t)) ts a) = app_core a"
    "a_outbox (fold (\<lambda>t. app_clearTimeout (Some t)) ts a) = a_outbox a"
    "link (fold (\<lambda>t. app_clearTimeout (Some t)) ts a) = link a" for ts
    by (induction ts arbitrary: a) (simp_all add: app_clearTimeout_def link_def)
  then show "app_core (clearSyncTimers a) = app_core a" "a_outbox (clearSyncTimers a) = a_outbox a"
    "link (clearSyncTimers a) = link a"
    by (simp_all add: clearSyncTimers_def) (simp add: link_def)
qed (simp_all add: syncProbe_def, simp_all add: app_setTimeout_def link_def)

lemma app_sendData_sends:
  assumes ok: "stream_ok P \<sigma>" and at: "sender_at P \<sigma> n (as_client a)" and n: "sm_first \<sigma> \<le> n"
    and key: "app_getCurrentKey (sm_conv \<sigma>) a \<noteq> None" and rate: "250 \<le> now - a_lastSendTime a"
  shows "\<exists>a'. app_sendData P V now (sm_conv \<sigma>) (sm_text \<sigma> n) a = Done a' \<and> sender_at P \<sigma> (Suc n) (as_client a') \<and>
    a_outbox a' = a_outbox a @ wire_for V a (sm_frame P \<sigma> (randomBytes P (a_draws a) 12) n) \<and>
    a_lastSendTime a' = now \<and> link a' = link a \<and> app_getCurrentKey (sm_conv \<sigma>) a' = app_getCurrentKey (sm_conv \<sigma>) a"
proof -
  let ?nonce = "randomBytes P (a_draws a) 12"
  have nonce: "length ?nonce = 12" using ok by (simp add: stream_ok_def random_sized_def)
  let ?conv = "sm_conv \<sigma>" and ?me = "sm_sender \<sigma>" and ?e = "sm_epoch \<sigma>" and ?f = "sm_frame P \<sigma> ?nonce n"
  from at obtain s where s: "app_getChain ?conv ?e ?me a = Some s" "on_chain P (sm_seed \<sigma>) s" "cs_index s = sm_idx \<sigma> n"
    and st: "a_senderId a = ?me" "a_nextSeq a = sm_seq n" "a_sentMessages a = sm_hist \<sigma> n"
      "or_default (map_of (a_currentEpochs a) ?conv) 1 = ?e"
    and mk: "\<forall>j. sm_first \<sigma> \<le> j \<and> n - 217 \<le> j \<and> j < n \<longrightarrow> map_of (a_messageKeys a) (sm_seq j) = Some (sm_message_key P \<sigma> j)"
    unfolding sender_at_def by auto
  define s' where "s' = \<lparr>cs_key = (chainNextKey P ^^ (sm_idx \<sigma> n + 1)) (sm_seed \<sigma>), cs_index = sm_idx \<sigma> n + 1\<rparr>"
  have adv: "advanceChain P s (cs_index s) = (sm_key P \<sigma> n, s')"
    using advanceChain_on_chain [OF s(2) order_refl] s(3) by (simp add: sm_key_def s'_def)
  have next_idx: "on_chain P (sm_seed \<sigma>) s'" "cs_index s' = sm_idx \<sigma> (Suc n)"
    using n by (simp_all add: s'_def on_chain_def sm_idx_def)
  let ?a1 = "(app_setChain ?conv ?e ?me s' (a\<lparr>a_lastSendTime := now\<rparr>))\<lparr>a_nextSeq := seqNext (sm_seq n),
      a_sentMessages := AList.update (sm_seq n) (sm_dart \<sigma> n) (sm_hist \<sigma> n),
      a_messageKeys := AList.update (sm_seq n) (sm_message_key P \<sigma> n) (a_messageKeys a), a_highestSentSeq := sm_seq n\<rparr>"
  let ?a2 = "(app_pruneSent ?a1)\<lparr>a_draws := a_draws a + 1\<rparr>"
  have a2: "a_senderId ?a2 = ?me" "a_nextSeq ?a2 = sm_seq (Suc n)" "a_sentMessages ?a2 = sm_hist \<sigma> (Suc n)"
    "a_currentEpochs ?a2 = a_currentEpochs a" "app_getChain ?conv ?e ?me ?a2 = Some s'" "link ?a2 = link a"
    "a_outbox ?a2 = a_outbox a" "a_lastSendTime ?a2 = now" "app_getCurrentKey ?conv ?a2 = app_getCurrentKey ?conv a"
    using sm_hist_push [OF n] st
    by (simp_all add: app_pruneSent_run sm_seq_Suc app_setChain_def app_getChain_def link_def app_getCurrentKey_def)
  have mk2: "map_of (a_messageKeys ?a2) (sm_seq j) = Some (sm_message_key P \<sigma> j)"
    if "sm_first \<sigma> \<le> j" "Suc n - 217 \<le> j" "j < Suc n" for j
    using message_keys_push [OF n mk that] by (simp add: app_pruneSent_run)
  let ?r = "syncProbe ?conv (clearSyncTimers (app_broadcast V ?f ?a2))"
  have "app_sendData P V now ?conv (sm_text \<sigma> n) a = Done ?r"
    using st s(1,3) adv key rate sm_frame_encoded [OF ok nonce, of n] dict_after_push [OF n] sm_hist_push [OF n]
    by (auto simp: app_sendData_def Let_def app_getDictionary_def app_random_def sm_dart_def app_pruneSent_run
        sm_message_key_def app_getCurrentKey_def app_getChain_def app_setChain_def)
  moreover have core: "app_core ?r = app_core ?a2" by (simp only: sync_timers_keep app_core_broadcast)
  moreover have "sender_at P \<sigma> (Suc n) (as_client ?r)"
    unfolding app_coreD(1) [OF core] sender_at_def using a2 st next_idx mk2 by simp
  moreover have "app_getCurrentKey ?conv ?r = app_getCurrentKey ?conv ?a2"
    using app_coreD(1) [OF core] as_client_reads(2) by metis
  moreover have "link ?r = link a"
    using air.put_link [of V ?f ?a2] a2(6) unfolding sync_timers_keep by (simp add: link_def)
  moreover have "a_outbox ?r = a_outbox a @ wire_for V a ?f"
    unfolding sync_timers_keep broadcast_outbox a2(7) wire_for_link(1) [OF a2(6)] ..
  ultimately show ?thesis using a2(8,9) app_coreD(5) [OF core] by auto
qed

end
