(* ===== verification/Dart_Cli.thy ===== *)
theory Dart_Cli
  imports Dart_App
begin

text \<open>
  The terminal client of \<^verbatim>\<open>cli.ts\<close>: construction, joining a room and the line handler, over the
  shared engine of \<open>Dart_App\<close>. The prompt for the room number and the printing are not modelled.
\<close>

definition cli_connect :: "buffer \<Rightarrow> App \<Rightarrow> App" where
  "cli_connect ecdh a = app_restart ecdh a"

text \<open>The constructor; \<open>fp\<close> is the environment variable \<^verbatim>\<open>DART_SERVER_FINGERPRINT\<close>, empty if unset.\<close>

definition new_cli :: "nat \<Rightarrow> string \<Rightarrow> buffer \<Rightarrow> nat \<Rightarrow> App" where
  "new_cli senderId fp ecdh secs =
     cli_connect ecdh ((blank_app senderId 0 (js_lower (js_trim fp)) ''127.0.0.1'' 9000 secs)\<lparr>a_udp := True\<rparr>)"

definition cli_joinRoom :: "prims \<Rightarrow> nat \<Rightarrow> App \<Rightarrow> App outcome" where
  "cli_joinRoom P roomId a =
     (let a = a\<lparr>a_currentRoomId := roomId\<rparr> in
      app_random P 16 a (\<lambda>reqNonce a.
      let req = key_request P roomId reqNonce a in
      and_then (app_sendKeyReq Cli req a) (\<lambda>a. Done (resend_thrice req a))))"

text \<open>The \<^verbatim>\<open>message\<close> handler of the socket.\<close>

definition cli_onMessage :: "prims \<Rightarrow> clock \<Rightarrow> buffer \<Rightarrow> App \<Rightarrow> App" where
  "cli_onMessage P clk msg a = app_handleMessage P Cli clk msg a"

text \<open>A line typed by the user; \<open>None\<close> is the end of the process.\<close>

definition cli_onLine :: "prims \<Rightarrow> nat \<Rightarrow> jsstring \<Rightarrow> App \<Rightarrow> App outcome option" where
  "cli_onLine P now line a =
     (let txt = text_trim line in
      if txt = js_text ''/quit'' \<or> txt = js_text ''/exit'' then None
      else if txt \<noteq> [] then Some (app_sendData P Cli now (a_currentRoomId a) txt a)
      else Some (Done a))"

end
