(* ===== verification/Dart_Web.thy ===== *)
theory Dart_Web
  imports Dart_App
begin

text \<open>
  The browser client of \<^verbatim>\<open>web-app.ts\<close>, class \<^verbatim>\<open>WebDartClient\<close>. Its protocol methods repeat those of
  \<^verbatim>\<open>cli.ts\<close> with packet counters added and another greeting, so each is the engine of \<open>Dart_App\<close> at
  the variant \<open>Web\<close>; the transport (one web socket) and the page's handlers are its own. The document
  and the display of the counters are not modelled.
\<close>

section \<open>Construction and transport\<close>

text \<open>
  \<^verbatim>\<open>connect\<close>: the session restarts and a new web socket \<open>sock\<close> replaces the old one, not open yet.
  The group keys, the roster and the ratchet chains stay.
\<close>

definition web_connect :: "buffer \<Rightarrow> nat \<Rightarrow> App \<Rightarrow> App" where
  "web_connect ecdh sock a = (app_restart ecdh a)\<lparr>a_ws := Some sock, a_wsOpen := False\<rparr>"

definition new_web :: "nat \<Rightarrow> buffer \<Rightarrow> nat \<Rightarrow> nat \<Rightarrow> App" where
  "new_web senderId ecdh sock secs = web_connect ecdh sock (blank_app senderId 1 '''' '''' 0 secs)"

definition web_joinRoom :: "prims \<Rightarrow> nat \<Rightarrow> App \<Rightarrow> App outcome" where
  "web_joinRoom P roomId a =
     (let a = a\<lparr>a_currentRoomId := roomId\<rparr> in
      app_random P 16 a (\<lambda>reqNonce a.
      let req = key_request P roomId reqNonce a in
      and_then (web_requestKey req a) (\<lambda>a. Done (resend_thrice req a))))"

definition web_onopen :: "prims \<Rightarrow> App \<Rightarrow> App outcome" where
  "web_onopen P a = web_joinRoom P (a_currentRoomId a) (a\<lparr>a_wsOpen := True\<rparr>)"

definition web_onclose :: "App \<Rightarrow> App" where
  "web_onclose a = a\<lparr>a_wsOpen := False\<rparr>"

section \<open>The protocol methods\<close>

definition web_getDictionary :: "nat \<Rightarrow> nat \<Rightarrow> App \<Rightarrow> buffer" where
  "web_getDictionary = app_getDictionary"

definition web_pruneSent :: "App \<Rightarrow> App" where
  "web_pruneSent = app_pruneSent"

definition web_pruneReceived :: "nat \<Rightarrow> App \<Rightarrow> App" where
  "web_pruneReceived = app_pruneReceived"

definition web_sendData :: "prims \<Rightarrow> nat \<Rightarrow> nat \<Rightarrow> jsstring \<Rightarrow> App \<Rightarrow> App outcome" where
  "web_sendData P = app_sendData P Web"

definition web_probe :: "prims \<Rightarrow> nat \<Rightarrow> App \<Rightarrow> App outcome" where
  "web_probe P = app_probe P Web"

definition web_handleMessage :: "prims \<Rightarrow> clock \<Rightarrow> buffer \<Rightarrow> App \<Rightarrow> App" where
  "web_handleMessage P = app_handleMessage P Web"

definition web_handleMemberInfo :: "prims \<Rightarrow> clock \<Rightarrow> buffer \<Rightarrow> App \<Rightarrow> App outcome" where
  "web_handleMemberInfo P = app_handleMemberInfo P Web"

definition web_handleKeyShare :: "prims \<Rightarrow> clock \<Rightarrow> buffer \<Rightarrow> App \<Rightarrow> App outcome" where
  "web_handleKeyShare P = app_handleKeyShare P Web"

definition web_adoptKey :: "prims \<Rightarrow> clock \<Rightarrow> nat \<Rightarrow> nat \<Rightarrow> buffer \<Rightarrow> App \<Rightarrow> App outcome" where
  "web_adoptKey P = app_adoptKey P Web"

definition web_shareWithNewMembers :: "prims \<Rightarrow> nat \<Rightarrow> App \<Rightarrow> App outcome" where
  "web_shareWithNewMembers P = app_shareWithNewMembers P Web"

definition web_rekey :: "prims \<Rightarrow> clock \<Rightarrow> nat \<Rightarrow> App \<Rightarrow> App outcome" where
  "web_rekey P = app_rekey P Web"

definition web_setChain :: "nat \<Rightarrow> nat \<Rightarrow> nat \<Rightarrow> ChainState \<Rightarrow> App \<Rightarrow> App" where
  "web_setChain = app_setChain"

definition web_initOwnChain :: "prims \<Rightarrow> nat \<Rightarrow> nat \<Rightarrow> App \<Rightarrow> App outcome" where
  "web_initOwnChain P = app_initOwnChain P Web"

definition web_shareChainWithMembers :: "prims \<Rightarrow> nat \<Rightarrow> nat \<Rightarrow> App \<Rightarrow> App outcome" where
  "web_shareChainWithMembers P = app_shareChainWithMembers P Web"

definition web_sendChainShare :: "prims \<Rightarrow> nat \<Rightarrow> nat \<Rightarrow> nat \<Rightarrow> ChainState \<Rightarrow> App \<Rightarrow> App outcome" where
  "web_sendChainShare P = app_sendChainShare P Web"

definition web_handleChainShare :: "prims \<Rightarrow> buffer \<Rightarrow> App \<Rightarrow> App outcome" where
  "web_handleChainShare = app_handleChainShare"

definition web_scheduleRekey :: "nat \<Rightarrow> App \<Rightarrow> App" where
  "web_scheduleRekey = app_scheduleRekey"

definition web_pruneOldEpochs :: "nat \<Rightarrow> App \<Rightarrow> App" where
  "web_pruneOldEpochs = app_pruneOldEpochs"

definition web_decryptDataInOrder :: "prims \<Rightarrow> buffer \<Rightarrow> nat \<Rightarrow> App \<Rightarrow> exn + (DecryptedData \<times> App) option" where
  "web_decryptDataInOrder = app_decryptDataInOrder"

definition web_processDataPacket :: "prims \<Rightarrow> DecryptedData \<Rightarrow> nat \<Rightarrow> nat \<Rightarrow> App \<Rightarrow> App outcome" where
  "web_processDataPacket P = app_processDataPacket P Web"

definition web_processBufferedPackets :: "prims \<Rightarrow> nat \<Rightarrow> App \<Rightarrow> App" where
  "web_processBufferedPackets P = app_processBufferedPackets P Web"

definition web_declarePermanentLoss :: "prims \<Rightarrow> nat \<Rightarrow> nat \<Rightarrow> nat \<Rightarrow> App \<Rightarrow> App outcome" where
  "web_declarePermanentLoss P = declarePermanentLoss P Web"

definition web_sendDictReset :: "prims \<Rightarrow> nat \<Rightarrow> nat \<Rightarrow> App \<Rightarrow> App outcome" where
  "web_sendDictReset P = app_sendDictReset P Web"

definition web_sendAck :: "prims \<Rightarrow> nat \<Rightarrow> nat \<Rightarrow> nat \<Rightarrow> App \<Rightarrow> App outcome" where
  "web_sendAck P = app_sendAck P Web"

definition web_sendNack :: "prims \<Rightarrow> nat \<Rightarrow> nat \<Rightarrow> nat list \<Rightarrow> App \<Rightarrow> App outcome" where
  "web_sendNack P = app_sendNack P Web"

definition web_sendSync :: "prims \<Rightarrow> nat \<Rightarrow> App \<Rightarrow> App outcome" where
  "web_sendSync P = app_sendSync P Web"

section \<open>Events\<close>

definition web_onmessage :: "prims \<Rightarrow> clock \<Rightarrow> buffer \<Rightarrow> App \<Rightarrow> App" where
  "web_onmessage P clk msg a =
     web_handleMessage P clk msg
       (a\<lparr>a_stats := (a_stats a)\<lparr>as_packetsReceived := as_packetsReceived (a_stats a) + 1\<rparr>\<rparr>)"

text \<open>The send button: the text is sent as typed, unless it is blank.\<close>

definition web_onSend :: "prims \<Rightarrow> nat \<Rightarrow> jsstring \<Rightarrow> App \<Rightarrow> App outcome" where
  "web_onSend P now txt a =
     (if text_trim txt \<noteq> [] then web_sendData P now (a_currentRoomId a) txt a else Done a)"

end
