(* ===== verification/Dart_Electron.thy ===== *)
theory Dart_Electron
  imports Dart_App
begin

text \<open>
  The desktop client of \<^verbatim>\<open>electron-gui.ts\<close>, class \<^verbatim>\<open>ElectronDartClient\<close>. The protocol methods are the
  engine of \<open>Dart_App\<close> at the variant \<open>Electron\<close>; connecting, the choice between web socket and UDP and
  the form are its own. The window and the status line are not modelled.
\<close>

section \<open>Construction and transport\<close>

text \<open>The constructor: there is no key pair before the first \<^verbatim>\<open>connectAndJoin\<close>.\<close>

definition new_electron :: "nat \<Rightarrow> string \<Rightarrow> nat \<Rightarrow> App" where
  "new_electron senderId fp secs = blank_app senderId 1 (js_lower (js_trim fp)) ''daebak.init3.ro'' 9000 secs"

definition resetSession :: "buffer \<Rightarrow> App \<Rightarrow> App" where
  "resetSession ecdh a =
     (app_restart ecdh a)\<lparr>a_roster := [], a_sharedWith := [], a_serverPubKeys := [], a_senderChains := [],
       a_chainSharedWith := [], a_messageKeys := [], a_adoptedEpochs := [], a_roomKeys := [],
       a_currentEpochs := [], a_isCreator := []\<rparr>"

definition closeTransports :: "App \<Rightarrow> App" where
  "closeTransports a = a\<lparr>a_ws := None, a_wsOpen := False, a_udp := False\<rparr>"

definition text_starts :: "string \<Rightarrow> string \<Rightarrow> bool" where
  "text_starts s p \<longleftrightarrow> take (length p) s = p"

definition wsUrl :: "App \<Rightarrow> string" where
  "wsUrl a =
     (let host = js_trim (a_serverHost a) in
      if text_starts host ''ws://'' \<or> text_starts host ''wss://'' then host
      else if host = ''127.0.0.1'' \<or> host = ''localhost'' then ''ws://'' @ host @ '':9002''
      else ''wss://'' @ host @ ''/dart/ws/'')"

text \<open>\<^verbatim>\<open>connectAndJoin\<close> up to its asynchronous callbacks; the result carries the URL of a new web socket \<open>sock\<close>.\<close>

definition connectAndJoin :: "nat \<Rightarrow> buffer \<Rightarrow> nat \<Rightarrow> App \<Rightarrow> string option \<times> App" where
  "connectAndJoin roomId ecdh sock a =
     (let a = closeTransports (resetSession ecdh (a\<lparr>a_currentRoomId := roomId\<rparr>)) in
      if a_useWs a then (Some (wsUrl a), a\<lparr>a_ws := Some sock, a_wsOpen := False\<rparr>)
      else (None, a\<lparr>a_udp := True\<rparr>))"

definition electron_sendKeyReq :: "prims \<Rightarrow> nat \<Rightarrow> App \<Rightarrow> App outcome" where
  "electron_sendKeyReq P roomId a =
     app_random P 16 a (\<lambda>reqNonce a.
     let req = key_request P roomId reqNonce a in
     and_then (app_sendKeyReq Electron req a) (\<lambda>a. Done (resend_thrice req a)))"

text \<open>The web socket is open, or the UDP socket is bound: the room is joined.\<close>

definition electron_onopen :: "prims \<Rightarrow> nat \<Rightarrow> App \<Rightarrow> App outcome" where
  "electron_onopen P roomId a = electron_sendKeyReq P roomId (a\<lparr>a_wsOpen := True\<rparr>)"

definition electron_onbind :: "prims \<Rightarrow> nat \<Rightarrow> App \<Rightarrow> App outcome" where
  "electron_onbind P roomId a = electron_sendKeyReq P roomId a"

section \<open>The protocol methods\<close>

definition electron_getDictionary :: "nat \<Rightarrow> nat \<Rightarrow> App \<Rightarrow> buffer" where
  "electron_getDictionary = app_getDictionary"

definition electron_pruneSent :: "App \<Rightarrow> App" where
  "electron_pruneSent = app_pruneSent"

definition electron_pruneReceived :: "nat \<Rightarrow> App \<Rightarrow> App" where
  "electron_pruneReceived = app_pruneReceived"

definition electron_sendData :: "prims \<Rightarrow> nat \<Rightarrow> nat \<Rightarrow> jsstring \<Rightarrow> App \<Rightarrow> App outcome" where
  "electron_sendData P = app_sendData P Electron"

definition electron_probe :: "prims \<Rightarrow> nat \<Rightarrow> App \<Rightarrow> App outcome" where
  "electron_probe P = app_probe P Electron"

definition electron_handleMessage :: "prims \<Rightarrow> clock \<Rightarrow> buffer \<Rightarrow> App \<Rightarrow> App" where
  "electron_handleMessage P = app_handleMessage P Electron"

definition electron_handleMemberInfo :: "prims \<Rightarrow> clock \<Rightarrow> buffer \<Rightarrow> App \<Rightarrow> App outcome" where
  "electron_handleMemberInfo P = app_handleMemberInfo P Electron"

definition electron_handleKeyShare :: "prims \<Rightarrow> clock \<Rightarrow> buffer \<Rightarrow> App \<Rightarrow> App outcome" where
  "electron_handleKeyShare P = app_handleKeyShare P Electron"

definition electron_adoptKey :: "prims \<Rightarrow> clock \<Rightarrow> nat \<Rightarrow> nat \<Rightarrow> buffer \<Rightarrow> App \<Rightarrow> App outcome" where
  "electron_adoptKey P = app_adoptKey P Electron"

definition electron_shareWithNewMembers :: "prims \<Rightarrow> nat \<Rightarrow> App \<Rightarrow> App outcome" where
  "electron_shareWithNewMembers P = app_shareWithNewMembers P Electron"

definition electron_rekey :: "prims \<Rightarrow> clock \<Rightarrow> nat \<Rightarrow> App \<Rightarrow> App outcome" where
  "electron_rekey P = app_rekey P Electron"

definition electron_setChain :: "nat \<Rightarrow> nat \<Rightarrow> nat \<Rightarrow> ChainState \<Rightarrow> App \<Rightarrow> App" where
  "electron_setChain = app_setChain"

definition electron_initOwnChain :: "prims \<Rightarrow> nat \<Rightarrow> nat \<Rightarrow> App \<Rightarrow> App outcome" where
  "electron_initOwnChain P = app_initOwnChain P Electron"

definition electron_shareChainWithMembers :: "prims \<Rightarrow> nat \<Rightarrow> nat \<Rightarrow> App \<Rightarrow> App outcome" where
  "electron_shareChainWithMembers P = app_shareChainWithMembers P Electron"

definition electron_sendChainShare :: "prims \<Rightarrow> nat \<Rightarrow> nat \<Rightarrow> nat \<Rightarrow> ChainState \<Rightarrow> App \<Rightarrow> App outcome" where
  "electron_sendChainShare P = app_sendChainShare P Electron"

definition electron_handleChainShare :: "prims \<Rightarrow> buffer \<Rightarrow> App \<Rightarrow> App outcome" where
  "electron_handleChainShare = app_handleChainShare"

definition electron_scheduleRekey :: "nat \<Rightarrow> App \<Rightarrow> App" where
  "electron_scheduleRekey = app_scheduleRekey"

definition electron_pruneOldEpochs :: "nat \<Rightarrow> App \<Rightarrow> App" where
  "electron_pruneOldEpochs = app_pruneOldEpochs"

definition electron_decryptDataInOrder :: "prims \<Rightarrow> buffer \<Rightarrow> nat \<Rightarrow> App \<Rightarrow> exn + (DecryptedData \<times> App) option" where
  "electron_decryptDataInOrder = app_decryptDataInOrder"

definition electron_processDataPacket :: "prims \<Rightarrow> DecryptedData \<Rightarrow> nat \<Rightarrow> nat \<Rightarrow> App \<Rightarrow> App outcome" where
  "electron_processDataPacket P = app_processDataPacket P Electron"

definition electron_processBufferedPackets :: "prims \<Rightarrow> nat \<Rightarrow> App \<Rightarrow> App" where
  "electron_processBufferedPackets P = app_processBufferedPackets P Electron"

definition electron_declarePermanentLoss :: "prims \<Rightarrow> nat \<Rightarrow> nat \<Rightarrow> nat \<Rightarrow> App \<Rightarrow> App outcome" where
  "electron_declarePermanentLoss P = declarePermanentLoss P Electron"

definition electron_sendDictReset :: "prims \<Rightarrow> nat \<Rightarrow> nat \<Rightarrow> App \<Rightarrow> App outcome" where
  "electron_sendDictReset P = app_sendDictReset P Electron"

definition electron_sendAck :: "prims \<Rightarrow> nat \<Rightarrow> nat \<Rightarrow> nat \<Rightarrow> App \<Rightarrow> App outcome" where
  "electron_sendAck P = app_sendAck P Electron"

definition electron_sendNack :: "prims \<Rightarrow> nat \<Rightarrow> nat \<Rightarrow> nat list \<Rightarrow> App \<Rightarrow> App outcome" where
  "electron_sendNack P = app_sendNack P Electron"

definition electron_sendSync :: "prims \<Rightarrow> nat \<Rightarrow> App \<Rightarrow> App outcome" where
  "electron_sendSync P = app_sendSync P Electron"

section \<open>Events\<close>

definition electron_onmessage :: "prims \<Rightarrow> clock \<Rightarrow> buffer \<Rightarrow> App \<Rightarrow> App" where
  "electron_onmessage P clk msg a =
     electron_handleMessage P clk msg
       (a\<lparr>a_stats := (a_stats a)\<lparr>as_packetsReceived := as_packetsReceived (a_stats a) + 1\<rparr>\<rparr>)"

text \<open>The form: the host is taken unless it is blank; any transport but \<^verbatim>\<open>udp\<close> means web socket.\<close>

definition applyForm :: "string \<Rightarrow> string \<Rightarrow> App \<Rightarrow> App" where
  "applyForm host transport a =
     (let a = (if js_trim host \<noteq> '''' then a\<lparr>a_serverHost := js_trim host\<rparr> else a)
      in a\<lparr>a_useWs := (transport \<noteq> ''udp'')\<rparr>)"

definition electron_onSend :: "prims \<Rightarrow> nat \<Rightarrow> jsstring \<Rightarrow> App \<Rightarrow> App outcome" where
  "electron_onSend P now txt a =
     (if text_trim txt \<noteq> [] then electron_sendData P now (a_currentRoomId a) txt a else Done a)"

end
