(* ===== verification/Dart_App_Inv.thy ===== *)
theory Dart_App_Inv
  imports Dart_App_Stream Dart_Client_Inv Dart_Cli Dart_Web Dart_Electron
begin

text \<open>
  The interactive clients as state machines. Control packets change the protocol state as they do for
  the client of \<^verbatim>\<open>client.ts\<close>; every event keeps the client's invariant on the state seen through
  \<open>as_client\<close>: histories of bounded size under 24-bit sequence numbers, each message under its own.
\<close>

section \<open>Control packets, as the library client handles them\<close>

lemma as_client_acked: "as_client (a\<lparr>a_ackedSeq := x\<rparr>) = (as_client a)\<lparr>c_ackedSeq := x\<rparr>"
  and as_client_sent: "as_client (a\<lparr>a_sentMessages := y\<rparr>) = (as_client a)\<lparr>c_sentMessages := y\<rparr>"
  and as_client_history: "as_client (a\<lparr>a_receivedMessages := z\<rparr>) = (as_client a)\<lparr>c_receivedMessages := z\<rparr>"
  by (simp_all add: as_client_def)

lemma app_chain_share: "as_client (state_of (app_handleChainShare P buf a)) = state_of (handleChainShare P buf (as_client a))"
  by (auto simp: app_handleChainShare_def handleChainShare_def eval_in_def as_client_setChain Let_def
      split: sum.splits option.splits)

lemma app_ack: "as_client (state_of (app_onAck P buf a)) = state_of (onAck P buf (as_client a))"
  by (auto simp: app_onAck_def onAck_def eval_in_def as_client_acked split: sum.splits option.splits)

lemma app_dict_reset: "as_client (state_of (app_onDictReset P buf a)) = state_of (onDictReset P buf (as_client a))"
  by (auto simp: app_onDictReset_def onDictReset_def eval_in_def as_client_sent as_client_history
      split: sum.splits option.splits)

lemma app_core_retransmit [simp]: "app_core (state_of (app_retransmit_loop P V seqs a)) = app_core a"
  by (induction seqs arbitrary: a) (auto simp: app_random_def eval_in_def Let_def split: option.splits sum.splits)

lemma app_core_nack [simp]: "app_core (state_of (app_onNack P V buf a)) = app_core a"
proof -
  have "app_core (state_of (and_then (app_retransmit_loop P V seqs d) (\<lambda>a.
      case (app_getChain i (e a) (a_senderId a) a, get2 (a_chainSeeds a) i (e a)) of
        (Some ch, Some seed) \<Rightarrow> app_sendChainShare P V i (e a) j seed a | _ \<Rightarrow> Done a))) = app_core d" for seqs i j e d
    by (intro core_state_of_and_then) (auto split: option.splits)
  then show ?thesis
    by (auto simp: app_onNack_def eval_in_def Let_def split: sum.splits option.splits)
qed

lemma core_onNack: "client_core (state_of (onNack P buf c)) = client_core c"
proof -
  have "client_core (state_of (and_then (retransmit_loop P seqs d) (\<lambda>c. case get2 (c_chainSeeds c) i (e c) of
      None \<Rightarrow> Done c | Some seed \<Rightarrow> sendChainShare P i (e c) j seed c))) = client_core d" for seqs i j e d
    by (intro core_state_of_and_then) (auto split: option.splits)
  then show ?thesis
    by (auto simp: onNack_def eval_in_def Let_def split: sum.splits option.splits)
qed

section \<open>The invariant\<close>

definition app_inv :: "App \<Rightarrow> bool" where
  "app_inv a \<longleftrightarrow> client_inv (as_client a)"

lemma app_inv_core: "app_core a = app_core b \<Longrightarrow> app_inv a = app_inv b"
  by (simp add: app_inv_def app_core_def)

lemma app_inv_history: "history (as_client a) = history (as_client b) \<Longrightarrow> app_inv a = app_inv b"
  unfolding app_inv_def by (rule client_inv_history)

lemma history_of_app: "history (as_client a) = (a_senderId a, a_nextSeq a, a_highestSentSeq a, a_sentMessages a,
    a_receivedMessages a, a_outOfOrderBuffer a, a_highestReceivedSeq a)"
  by (simp add: history_def)

lemmas app_inv_keeps [simp] = app_inv_core [OF app_core_control(1)] app_inv_core [OF app_core_control(2)]
  app_inv_core [OF app_core_control(3)] app_inv_core [OF app_core_control(4)] app_inv_core [OF app_core_control(5)]
  app_inv_core [OF app_core_control(6)] app_inv_core [OF app_core_broadcast] app_inv_core [OF app_core_nack]

lemma app_desync_inv: "app_inv a \<Longrightarrow> app_inv (state_of (app_desync P V i s a))"
  by (simp add: app_desync_def) (simp add: app_inv_def as_client_history client_inv_def)

lemma app_processDataPacket_inv:
  assumes inv: "app_inv a" and seq: "seq < 16777216"
  shows "app_inv (state_of (app_processDataPacket P V dec i seq a))"
proof -
  have ensured: "app_inv (a\<lparr>a_receivedMessages := ensure (a_receivedMessages a) i\<rparr>)"
    using inv by (simp add: app_inv_def as_client_history client_inv_def)
  have new: "app_inv (state_of (app_processDataPacket P V dec i seq a))"
    if "dc_senderId dec = i" "dc_dictFp dec = dictFingerprint P (app_getDictionary i seq a)"
      "inflateData P (dc_compressed dec) (app_getDictionary i seq a) = Inr payload" "\<not> has (sub (a_receivedMessages a) i) seq"
    for payload
  proof -
    have "stamped_since 0 i a" by (simp add: stamped_since_def)
    from app_process_like [OF that this, of V] obtain a' where a': "app_processDataPacket P V dec i seq a = Done a'"
      "client_core (as_client a') = client_core (state_of (processDataPacket P dec i seq (as_client a)))" by blast
    show ?thesis
      using processDataPacket_inv [OF inv [unfolded app_inv_def] seq, of P dec i] client_inv_history [OF history_core [OF a'(2)]]
      by (simp add: app_inv_def a'(1))
  qed
  show ?thesis
  proof (cases "dc_senderId dec = i \<and> dc_dictFp dec = dictFingerprint P (app_getDictionary i seq a) \<and>
      \<not> has (sub (a_receivedMessages a) i) seq")
    case True
    then show ?thesis
      using new by (cases "inflateData P (dc_compressed dec) (app_getDictionary i seq a)")
        (auto simp: app_processDataPacket_def app_desync_inv [OF inv])
  next
    case False
    then show ?thesis
      using inv ensured app_desync_inv [OF inv]
      by (auto simp: app_processDataPacket_def Let_def split: sum.splits)
  qed
qed

lemma app_decrypt_inv:
  assumes "app_inv a" "app_decryptDataInOrder P buf i a = Inr (Some (dec, a'))"
  shows "app_inv a'"
  using assms decryptDataInOrder_inv [of "as_client a" P buf i dec "as_client a'"] by (simp add: app_inv_def app_decrypt)

lemma app_processBuffered_inv: "app_inv a \<Longrightarrow> seq < 16777216 \<Longrightarrow> app_inv (app_processBuffered P V raw i seq a)"
  by (auto simp: app_processBuffered_def app_processDataPacket_inv app_decrypt_inv split: sum.splits option.splits)

lemma app_buffered_loop_inv: "app_inv a \<Longrightarrow> seq < 16777216 \<Longrightarrow> app_inv (app_buffered_loop P V i seq a)"
proof (induction P V i seq a rule: app_buffered_loop.induct)
  case (1 P V i seq a)
  show ?case
  proof (cases "map_of (sub (a_outOfOrderBuffer a) i) seq")
    case None
    with 1 show ?thesis by (simp add: app_buffered_loop.simps)
  next
    case (Some raw)
    have "app_inv (a\<lparr>a_outOfOrderBuffer := AList.update i (AList.delete seq (sub (a_outOfOrderBuffer a) i)) (a_outOfOrderBuffer a)\<rparr>)"
      using "1.prems"(1) by (simp add: app_inv_def as_client_buffer client_inv_def buffer_ok_delete)
    then show ?thesis
      using "1.IH" [OF Some] "1.prems"(2) Some
      by (subst app_buffered_loop.simps) (simp add: app_processBuffered_inv)
  qed
qed

lemma app_drain_inv: "app_inv a \<Longrightarrow> app_inv (app_processBufferedPackets P V i a)"
  by (simp add: app_processBufferedPackets_def app_buffered_loop_inv)

lemma declarePermanentLoss_inv: "app_inv a \<Longrightarrow> l < 16777216 \<Longrightarrow> app_inv (state_of (declarePermanentLoss P V convId i l a))"
  by (simp add: declarePermanentLoss_def Let_def) (simp add: app_inv_def client_inv_def sub_set2)

lemma gap_loop_inv: "app_inv a \<Longrightarrow> app_inv (state_of (app_gap_loop P V clk d convId i h missing ks a))"
proof (induction ks arbitrary: missing a clk)
  case (Cons k ks)
  have stamped: "app_inv (a\<lparr>a_nackTimestamps := m\<rparr>)" for m
    using Cons.prems by (simp add: app_inv_def client_inv_def)
  have lost: "app_inv (state_of (and_then (declarePermanentLoss P V convId i (seqAdd h k) b) (\<lambda>a.
      app_gap_loop P V clk d convId i h missing ks (if d then app_processBufferedPackets P V i a else a))))"
    if "app_inv b" for b clk
    by (rule state_of_and_then [of app_inv]) (simp_all add: declarePermanentLoss_inv that app_drain_inv Cons.IH del: app_gap_loop.simps)
  show ?case using Cons.prems stamped lost Cons.IH by (simp add: Let_def split: option.split)
qed simp

lemma app_onData_inv:
  assumes inv: "app_inv a"
  shows "app_inv (state_of (app_onData P V clk buf a))"
proof -
  have buffered: "app_inv (a\<lparr>a_outOfOrderBuffer := set2 (a_outOfOrderBuffer a) p seq buf\<rparr>)"
    if "readUIntBE buf 3 3 = Inr seq" "readUInt16BE buf 7 = Inr p" for p seq
    using inv that by (auto simp: app_inv_def as_client_buffer client_inv_def sub_set2 buffer_ok_insert)
  have next_inv: "app_inv (state_of (and_then (app_processDataPacket P V dec p seq d) (\<lambda>a. Done (app_processBufferedPackets P V p a))))"
    if "app_inv d" "readUIntBE buf 3 3 = Inr seq" for d dec p seq
    using readUIntBE_bound [OF that(2)] app_processDataPacket_inv [OF that(1), of seq P V dec p]
    by (intro state_of_and_then [of app_inv]) (simp_all add: app_drain_inv)
  have "app_inv (state_of (eval_in a (app_decryptDataInOrder P buf p a) (\<lambda>r. case r of None \<Rightarrow> Done a
      | Some (dec, a) \<Rightarrow> and_then (app_processDataPacket P V dec p seq a) (\<lambda>a. Done (app_processBufferedPackets P V p a)))))"
    if "readUIntBE buf 3 3 = Inr seq" for p seq
    using inv app_decrypt_inv [OF inv] next_inv [OF _ that] by (auto simp: eval_in_def split: sum.splits option.splits)
  then show ?thesis
    using inv buffered gap_loop_inv
    by (cases "readUInt16BE buf 1"; cases "readUIntBE buf 3 3"; cases "readUInt8 buf 6"; cases "readUInt16BE buf 7")
      (simp_all add: app_onData_def Let_def)
qed

lemma app_onSync_inv:
  assumes "app_inv a"
  shows "app_inv (state_of (app_onSync P V clk buf a))"
proof -
  have "app_inv (a\<lparr>a_receivedMessages := ensure (a_receivedMessages a) i\<rparr>)" for i
    using assms by (simp add: app_inv_def as_client_history client_inv_def)
  then show ?thesis
    using assms gap_loop_inv by (simp add: app_onSync_def eval_in_def Let_def split: option.splits sum.splits)
qed

lemma app_sendData_inv:
  assumes inv: "app_inv a"
  shows "app_inv (state_of (app_sendData P V now convId payload a))"
proof -
  define dart where "dart = \<lparr>dd_type = TYPE_DATA, dd_convId = convId, dd_senderId = a_senderId a,
      dd_seq = a_nextSeq a, dd_payload = payload\<rparr>"
  define d where "d e k s = (app_setChain convId e (a_senderId a) s (a\<lparr>a_lastSendTime := now\<rparr>))\<lparr>a_nextSeq := seqNext (a_nextSeq a),
      a_sentMessages := AList.update (a_nextSeq a) dart (a_sentMessages a), a_messageKeys := k, a_highestSentSeq := a_nextSeq a\<rparr>" for e k s
  have stored: "app_inv ((app_pruneSent (d e k s))\<lparr>a_draws := n\<rparr>)" for e k s n
  proof -
    have "msgs_ok (a_senderId a) (window_gc (DICT_WINDOW + 16) (a_nextSeq a)
        (AList.update (a_nextSeq a) dart (a_sentMessages a)))"
      using inv by (intro msgs_ok_push) (simp_all add: dart_def app_inv_def client_inv_def)
    then show ?thesis
      using inv by (simp add: app_inv_def client_inv_def app_pruneSent_run d_def app_setChain_def)
  qed
  have sent: "app_inv (syncProbe convId (clearSyncTimers (app_broadcast V b f))) = app_inv f" for b f
    by (rule app_inv_core) (simp add: sync_timers_keep)
  have "app_inv (a\<lparr>a_lastSendTime := now\<rparr>)" "app_inv (a\<lparr>a_lastSendTime := now, a_pendingQueue := q\<rparr>)" for q
    using inv by (simp_all add: app_inv_def client_inv_def)
  then show ?thesis
    using inv stored [unfolded d_def dart_def]
    by (auto simp: app_sendData_def Let_def app_random_def eval_in_def sent case_prod_unfold
        split: option.splits sum.splits)
qed

section \<open>Key management\<close>

lemma app_core_share_chain_loop [simp]: "app_core (state_of (app_share_chain_loop P V i e ch ts a)) = app_core a"
  by (induction ts arbitrary: a) (auto intro!: core_state_of_and_then)

lemma app_core_share_key_loop [simp]: "app_core (state_of (app_share_key_loop P V i e r key ts a)) = app_core a"
  by (induction ts arbitrary: a) (auto simp: app_random_def eval_in_def split: option.splits sum.splits)

lemma app_core_sharing [simp]:
  "app_core (state_of (app_shareChainWithMembers P V i e a)) = app_core a"
  "app_core (state_of (app_shareWithNewMembers P V i a)) = app_core a"
  "app_core (app_scheduleRekey i a) = app_core a"
  unfolding app_shareChainWithMembers_def app_shareWithNewMembers_def app_scheduleRekey_def
  by (auto simp: Let_def split: option.splits intro!: core_state_of_and_then)

lemmas app_inv_sharing [simp] = app_inv_core [OF app_core_sharing(1)] app_inv_core [OF app_core_sharing(2)]
  app_inv_core [OF app_core_sharing(3)] app_inv_core [OF app_core_share_chain_loop] app_inv_core [OF app_core_share_key_loop]

lemma app_inv_fields [simp]:
  "app_inv (a\<lparr>a_draws := n\<rparr>) = app_inv a" "app_inv (a\<lparr>a_pendingQueue := q\<rparr>) = app_inv a"
  "app_inv (app_setChain i e s st a) = app_inv a" "app_inv (a\<lparr>a_roomKeys := rk\<rparr>) = app_inv a"
  "app_inv (a\<lparr>a_chainSeeds := cs\<rparr>) = app_inv a" "app_inv (a\<lparr>a_chainSharedWith := sw\<rparr>) = app_inv a"
  "app_inv (a\<lparr>a_roomKeys := rk, a_currentEpochs := ce, a_adoptedEpochs := ae, a_sharedWith := sw\<rparr>) = app_inv a"
  "app_inv (app_applyRoster pub info a) = app_inv a" "app_inv (a\<lparr>a_stats := z\<rparr>) = app_inv a"
  "app_inv (a\<lparr>a_currentRoomId := r\<rparr>) = app_inv a" "app_inv (app_setTimeout t ms a) = app_inv a"
  "app_inv (app_clearTimeout h a) = app_inv a" "app_inv (app_put w a) = app_inv a"
  "app_inv (a\<lparr>a_wsOpen := b\<rparr>) = app_inv a" "app_inv (syncProbe i a) = app_inv a"
  by (rule app_inv_history, simp add: history_of_app app_setChain_def app_applyRoster_def app_setTimeout_def
      app_clearTimeout_def app_put_def syncProbe_def Let_def split: option.splits)+

lemma app_initOwnChain_inv [simp]: "app_inv (state_of (app_initOwnChain P V i e a)) = app_inv a"
  by (simp add: app_initOwnChain_def app_random_def Let_def)

lemma flush_loop_inv: "app_inv a \<Longrightarrow> app_inv (state_of (flush_loop P V clk i a))"
proof (induction P V clk i a rule: flush_loop.induct)
  case (1 P V clk i a)
  then show ?case
    using app_sendData_inv [OF "1.prems", of P V "clock_now clk" "fst (a_pendingQueue a ! i)" "snd (a_pendingQueue a ! i)"]
    by (subst flush_loop.simps) (auto split: outcome.split)
qed

lemma app_greet_inv: "app_inv a \<Longrightarrow> app_inv (state_of (app_greet P V clk i a))"
  unfolding app_greet_def
  by (auto intro!: state_of_and_then [of app_inv] app_sendData_inv flush_loop_inv)

lemma app_adoptKey_inv: "app_inv a \<Longrightarrow> app_inv (state_of (app_adoptKey P V clk i e key a))"
  unfolding app_adoptKey_def Let_def
  by (auto intro!: state_of_and_then [of app_inv] app_greet_inv)

lemma app_pruneOldEpochs_inv [simp]: "app_inv (app_pruneOldEpochs i a) = app_inv a"
  by (auto simp: app_pruneOldEpochs_def Let_def split: option.splits if_splits intro!: fold_keeps [of app_inv])

lemma app_rekey_inv: "app_inv a \<Longrightarrow> app_inv (state_of (app_rekey P V clk i a))"
  unfolding app_rekey_def app_random_def
  by (auto intro!: state_of_and_then [of app_inv] app_adoptKey_inv)

lemma app_handleMemberInfo_inv: "app_inv a \<Longrightarrow> app_inv (state_of (app_handleMemberInfo P V clk buf a))"
  by (auto simp: app_handleMemberInfo_def eval_in_def Let_def app_random_def split: sum.splits
      intro!: state_of_and_then [of app_inv] app_adoptKey_inv app_rekey_inv)

lemma app_handleKeyShare_inv: "app_inv a \<Longrightarrow> app_inv (state_of (app_handleKeyShare P V clk buf a))"
  by (auto simp: app_handleKeyShare_def eval_in_def Let_def app_adoptKey_inv split: sum.splits option.splits)

section \<open>The interactive clients as machines\<close>

lemma app_handleMessage_inv: "app_inv a \<Longrightarrow> app_inv (app_handleMessage P V clk buf a)"
proof -
  assume inv: "app_inv a"
  have "app_inv (state_of (app_handleChainShare P buf a))" "app_inv (state_of (app_onAck P buf a))"
    "app_inv (state_of (app_onDictReset P buf a))"
    using inv client_inv_history [OF history_handleChainShare, of P buf "as_client a"]
      client_inv_history [OF history_onAck, of P buf "as_client a"] onDictReset_inv [of "as_client a" P buf]
    by (simp_all add: app_inv_def app_chain_share app_ack app_dict_reset)
  then show ?thesis
    using inv by (simp add: app_handleMessage_def app_try_def eval_in_def app_onData_inv app_onSync_inv
        app_handleKeyShare_inv app_handleMemberInfo_inv split: sum.splits)
qed

lemma app_requestKey_inv [simp]: "app_inv (state_of (app_requestKey V req a)) = app_inv a"
  "app_inv (state_of (web_requestKey req a)) = app_inv a"
  by (auto simp: app_requestKey_def web_requestKey_def eval_in_def split: option.splits sum.splits)

lemma app_run_task_inv: "app_inv a \<Longrightarrow> app_inv (state_of (app_run_task P V clk t a))"
  by (cases t) (auto simp: app_resend_def app_random_def app_rekey_inv app_probe_def Let_def
      intro!: state_of_and_then [of app_inv])

lemma app_fire_inv: "app_inv a \<Longrightarrow> app_inv (state_of (app_fire P V clk h a))"
  by (auto simp: app_fire_def app_run_task_inv split: option.splits)

lemma app_restart_inv: "app_inv (app_restart ecdh a)"
  by (simp add: app_inv_def client_inv_def app_restart_def)

lemma blank_app_inv: "app_inv (blank_app i room fp host port secs)"
  by (simp add: app_inv_def client_inv_def blank_app_def)

text \<open>
  One rule per event: a packet, a line or a click on the send button, a timer, joining a room, and
  the ways a session starts anew. Any pending timer may fire at any moment.
\<close>

inductive app_step :: "prims \<Rightarrow> variant \<Rightarrow> App \<Rightarrow> App \<Rightarrow> bool" for P V where
  ap_packet: "app_step P V a (app_handleMessage P V clk buf a)"
| ap_count: "app_step P V a (app_count V f a)"
| ap_send: "app_step P V a (state_of (app_sendData P V now convId payload a))"
| ap_timer: "app_step P V a (state_of (app_fire P V clk h a))"
| ap_cli_join: "V = Cli \<Longrightarrow> app_step P V a (state_of (cli_joinRoom P room a))"
| ap_cli_connect: "V = Cli \<Longrightarrow> app_step P V a (cli_connect ecdh a)"
| ap_web_join: "V = Web \<Longrightarrow> app_step P V a (state_of (web_joinRoom P room a))"
| ap_web_connect: "V = Web \<Longrightarrow> app_step P V a (web_connect ecdh sock a)"
| ap_web_open: "V = Web \<Longrightarrow> app_step P V a (state_of (web_onopen P a))"
| ap_web_close: "V = Web \<Longrightarrow> app_step P V a (web_onclose a)"
| ap_el_connect: "V = Electron \<Longrightarrow> app_step P V a (snd (connectAndJoin room ecdh sock a))"
| ap_el_open: "V = Electron \<Longrightarrow> app_step P V a (state_of (electron_onopen P room a))"
| ap_el_bind: "V = Electron \<Longrightarrow> app_step P V a (state_of (electron_onbind P room a))"
| ap_el_form: "V = Electron \<Longrightarrow> app_step P V a (applyForm host proto a)"

inductive_cases app_stepE: "app_step P V a b"

definition app_started :: "variant \<Rightarrow> App \<Rightarrow> bool" where
  "app_started V a \<longleftrightarrow>
     (V = Cli \<and> (\<exists>i fp ecdh secs. a = new_cli i fp ecdh secs)) \<or>
     (V = Web \<and> (\<exists>i ecdh sock secs. a = new_web i ecdh sock secs)) \<or>
     (V = Electron \<and> (\<exists>i fp secs. a = new_electron i fp secs))"

lemma app_started_inv: "app_started V a \<Longrightarrow> app_inv a"
  by (auto simp: app_started_def new_cli_def cli_connect_def app_restart_inv new_web_def new_electron_def
      blank_app_inv web_connect_def)
    (simp add: app_inv_def client_inv_def app_restart_def)

lemma app_join_inv:
  "app_inv a \<Longrightarrow> app_inv (state_of (cli_joinRoom P room a))"
  "app_inv a \<Longrightarrow> app_inv (state_of (web_joinRoom P room a))"
  "app_inv a \<Longrightarrow> app_inv (state_of (electron_sendKeyReq P room a))"
  by (auto simp: cli_joinRoom_def web_joinRoom_def electron_sendKeyReq_def app_random_def Let_def resend_thrice_def
      intro!: state_of_and_then [of app_inv])

lemma app_step_inv:
  assumes inv: "app_inv a" and "app_step P V a b"
  shows "app_inv b"
  using assms(2)
proof cases
  case (ap_el_connect room ecdh sock)
  then show ?thesis
    by (simp add: connectAndJoin_def closeTransports_def resetSession_def app_restart_def Let_def app_inv_def client_inv_def)
next
  case (ap_web_connect ecdh sock)
  then show ?thesis by (simp add: web_connect_def app_restart_def app_inv_def client_inv_def)
next
  case (ap_count f)
  then show ?thesis using inv app_inv_core [OF app_core_simps(12)] by simp
next
  case (ap_el_form host proto)
  then show ?thesis using inv by (simp add: applyForm_def Let_def app_inv_def client_inv_def)
qed (use inv in \<open>simp_all add: app_handleMessage_inv app_sendData_inv app_fire_inv app_join_inv cli_connect_def
      app_restart_inv web_onopen_def web_onclose_def electron_onopen_def electron_onbind_def\<close>)

interpretation apps: machine "app_started V" "app_step P V" app_inv for P V
  by unfold_locales (auto intro: app_started_inv app_step_inv)

end
