(* ===== verification/Dart_Recovery.thy ===== *)
theory Dart_Recovery
  imports Dart_Relay
begin

text \<open>
  The recovery path across the three components: a client's SYNC passes the relay's signature check
  and is fanned out; a receiver that is behind answers with a NACK that names exactly the messages
  it lacks; the relay answers the NACK from its cache.
\<close>

section \<open>The frames a client sends\<close>

definition sync_frame :: "prims \<Rightarrow> SyncDart \<Rightarrow> buffer \<Rightarrow> buffer \<Rightarrow> buffer \<Rightarrow> buffer" where
  "sync_frame P y key nonce k = signControlFrame P
     (sync_header y nonce @ sealed P key nonce (sync_header y nonce) (be 3 (seqMask (sy_highestSeq y)))) k"

definition nack_frame :: "prims \<Rightarrow> NackDart \<Rightarrow> buffer \<Rightarrow> buffer \<Rightarrow> buffer \<Rightarrow> buffer" where
  "nack_frame P n key nonce k = signControlFrame P
     (nack_header n nonce @ snd (gcmSeal P key nonce (nack_header n nonce) [])) k"

lemma sent_since_udp:
  assumes "c_outbox c' = c_outbox c @ map (\<lambda>(address, port). UdpSend address port buf) ps"
  shows "sent_since c c' = replicate (length ps) buf"
  using assms by (simp add: sent_since_def map_filter_datagram)

lemma sendSync_sends:
  assumes "contracts P" "convId < 65536" "c_senderId a < 65536"
    and "c_highestSentSeq a \<noteq> 0" "getCurrentKey convId a = Some key" "length key = 32"
    and "map_of (c_serverPubKeys a) convId = Some pub" "pairwiseKey P (c_clientECDH a) pub = Inr k"
    and "\<not> c_closed a" "\<not> c_useFallback a"
  shows "\<exists>a'. sendSync P convId a = Done a' \<and>
    sent_since a a' = replicate (length (c_peers a)) (sync_frame P \<lparr>sy_type = TYPE_SYNC, sy_convId = convId,
      sy_senderId = c_senderId a, sy_highestSeq = c_highestSentSeq a\<rparr> key (randomBytes P (c_draws a) 12) k)"
proof -
  let ?y = "\<lparr>sy_type = TYPE_SYNC, sy_convId = convId, sy_senderId = c_senderId a, sy_highestSeq = c_highestSentSeq a\<rparr>"
  have "wf_sync ?y" using assms(2,3) by (simp add: wf_sync_def TYPE_SYNC_def)
  note enc = encodeSync_layout [OF random_ctx [OF assms(1,6)] this]
  show ?thesis
    using assms(4-10) by (simp add: sendSync_def Let_def with_random_def enc broadcast_def getCurrentKey_def)
      (simp add: sent_since_udp sync_frame_def)
qed

lemma sendNack_sends:
  assumes "contracts P" "convId < 65536" "c_senderId b < 65536" "targetId < 65536" "length missing < 65536"
    and "getCurrentKey convId b = Some key" "length key = 32"
    and "get2 (c_roster b) convId targetId = Some pub" "pairwiseKey P (c_clientECDH b) pub = Inr k"
    and "\<not> c_closed b" "\<not> c_useFallback b"
  shows "\<exists>b'. sendNack P convId targetId missing b = Done b' \<and> c_outbox b' = c_outbox b @
    map (\<lambda>(address, port). UdpSend address port (nack_frame P \<lparr>nk_type = TYPE_NACK, nk_convId = convId,
      nk_senderId = c_senderId b, nk_targetId = targetId, nk_missingSeq = missing\<rparr> key (randomBytes P (c_draws b) 12) k)) (c_peers b)"
proof -
  let ?n = "\<lparr>nk_type = TYPE_NACK, nk_convId = convId, nk_senderId = c_senderId b, nk_targetId = targetId, nk_missingSeq = missing\<rparr>"
  have "wf_nack ?n" using assms(2-5) by (simp add: wf_nack_def TYPE_NACK_def)
  note enc = encodeNack_layout [OF random_ctx [OF assms(1,7)] this]
  show ?thesis
    using assms(6-11) by (simp add: sendNack_def Let_def with_random_def enc broadcast_def getCurrentKey_def nack_frame_def)
qed

section \<open>The relay\<close>

text \<open>The peer object a datagram arrives with, and how \<^verbatim>\<open>onUdpMessage\<close> treats it.\<close>

definition udp_peer :: "nat \<Rightarrow> string \<Rightarrow> nat \<Rightarrow> Peer" where
  "udp_peer now address port = fst (rate_limit now
     ((fresh_peer (endpoint ''udp'' address port) Udp)\<lparr>p_address := Some address, p_port := Some port\<rparr>))"

lemma udp_peer_simps [simp]:
  "p_id (udp_peer now address port) = endpoint ''udp'' address port"
  "p_type (udp_peer now address port) = Udp"
  "p_address (udp_peer now address port) = Some address" "p_port (udp_peer now address port) = Some port"
  by (simp_all add: udp_peer_def rate_limit_def fresh_peer_def Let_def)

lemma onUdpMessage_handles:
  "onUdpMessage P now msg address port s = state_of (handle_try P msg (udp_peer now address port) (count_received s))"
  by (simp add: onUdpMessage_def handleMessage_def udp_peer_def rate_limit_def fresh_peer_def Let_def)

lemma transmit_udp:
  "p_type p = Udp \<Longrightarrow> p_address p = Some h \<Longrightarrow> p_port p = Some q \<Longrightarrow> h \<noteq> '''' \<Longrightarrow> q \<noteq> 0 \<Longrightarrow> transmit buf p ws = [UdpSend h q buf]"
  by (simp add: transmit_def truthy_address_def truthy_port_def)

lemma count_received_simps [simp]:
  "outbox (count_received s) = outbox s" "closed (count_received s) = closed s" "wsOpen (count_received s) = wsOpen s"
  "others (count_received s) = others s" "core_state (count_received s) = core_state s"
  by (simp_all add: count_received_def others_def fun_eq_iff)

text \<open>What a control frame finds when its handler runs: identity learned, peer joined.\<close>

lemma handle_try_control:
  assumes "readUInt8 buf 0 = Inr type" "type \<noteq> TYPE_DATA" "readUInt16BE buf 1 = Inr convId" "readUInt16BE buf 3 = Inr i"
  shows "\<exists>t. handle_try P buf peer s = dispatch P type convId buf peer t \<and> closed t = closed s \<and> outbox t = outbox s \<and>
    wsOpen t = wsOpen s \<and> members t = members s \<and> serverECDH t = serverECDH s \<and> messageCache t = messageCache s \<and>
    others t convId peer = others s convId peer"
proof -
  have "5 \<le> length buf" using readUIntBE_range [OF assms(4)] by simp
  with assms have "handle_try P buf peer s = dispatch P type convId buf peer ((joinGroup s convId peer)
      \<lparr>peerIdentity := AList.update (p_id peer) i (peerIdentity s), clientMap := set2 (clientMap s) convId i peer\<rparr>)"
    by (simp add: handle_try_def learnIdentity_def)
  moreover have "others (u\<lparr>peerIdentity := x, clientMap := y\<rparr>) convId peer = others u convId peer" for u :: Server and x y
    by (simp add: others_def)
  ultimately show ?thesis
    using others_join [of s convId peer]
    by (intro exI [of _ "(joinGroup s convId peer)\<lparr>peerIdentity := AList.update (p_id peer) i (peerIdentity s),
        clientMap := set2 (clientMap s) convId i peer\<rparr>"]) simp
qed

lemma sync_frame_reads:
  fixes P :: prims and key nonce k :: buffer and h :: nat
  assumes "convId < 65536" "i < 65536"
  defines "f \<equiv> sync_frame P \<lparr>sy_type = TYPE_SYNC, sy_convId = convId, sy_senderId = i, sy_highestSeq = h\<rparr> key nonce k"
  shows "readUInt8 f 0 = Inr TYPE_SYNC" "readUInt16BE f 1 = Inr convId" "readUInt16BE f 3 = Inr i"
  using assms(1,2) by (simp_all add: f_def sync_frame_def sync_header_def signControlFrame_def layout TYPE_SYNC_def)

lemma nack_frame_reads:
  fixes P :: prims and key nonce k :: buffer and ms :: "nat list" and t :: nat
  assumes "convId < 65536" "i < 65536"
  defines "f \<equiv> nack_frame P \<lparr>nk_type = TYPE_NACK, nk_convId = convId, nk_senderId = i, nk_targetId = t, nk_missingSeq = ms\<rparr> key nonce k"
  shows "readUInt8 f 0 = Inr TYPE_NACK" "readUInt16BE f 1 = Inr convId" "readUInt16BE f 3 = Inr i"
  using assms(1,2) by (simp_all add: f_def nack_frame_def nack_header_def signControlFrame_def layout TYPE_NACK_def)

lemma sync_frame_relayed:
  fixes key nonce :: buffer and h :: nat and peer :: Peer
  assumes P: "contracts P" and ids: "convId < 65536" "i < 65536" and live: "\<not> closed s"
    and member: "get2 (members s) convId i = Some pub" "pairwiseKey P (serverECDH s) pub = Inr k"
  defines "f \<equiv> sync_frame P \<lparr>sy_type = TYPE_SYNC, sy_convId = convId, sy_senderId = i, sy_highestSeq = h\<rparr> key nonce k"
  shows "outbox (state_of (handle_try P f peer s)) = outbox s @ transmit_all f (others s convId peer) (wsOpen s)"
    and "messageCache (state_of (handle_try P f peer s)) = messageCache s"
    and "closed (state_of (handle_try P f peer s)) = closed s"
proof -
  note reads = sync_frame_reads [OF ids, where P = P and h = h and key = key and nonce = nonce and k = k, folded f_def]
  obtain t where t: "handle_try P f peer s = dispatch P TYPE_SYNC convId f peer t" "closed t = closed s" "outbox t = outbox s"
    "wsOpen t = wsOpen s" "members t = members s" "serverECDH t = serverECDH s" "messageCache t = messageCache s"
    "others t convId peer = others s convId peer"
    using handle_try_control [OF reads(1) _ reads(2,3), of P peer s] by (auto simp: TYPE_defs)
  have "signed_by_member P t convId f"
    unfolding signed_by_member_def using reads(3) member t(5,6) by (auto simp: f_def sync_frame_def)
  then have run: "state_of (handle_try P f peer s) = fanout convId peer f t"
    using verified_relay(1) [of P f peer convId t] P t(1) by (simp add: dispatch_def TYPE_defs contracts_def)
  show "outbox (state_of (handle_try P f peer s)) = outbox s @ transmit_all f (others s convId peer) (wsOpen s)"
    unfolding run using fanout_outbox [of t] live t by simp
  show "messageCache (state_of (handle_try P f peer s)) = messageCache s"
    unfolding run using core_stateD(7) [OF core_fanout] t(7) by simp
  have "closed (fold (\<lambda>p s. if c p then sendToPeer f p s else s) ps u) = closed u" for c ps u
    by (induction ps arbitrary: u) (auto simp: sendToPeer_live)
  then show "closed (state_of (handle_try P f peer s)) = closed s" unfolding run using t(2) by (simp add: fanout_def)
qed

lemma nack_frame_answered:
  fixes key nonce k :: buffer and peer :: Peer
  assumes P: "contracts P" and ids: "convId < 65536" "i < 65536" "target < 65536" "length ms < 65536" "length nonce = 12"
    and live: "\<not> closed s" and seq: "seq \<in> set ms" "seq < 16777216"
    and cached: "map_of (sub (sub (messageCache s) convId) target) seq = Some buf"
  defines "f \<equiv> nack_frame P \<lparr>nk_type = TYPE_NACK, nk_convId = convId, nk_senderId = i, nk_targetId = target, nk_missingSeq = ms\<rparr> key nonce k"
  shows "set (transmit buf peer (wsOpen s)) \<subseteq> set (outbox (state_of (handle_try P f peer s)))"
proof -
  let ?n = "\<lparr>nk_type = TYPE_NACK, nk_convId = convId, nk_senderId = i, nk_targetId = target, nk_missingSeq = ms\<rparr>"
  note reads = nack_frame_reads [OF ids(1,2), where P = P and t = target and ms = ms and key = key and nonce = nonce and k = k, folded f_def]
  obtain t where t: "handle_try P f peer s = dispatch P TYPE_NACK convId f peer t" "closed t = closed s"
    "wsOpen t = wsOpen s" "messageCache t = messageCache s"
    using handle_try_control [OF reads(1) _ reads(2,3), of P peer s] by (auto simp: TYPE_defs)
  have "wf_nack ?n" using ids by (simp add: wf_nack_def TYPE_NACK_def)
  note parse = parseNack_layout [OF ids(5) this]
  have strip: "stripControlFrame f = Some (nack_header ?n nonce @ snd (gcmSeal P key nonce (nack_header ?n nonce) []))"
    using P by (simp add: f_def nack_frame_def strip_sign contracts_def)
  have "seq \<in> set (map seqMask ms)" using seq seqMask_id by (metis image_eqI set_map)
  then have "set (transmit buf peer (wsOpen t)) \<subseteq> set (outbox (state_of (handleNack f peer t)))"
    using handleNack_repairs [OF _ strip parse, of t seq buf] live t(2,4) cached by simp
  then show ?thesis using t by (simp add: dispatch_def TYPE_defs)
qed


section \<open>A receiver that is behind\<close>

lemma missing_names:
  assumes at: "recv_at P \<sigma> n b" and gap: "n < N" "N < n + 8388608" "1 \<le> sm_first \<sigma>"
  shows "filter (\<lambda>i. \<not> has (sub (c_receivedMessages b) (sm_sender \<sigma>)) i)
      (map (seqAdd (sm_seq (n - 1))) [1..<seqDelta (sm_seq (n - 1)) (sm_seq (N - 1)) + 1]) = map sm_seq [n..<N]"
proof -
  have n: "sm_first \<sigma> \<le> n" using at by (simp add: recv_at_def ready_at_def)
  have d: "seqDelta (sm_seq (n - 1)) (sm_seq (N - 1)) = N - n"
    using sm_seq_delta [of "n - 1" "N - 1"] gap n by simp
  have "map (seqAdd (sm_seq (n - 1))) [1..<N - n + 1] = map sm_seq (map (\<lambda>k. k + (n - 1)) [1..<N - n + 1])"
    by (simp add: seqAdd_mod sm_seq_def mod_add_left_eq mod_add_right_eq add.commute del: upt_Suc)
  also have "map (\<lambda>k. k + (n - 1)) [1..<N - n + 1] = [n..<N]"
    using gap n by (intro nth_equalityI) (auto simp del: upt_Suc)
  finally have all: "map (seqAdd (sm_seq (n - 1))) [1..<N - n + 1] = map sm_seq [n..<N]" .
  have "\<not> has (sub (c_receivedMessages b) (sm_sender \<sigma>)) (sm_seq j)" if "n \<le> j" "j < N" for j
    using at that gap by (auto simp: recv_at_def ready_at_def sm_hist_has dest!: sm_seq_inj)
  then show ?thesis unfolding d all by (auto simp: filter_id_conv)
qed

lemma noteSeen_keeps [simp]:
  "c_outbox (noteSeen i q c) = c_outbox c" "c_draws (noteSeen i q c) = c_draws c"
  by (simp_all add: noteSeen_def Let_def)

lemma getCurrentKey_core: "client_core c = client_core d \<Longrightarrow> getCurrentKey i c = getCurrentKey i d"
  by (simp add: getCurrentKey_def client_core_def)

lemma scheduleNackRetry_outbox [simp]: "c_outbox (scheduleNackRetry i j c) = c_outbox c"
  by (simp add: scheduleNackRetry_def setTimeout_def clearTimeout_def Let_def split: option.splits)

lemma sync_frame_opens:
  fixes k :: buffer
  assumes "contracts P" "convId < 65536" "i < 65536" "h < 16777216" "length key = 32" "length nonce = 12"
  defines "y \<equiv> \<lparr>sy_type = TYPE_SYNC, sy_convId = convId, sy_senderId = i, sy_highestSeq = h\<rparr>"
  shows "\<exists>body. stripControlFrame (sync_frame P y key nonce k) = Some body \<and> readUInt16BE body 1 = Inr convId \<and>
    decodeSync P body key = Inr y"
proof -
  have wf: "wf_sync y" using assms(2-4) by (simp add: y_def wf_sync_def TYPE_SYNC_def)
  have ctx: "seal_ctx (P, key, nonce)" using assms(1,5,6) by (simp add: seal_ctx_def contracts_def)
  let ?body = "sync_header y nonce @ sealed P key nonce (sync_header y nonce) (be 3 (seqMask (sy_highestSeq y)))"
  have "stripControlFrame (sync_frame P y key nonce k) = Some ?body"
    unfolding sync_frame_def using assms(1) by (intro strip_sign) (simp add: contracts_def)
  moreover have "decodeSync P ?body key = Inr y" using decodeSync_layout [OF ctx wf] assms(4) by (simp add: y_def seqMask_mod)
  moreover have "readUInt16BE ?body 1 = Inr convId" using assms(2) by (simp add: y_def sync_header_def layout TYPE_SYNC_def)
  ultimately show ?thesis by blast
qed

lemma onSync_requests:
  fixes k :: buffer
  assumes P: "contracts P" "stream_ok P \<sigma>" and at: "recv_at P \<sigma> n b" and gap: "n < N" "N < n + 65536"
    and ids: "c_senderId b < 65536" and key: "getCurrentKey (sm_conv \<sigma>) b = Some key" "length key = 32" "length nonce = 12"
    and pub: "get2 (c_roster b) (sm_conv \<sigma>) (sm_sender \<sigma>) = Some pub" "pairwiseKey P (c_clientECDH b) pub = Inr kb"
    and live: "\<not> c_closed b" "\<not> c_useFallback b"
  defines "f \<equiv> sync_frame P \<lparr>sy_type = TYPE_SYNC, sy_convId = sm_conv \<sigma>, sy_senderId = sm_sender \<sigma>,
      sy_highestSeq = sm_seq (N - 1)\<rparr> key nonce k"
  shows "\<exists>nonce'. length nonce' = 12 \<and> sent_since b (client_handleMessage P f b) = replicate (length (c_peers b))
      (nack_frame P \<lparr>nk_type = TYPE_NACK, nk_convId = sm_conv \<sigma>, nk_senderId = c_senderId b,
         nk_targetId = sm_sender \<sigma>, nk_missingSeq = map sm_seq [n..<N]\<rparr> key nonce' kb) \<and>
    recv_at P \<sigma> n (client_handleMessage P f b) \<and>
    c_outOfOrderBuffer (client_handleMessage P f b) = c_outOfOrderBuffer b"
proof -
  let ?conv = "sm_conv \<sigma>" and ?i = "sm_sender \<sigma>"
  have conv: "?conv < 65536" "?i < 65536" "1 \<le> sm_first \<sigma>" using P(2) by (simp_all add: stream_ok_def)
  obtain body where strip: "stripControlFrame f = Some body" and conv_at: "readUInt16BE body 1 = Inr ?conv"
    and dec: "decodeSync P body key = Inr \<lparr>sy_type = TYPE_SYNC, sy_convId = ?conv, sy_senderId = ?i, sy_highestSeq = sm_seq (N - 1)\<rparr>"
    unfolding f_def using sync_frame_opens [OF P(1) conv(1,2) _ key(2,3), of "sm_seq (N - 1)" k] by (auto simp: sm_seq_def)
  define c1 where "c1 = noteSeen ?i (sm_seq (N - 1)) b"
  define c2 where "c2 = c1\<lparr>c_receivedMessages := ensure (c_receivedMessages c1) ?i\<rparr>"
  have core1: "client_core c1 = client_core b" by (simp add: c1_def)
  have at1: "recv_at P \<sigma> n c1" using at recv_at_core(1) [OF core1] by simp
  have c2: "c_draws c2 = c_draws b" "c_outbox c2 = c_outbox b" "c_peers c2 = c_peers b" "c_senderId c2 = c_senderId b"
    "c_closed c2 = c_closed b" "c_useFallback c2 = c_useFallback b" "c_roster c2 = c_roster b" "c_clientECDH c2 = c_clientECDH b"
    "getCurrentKey ?conv c2 = Some key" "c_outOfOrderBuffer c2 = c_outOfOrderBuffer b"
    using client_coreD [OF core1] getCurrentKey_core [OF core1, of ?conv] key(1)
    by (simp_all add: c2_def) (simp_all add: c1_def getCurrentKey_def)
  have at2: "recv_at P \<sigma> n c2" using at1 by (simp add: c2_def recv_at_def ready_at_def getChain_def)
  have high: "map_of (c_highestReceivedSeq c1) ?i = Some (sm_seq (n - 1))" using at1 by (simp add: recv_at_def)
  have n: "sm_first \<sigma> \<le> n" using at by (simp add: recv_at_def ready_at_def)
  have d: "seqDelta (sm_seq (n - 1)) (sm_seq (N - 1)) = N - n"
    using sm_seq_delta [of "n - 1" "N - 1"] gap n conv(3) by simp
  have miss: "filter (\<lambda>i. \<not> has (sub (c_receivedMessages c2) ?i) i)
      (map (seqAdd (sm_seq (n - 1))) [1..<N - n + 1]) = map sm_seq [n..<N]"
    using missing_names [OF at2 gap(1) _ conv(3), unfolded d] gap(2) by simp
  let ?g = "nack_frame P \<lparr>nk_type = TYPE_NACK, nk_convId = ?conv, nk_senderId = c_senderId b,
     nk_targetId = ?i, nk_missingSeq = map sm_seq [n..<N]\<rparr> key (randomBytes P (c_draws b) 12) kb"
  have "N - n < 65536" using gap by simp
  then obtain c3 where c3: "sendNack P ?conv ?i (map sm_seq [n..<N]) c2 = Done c3"
    "c_outbox c3 = c_outbox b @ map (\<lambda>(address, port). UdpSend address port ?g) (c_peers b)"
    using sendNack_sends [OF P(1) conv(1) _ conv(2), of c2 "map sm_seq [n..<N]" key pub kb] ids gap c2 key(2) pub live by auto
  have run: "client_handleMessage P f b = scheduleNackRetry ?conv ?i c3"
  proof -
    have "onSync P f b = Done (scheduleNackRetry ?conv ?i c3)"
      using strip conv_at key(1) dec high gap d miss c3(1)
      by (simp add: onSync_def Let_def c1_def [symmetric, simplified] c2_def [symmetric] has_def SEQ_MOD_val del: upt_Suc)
    then show ?thesis
      using sync_frame_reads(1) [OF conv(1,2), of P "sm_seq (N - 1)" key nonce k]
      by (simp add: client_handleMessage_def client_try_def f_def TYPE_defs)
  qed
  have core3: "client_core (scheduleNackRetry ?conv ?i c3) = client_core c2"
    using client_core_control(1) [of P ?conv ?i "map sm_seq [n..<N]" c2] c3(1) by simp
  show ?thesis
    unfolding run using c3(2) at2 recv_at_core(1) [OF core3] client_coreD(7) [OF core3] c2(10) P(1)
    by (intro exI [of _ "randomBytes P (c_draws b) 12"]) (simp add: sent_since_udp contracts_def random_sized_def)
qed

section \<open>The same steps over datagrams\<close>

lemma udp_sync_relayed:
  fixes key nonce :: buffer and h :: nat
  assumes "contracts P" "convId < 65536" "i < 65536" "\<not> closed s"
    and "get2 (members s) convId i = Some pub" "pairwiseKey P (serverECDH s) pub = Inr k"
    and "p \<in> set (sub (groups s) convId)" "p_id p \<noteq> endpoint ''udp'' ha qa"
    and "p_type p = Udp" "p_address p = Some hb" "p_port p = Some qb" "hb \<noteq> ''''" "qb \<noteq> 0"
  defines "f \<equiv> sync_frame P \<lparr>sy_type = TYPE_SYNC, sy_convId = convId, sy_senderId = i, sy_highestSeq = h\<rparr> key nonce k"
  shows "UdpSend hb qb f \<in> set (outbox (onUdpMessage P now f ha qa s))"
    and "messageCache (onUdpMessage P now f ha qa s) = messageCache s" "\<not> closed (onUdpMessage P now f ha qa s)"
proof -
  note relay = sync_frame_relayed [OF assms(1-3), of "count_received s" pub k h key nonce "udp_peer now ha qa",
      folded f_def onUdpMessage_handles]
  have out: "outbox (onUdpMessage P now f ha qa s) = outbox s @ transmit_all f (others s convId (udp_peer now ha qa)) (wsOpen s)"
    "messageCache (onUdpMessage P now f ha qa s) = messageCache s" "\<not> closed (onUdpMessage P now f ha qa s)"
    using relay assms(4-6) core_stateD [OF count_received_simps(5), of s] by simp_all
  have "p \<in> set (others s convId (udp_peer now ha qa))" using assms(7,8) by (simp add: others_def)
  then show "UdpSend hb qb f \<in> set (outbox (onUdpMessage P now f ha qa s))"
    unfolding out(1) using transmit_udp [OF assms(9-13), of f "wsOpen s"] by (fastforce simp: transmit_all_def)
  show "messageCache (onUdpMessage P now f ha qa s) = messageCache s" "\<not> closed (onUdpMessage P now f ha qa s)"
    by (fact out(2,3))+
qed

lemma udp_nack_answered:
  fixes key nonce k :: buffer
  assumes "contracts P" "convId < 65536" "i < 65536" "target < 65536" "length ms < 65536" "length nonce = 12"
    and "\<not> closed s" "seq \<in> set ms" "seq < 16777216"
    and "map_of (sub (sub (messageCache s) convId) target) seq = Some buf" "address \<noteq> ''''" "port \<noteq> 0"
  shows "UdpSend address port buf \<in> set (outbox (onUdpMessage P now (nack_frame P \<lparr>nk_type = TYPE_NACK,
    nk_convId = convId, nk_senderId = i, nk_targetId = target, nk_missingSeq = ms\<rparr> key nonce k) address port s))"
  using nack_frame_answered [OF assms(1-6), of "count_received s" seq buf "udp_peer now address port" key k] assms(7-10)
    core_stateD(7) [OF count_received_simps(5), of s] transmit_udp [of "udp_peer now address port" address port buf] assms(11,12)
  by (simp add: onUdpMessage_handles)

lemma udp_sync_requests:
  fixes k :: buffer
  assumes "contracts P" "stream_ok P \<sigma>" "recv_at P \<sigma> n b" "n < N" "N < n + 65536" "c_senderId b < 65536"
    and "getCurrentKey (sm_conv \<sigma>) b = Some key" "length key = 32" "length nonce = 12"
    and "get2 (c_roster b) (sm_conv \<sigma>) (sm_sender \<sigma>) = Some pub" "pairwiseKey P (c_clientECDH b) pub = Inr kb"
    and "\<not> c_closed b" "\<not> c_useFallback b"
  defines "f \<equiv> sync_frame P \<lparr>sy_type = TYPE_SYNC, sy_convId = sm_conv \<sigma>, sy_senderId = sm_sender \<sigma>,
      sy_highestSeq = sm_seq (N - 1)\<rparr> key nonce k"
  shows "\<exists>nonce'. length nonce' = 12 \<and> sent_since b (onUdp P False f b) = replicate (length (c_peers b))
      (nack_frame P \<lparr>nk_type = TYPE_NACK, nk_convId = sm_conv \<sigma>, nk_senderId = c_senderId b,
         nk_targetId = sm_sender \<sigma>, nk_missingSeq = map sm_seq [n..<N]\<rparr> key nonce' kb) \<and>
    recv_at P \<sigma> n (onUdp P False f b) \<and> c_outOfOrderBuffer (onUdp P False f b) = c_outOfOrderBuffer b"
proof -
  let ?b = "count_bytes f b"
  have core: "client_core ?b = client_core b" by simp
  note same = client_coreD [OF core] getCurrentKey_core [OF core, of "sm_conv \<sigma>"] recv_at_core(1) [OF core]
  have "sent_since ?b = sent_since b" by (simp add: sent_since_def count_bytes_def fun_eq_iff)
  then show ?thesis
    using onSync_requests [OF assms(1,2) _ assms(4,5), of ?b key nonce pub kb k] assms(3,6-13) same
    unfolding f_def [symmetric] by (simp add: onUdp_def)
qed

end
