(* ===== verification/Dart_App_Gaps.thy ===== *)
theory Dart_App_Gaps
  imports Dart_App_Stream Dart_Recovery
begin

text \<open>
  When an interactive client gives up on a gap. A missing sequence number is stamped with the time it
  was first missed; the next packet or SYNC that shows it still missing more than four seconds later
  writes it off: the newest sequence number moves over it, the sender's history and everything
  buffered is dropped, and a Dict-Reset asks the sender to compress without history.
\<close>

section \<open>Giving up on a gap\<close>

text \<open>A Dict-Reset can be sent: the client has the group key and the server's public key.\<close>

definition can_reset :: "prims \<Rightarrow> nat \<Rightarrow> nat \<Rightarrow> App \<Rightarrow> bool" where
  "can_reset P convId i a \<longleftrightarrow> convId < 65536 \<and> i < 65536 \<and> a_senderId a < 65536 \<and>
     (\<exists>key pub k. app_getCurrentKey convId a = Some key \<and> length key = 32 \<and>
        map_of (a_serverPubKeys a) convId = Some pub \<and> pairwiseKey P (a_clientECDH a) pub = Inr k)"

text \<open>What giving up leaves alone.\<close>

definition untouched where
  "untouched a = (a_senderId a, a_senderChains a, a_roomKeys a, a_currentEpochs a, a_serverPubKeys a, a_clientECDH a,
     a_shown a, a_nackTimestamps a)"

lemma untouchedD:
  assumes "untouched a = untouched b"
  shows "a_senderId a = a_senderId b" "app_getChain i e s a = app_getChain i e s b" "a_shown a = a_shown b"
    "a_nackTimestamps a = a_nackTimestamps b" "can_reset P i s a = can_reset P i s b"
    "app_getCurrentKey i a = app_getCurrentKey i b"
  using assms by (auto simp: untouched_def app_getChain_def can_reset_def app_getCurrentKey_def)

lemma untouched_core: "app_core a = app_core b \<Longrightarrow> untouched a = untouched b"
  by (simp add: untouched_def app_core_def) (metis as_client_fields)

lemma app_done_core: "m = Done a' \<Longrightarrow> app_core (state_of m) = app_core a \<Longrightarrow> app_core a' = app_core a"
  by simp

lemma dict_reset_returns:
  assumes "contracts P" "can_reset P convId i a"
  shows "\<exists>a'. app_sendDictReset P V convId i a = Done a' \<and> app_core a' = app_core a"
proof -
  obtain key pub k where key: "app_getCurrentKey convId a = Some key" "length key = 32"
      "map_of (a_serverPubKeys a) convId = Some pub" "pairwiseKey P (a_clientECDH a) pub = Inr k"
    and ids: "convId < 65536" "i < 65536" "a_senderId a < 65536"
    using assms(2) unfolding can_reset_def by auto
  have "length (randomBytes P (a_draws a) 12) = 12" using assms(1) by (simp add: contracts_def random_sized_def)
  then have "seal_ctx (P, key, randomBytes P (a_draws a) 12)"
    using assms(1) key(2) by (simp add: seal_ctx_def contracts_def)
  then have "\<exists>a'. app_sendDictReset P V convId i a = Done a'"
    using key ids by (simp add: app_sendDictReset_def app_random_def encodeDictReset_layout wf_reset_def)
  then show ?thesis by (auto intro: app_done_core [OF _ app_core_control(4)])
qed

lemma loss_moves:
  assumes P: "contracts P" "can_reset P convId i a"
    and h: "map_of (a_highestReceivedSeq a) i = Some h" "0 < seqDelta h l" "seqDelta h l < 8388608"
  shows "\<exists>a'. declarePermanentLoss P V convId i l a = Done a' \<and> untouched a' = untouched a \<and>
    map_of (a_highestReceivedSeq a') i = Some l \<and> sub (a_receivedMessages a') i = [] \<and> sub (a_outOfOrderBuffer a') i = []"
proof -
  let ?a = "a\<lparr>a_highestReceivedSeq := AList.update i l (a_highestReceivedSeq a),
      a_receivedMessages := AList.update i [] (set2 (ensure (a_receivedMessages a) i) i l
        \<lparr>dd_type = TYPE_DATA, dd_convId = convId, dd_senderId = i, dd_seq = l, dd_payload = []\<rparr>)\<rparr>"
  let ?b = "if has (a_outOfOrderBuffer a) i then ?a\<lparr>a_outOfOrderBuffer := AList.update i [] (a_outOfOrderBuffer a)\<rparr> else ?a"
  have run: "declarePermanentLoss P V convId i l a = app_sendDictReset P V convId i ?b"
    using h by (simp add: declarePermanentLoss_def Let_def SEQ_MOD_val)
  have b: "untouched ?b = untouched a" "map_of (a_highestReceivedSeq ?b) i = Some l" "sub (a_receivedMessages ?b) i = []"
    "sub (a_outOfOrderBuffer ?b) i = []"
    by (simp_all add: untouched_def) (auto simp: has_def sub_def)
  obtain a' where a': "app_sendDictReset P V convId i ?b = Done a'" "app_core a' = app_core ?b"
    using dict_reset_returns [OF P(1), of convId i ?b V] P(2) untouchedD(5) [OF b(1)] by auto
  then have "as_client a' = as_client ?b" by (simp add: app_core_def)
  then have "a_highestReceivedSeq a' = a_highestReceivedSeq ?b" "a_receivedMessages a' = a_receivedMessages ?b"
    "a_outOfOrderBuffer a' = a_outOfOrderBuffer ?b"
    by (metis as_client_fields)+
  then show ?thesis using run a' b untouched_core [OF a'(2)] by simp
qed

text \<open>There is nothing left to drain after a loss was declared.\<close>

lemma drain_nothing: "sub (a_outOfOrderBuffer a) i = [] \<Longrightarrow> app_processBufferedPackets P V i a = a"
  by (simp add: app_processBufferedPackets_def app_buffered_loop.simps)

text \<open>A number missed more than four seconds before any reading of the clock.\<close>

definition overdue :: "clock \<Rightarrow> nat \<Rightarrow> App \<Rightarrow> nat \<Rightarrow> bool" where
  "overdue clk i a s \<longleftrightarrow> (\<exists>t. map_of (sub (a_nackTimestamps a) i) s = Some t \<and> 0 < t \<and> (\<forall>now \<in> readings clk. now - t > 4000))"

lemma overdue_tick: "overdue clk i a s \<Longrightarrow> overdue (clock_tick clk) i a s"
  unfolding overdue_def by (meson readings_tick subsetD)

lemma overdue_now:
  assumes "overdue clk i a s"
  obtains t where "map_of (sub (a_nackTimestamps a) i) s = Some t" "0 < t" "clock_now clk - t > 4000"
  using assms clock_now_reading unfolding overdue_def by meson

lemma overdue_same: "a_nackTimestamps a = a_nackTimestamps b \<Longrightarrow> overdue clk i a s = overdue clk i b s"
  by (simp add: overdue_def)

lemma gap_loop_gives_up:
  assumes P: "contracts P" and m: "m < 8388608"
  shows "c \<le> m \<Longrightarrow> can_reset P convId i a \<Longrightarrow> map_of (a_highestReceivedSeq a) i = Some (seqAdd h c) \<Longrightarrow>
    (\<forall>k \<in> {Suc c..m}. overdue clk i a (seqAdd h k) \<and> \<not> has (sub (a_outOfOrderBuffer a) i) (seqAdd h k) \<and>
      \<not> has (sub (a_receivedMessages a) i) (seqAdd h k)) \<Longrightarrow>
    \<exists>a'. app_gap_loop P V clk d convId i h [] [Suc c..<Suc m] a = Done a' \<and> untouched a' = untouched a \<and>
      map_of (a_highestReceivedSeq a') i = Some (seqAdd h m) \<and>
      (c < m \<or> sub (a_receivedMessages a) i = [] \<and> sub (a_outOfOrderBuffer a) i = [] \<longrightarrow> sub (a_receivedMessages a') i = [] \<and> sub (a_outOfOrderBuffer a') i = [])"
proof (induction "m - c" arbitrary: c a clk)
  case (Suc x)
  then have c: "c < m" by simp
  let ?l = "seqAdd h (Suc c)"
  have step: "seqDelta (seqAdd h c) ?l = 1" by (simp add: seqAdd_Suc)
  obtain a1 where a1: "declarePermanentLoss P V convId i ?l a = Done a1" "untouched a1 = untouched a"
    "map_of (a_highestReceivedSeq a1) i = Some ?l" "sub (a_receivedMessages a1) i = []" "sub (a_outOfOrderBuffer a1) i = []"
    using loss_moves [OF P Suc.prems(2,3), of ?l V] step by auto
  have o: "overdue clk i a ?l" "\<not> has (sub (a_outOfOrderBuffer a) i) ?l" "\<not> has (sub (a_receivedMessages a) i) ?l"
    using Suc.prems(4) c by auto
  have run: "app_gap_loop P V clk d convId i h [] [Suc c..<Suc m] a = app_gap_loop P V (clock_tick clk) d convId i h [] [Suc (Suc c)..<Suc m] a1"
    using o(2,3) a1(1) drain_nothing [OF a1(5)] c by (auto simp: upt_conv_Cons Let_def simp del: upt_Suc intro: overdue_now [OF o(1)])
  have "\<exists>a'. app_gap_loop P V (clock_tick clk) d convId i h [] [Suc (Suc c)..<Suc m] a1 = Done a' \<and> untouched a' = untouched a1 \<and>
      map_of (a_highestReceivedSeq a') i = Some (seqAdd h m) \<and>
      (Suc c < m \<or> sub (a_receivedMessages a1) i = [] \<and> sub (a_outOfOrderBuffer a1) i = [] \<longrightarrow> sub (a_receivedMessages a') i = [] \<and> sub (a_outOfOrderBuffer a') i = [])"
  proof (rule Suc.hyps(1))
    show "\<forall>k \<in> {Suc (Suc c)..m}. overdue (clock_tick clk) i a1 (seqAdd h k) \<and>
        \<not> has (sub (a_outOfOrderBuffer a1) i) (seqAdd h k) \<and> \<not> has (sub (a_receivedMessages a1) i) (seqAdd h k)"
      using Suc.prems(4) a1(4,5) overdue_same [OF untouchedD(4) [OF a1(2)]] by (simp add: overdue_tick)
  qed (use Suc.hyps(2) Suc.prems(2) c a1(3) untouchedD(5) [OF a1(2)] in auto)
  then show ?case using run a1(2,4,5) by auto
qed simp

text \<open>The sender's SYNC after message \<open>N - 1\<close>, as the relay passes it on.\<close>

definition sync_for :: "prims \<Rightarrow> stream \<Rightarrow> nat \<Rightarrow> buffer \<Rightarrow> buffer \<Rightarrow> buffer \<Rightarrow> buffer" where
  "sync_for P \<sigma> N key nonce k = sync_frame P \<lparr>sy_type = TYPE_SYNC, sy_convId = sm_conv \<sigma>, sy_senderId = sm_sender \<sigma>,
     sy_highestSeq = sm_seq (N - 1)\<rparr> key nonce k"

lemma app_sync_runs:
  assumes P: "contracts P" "stream_ok P \<sigma>" and at: "recv_at P \<sigma> n (as_client b)" and gap: "n < N" "N < n + 8388608"
    and key: "app_getCurrentKey (sm_conv \<sigma>) b = Some key" "length key = 32" "length nonce = 12"
  shows "app_handleMessage P V clk (sync_for P \<sigma> N key nonce k) b =
    state_of (app_gap_loop P V clk True (sm_conv \<sigma>) (sm_sender \<sigma>) (sm_seq (n - 1)) [] [1..<Suc (N - n)]
      (b\<lparr>a_receivedMessages := ensure (a_receivedMessages b) (sm_sender \<sigma>)\<rparr>))"
proof -
  have conv: "sm_conv \<sigma> < 65536" "sm_sender \<sigma> < 65536" "1 \<le> sm_first \<sigma>" using P(2) by (simp_all add: stream_ok_def)
  obtain body where body: "stripControlFrame (sync_for P \<sigma> N key nonce k) = Some body"
    "readUInt16BE body 1 = Inr (sm_conv \<sigma>)" "decodeSync P body key = Inr \<lparr>sy_type = TYPE_SYNC, sy_convId = sm_conv \<sigma>,
       sy_senderId = sm_sender \<sigma>, sy_highestSeq = sm_seq (N - 1)\<rparr>"
    using sync_frame_opens [OF P(1) conv(1,2) _ key(2,3), of "sm_seq (N - 1)" k] by (auto simp: sync_for_def sm_seq_def)
  have high: "map_of (a_highestReceivedSeq b) (sm_sender \<sigma>) = Some (sm_seq (n - 1))" and n: "sm_first \<sigma> \<le> n"
    using at by (simp_all add: recv_at_def ready_at_def)
  have "seqDelta (sm_seq (n - 1)) (sm_seq (N - 1)) = N - n"
    using sm_seq_delta [of "n - 1" "N - 1"] gap n conv(3) by simp
  then have "app_onSync P V clk (sync_for P \<sigma> N key nonce k) b = app_gap_loop P V clk True (sm_conv \<sigma>) (sm_sender \<sigma>)
      (sm_seq (n - 1)) [] [1..<Suc (N - n)] (b\<lparr>a_receivedMessages := ensure (a_receivedMessages b) (sm_sender \<sigma>)\<rparr>)"
    using body key(1) high gap by (simp add: app_onSync_def Let_def has_def SEQ_MOD_val del: upt_Suc)
  then show ?thesis
    using sync_frame_reads(1) [OF conv(1,2), of P "sm_seq (N - 1)" key nonce k]
    by (simp add: app_handleMessage_def app_try_def sync_for_def TYPE_defs)
qed

lemma gap_loop_stamps:
  assumes "stamped_since t0 i a" "prompt t0 clk"
    and "\<forall>s t. map_of (sub (a_nackTimestamps a) i) s = Some t \<longrightarrow> t \<in> T" "readings clk \<subseteq> T"
    and "\<forall>k \<in> set ks. \<not> has (sub (a_outOfOrderBuffer a) i) (seqAdd h k) \<and> \<not> has (sub (a_receivedMessages a) i) (seqAdd h k)"
  shows "(\<forall>s t. map_of (sub (a_nackTimestamps a) i) s = Some t \<longrightarrow>
      map_of (sub (a_nackTimestamps (state_of (app_gap_loop P V clk d convId i h missing ks a))) i) s = Some t) \<and>
    (\<forall>k \<in> set ks. \<exists>t \<in> T. map_of (sub (a_nackTimestamps (state_of (app_gap_loop P V clk d convId i h missing ks a))) i) (seqAdd h k) = Some t)"
  using assms
proof (induction ks arbitrary: missing a clk)
  case Nil
  then show ?case using app_coreD(3) [OF app_core_control(1)] by simp
next
  case (Cons k ks)
  let ?s = "seqAdd h k"
  show ?case
  proof (cases "map_of (sub (a_nackTimestamps a) i) ?s")
    case None
    let ?a = "a\<lparr>a_nackTimestamps := set2 (a_nackTimestamps a) i ?s (clock_now clk)\<rparr>"
    have run: "app_gap_loop P V clk d convId i h missing (k # ks) a
        = app_gap_loop P V (clock_tick clk) d convId i h (missing @ [?s]) ks ?a"
      using Cons.prems(5) None by (simp add: Let_def)
    have now: "clock_now clk \<in> T" using Cons.prems(4) clock_now_reading by blast
    have "stamped_since t0 i ?a"
      using Cons.prems(1) prompt_now [OF Cons.prems(2)] by (auto simp: stamped_since_def sub_set2 split: if_splits)
    moreover have "\<forall>s t. map_of (sub (a_nackTimestamps ?a) i) s = Some t \<longrightarrow> t \<in> T"
      using Cons.prems(3) now by (auto simp: sub_set2)
    moreover have "readings (clock_tick clk) \<subseteq> T" using readings_tick [of clk] Cons.prems(4) by blast
    ultimately have IH: "(\<forall>s t. map_of (sub (a_nackTimestamps ?a) i) s = Some t \<longrightarrow>
        map_of (sub (a_nackTimestamps (state_of (app_gap_loop P V clk d convId i h missing (k # ks) a))) i) s = Some t) \<and>
      (\<forall>j \<in> set ks. \<exists>t \<in> T. map_of (sub (a_nackTimestamps (state_of (app_gap_loop P V clk d convId i h missing (k # ks) a))) i) (seqAdd h j) = Some t)"
      unfolding run using Cons.prems(5) prompt_tick [OF Cons.prems(2)] by (intro Cons.IH) simp_all
    have "map_of (sub (a_nackTimestamps ?a) i) ?s = Some (clock_now clk)"
      "map_of (sub (a_nackTimestamps a) i) s = Some t \<Longrightarrow> map_of (sub (a_nackTimestamps ?a) i) s = Some t" for s t
      using None by (auto simp: sub_set2)
    then show ?thesis using IH now by (auto simp del: app_gap_loop.simps)
  next
    case (Some t)
    have "\<not> clock_now clk - t > 4000"
      using Cons.prems(1) Some prompt_now [OF Cons.prems(2)] by (fastforce simp: stamped_since_def)
    then obtain clk' where run: "app_gap_loop P V clk d convId i h missing (k # ks) a = app_gap_loop P V clk' d convId i h (missing @ [?s]) ks a"
      and clk': "prompt t0 clk'" "readings clk' \<subseteq> T"
      using Cons.prems(2,4,5) Some prompt_tick [OF Cons.prems(2)] readings_tick [of clk]
      by (cases "0 < t") (auto simp: Let_def)
    have "t \<in> T" using Cons.prems(3) Some by blast
    then show ?thesis
      using Cons.IH [OF Cons.prems(1) clk'(1) Cons.prems(3) clk'(2), of "missing @ [?s]"] Cons.prems(5) Some unfolding run by auto
  qed
qed

lemma can_reset_same:
  "as_client a = as_client b \<Longrightarrow> can_reset P i s a = can_reset P i s b"
  "as_client a = as_client b \<Longrightarrow> app_getCurrentKey i a = app_getCurrentKey i b"
  unfolding can_reset_def as_client_reads(2) [symmetric] by (metis as_client_fields)+

text \<open>
  The stream of a sender whose dictionary starts afresh with message \<open>N\<close>, as it does after a
  Dict-Reset; sequence numbers and ratchet go on.
\<close>

definition sm_restart :: "stream \<Rightarrow> nat \<Rightarrow> stream" where
  "sm_restart \<sigma> N = \<sigma>\<lparr>sm_first := N, sm_idx0 := sm_idx \<sigma> N\<rparr>"

lemma recv_at_restart:
  assumes "ready_at P \<sigma> n (as_client b)" "n \<le> N" "1 \<le> N" "untouched a = untouched b"
    and "map_of (a_highestReceivedSeq a) (sm_sender \<sigma>) = Some (sm_seq (N - 1))" "sub (a_receivedMessages a) (sm_sender \<sigma>) = []"
  shows "recv_at P (sm_restart \<sigma> N) N (as_client a)"
proof -
  obtain s where s: "app_getChain (sm_conv \<sigma>) (sm_epoch \<sigma>) (sm_sender \<sigma>) b = Some s" "on_chain P (sm_seed \<sigma>) s"
    "cs_index s \<le> sm_idx \<sigma> n" "a_senderId b \<noteq> sm_sender \<sigma>"
    using assms(1) unfolding ready_at_def by auto
  then have "cs_index s \<le> sm_idx \<sigma> N" using assms(2) by (simp add: sm_idx_def)
  with s show ?thesis
    using untouchedD(1,2) [OF assms(4)] assms(5,6)
    by (simp add: recv_at_def ready_at_def sm_restart_def sm_hist_def sm_idx_def)
qed

text \<open>A whole gap that is overdue: messages \<open>n\<close> to \<open>N - 1\<close> are written off.\<close>

lemma gap_written_off:
  assumes P: "contracts P" "stream_ok P \<sigma>" and at: "recv_at P \<sigma> n (as_client b)" and gap: "n < N" "N < n + 8388608"
    and reset: "can_reset P (sm_conv \<sigma>) (sm_sender \<sigma>) b"
    and late: "\<forall>j. n \<le> j \<and> j < N \<longrightarrow> overdue clk (sm_sender \<sigma>) b (sm_seq j) \<and>
      \<not> has (sub (a_outOfOrderBuffer b) (sm_sender \<sigma>)) (sm_seq j)"
  shows "\<exists>a. app_gap_loop P V clk d (sm_conv \<sigma>) (sm_sender \<sigma>) (sm_seq (n - 1)) [] [1..<Suc (N - n)] b = Done a \<and>
    recv_at P (sm_restart \<sigma> N) N (as_client a) \<and> a_shown a = a_shown b \<and> sub (a_outOfOrderBuffer a) (sm_sender \<sigma>) = []"
proof -
  let ?i = "sm_sender \<sigma>"
  have n: "1 \<le> n" and at': "ready_at P \<sigma> n (as_client b)"
    using P(2) at by (simp_all add: stream_ok_def recv_at_def ready_at_def)
  have h: "map_of (a_highestReceivedSeq b) ?i = Some (seqAdd (sm_seq (n - 1)) 0)" "sub (a_receivedMessages b) ?i = sm_hist \<sigma> n"
    using at by (simp_all add: recv_at_def ready_at_def seqAdd_0 sm_seq_def)
  have nth: "seqAdd (sm_seq (n - 1)) k = sm_seq (n - 1 + k)" for k by (simp add: seqAdd_mod sm_seq_def mod_simps)
  have "overdue clk ?i b (sm_seq (n - 1 + k)) \<and> \<not> has (sub (a_outOfOrderBuffer b) ?i) (sm_seq (n - 1 + k)) \<and>
      \<not> has (sm_hist \<sigma> n) (sm_seq (n - 1 + k))" if "k \<in> {Suc 0..N - n}" for k
  proof -
    have "n \<le> n - 1 + k" "n - 1 + k < N" using that n gap by auto
    then show ?thesis using late sm_hist_new [of n "n - 1 + k" \<sigma>] gap(2) by simp
  qed
  then have "\<forall>k \<in> {Suc 0..N - n}. overdue clk ?i b (seqAdd (sm_seq (n - 1)) k) \<and>
      \<not> has (sub (a_outOfOrderBuffer b) ?i) (seqAdd (sm_seq (n - 1)) k) \<and> \<not> has (sub (a_receivedMessages b) ?i) (seqAdd (sm_seq (n - 1)) k)"
    unfolding nth h(2) by blast
  have "N - n < 8388608" "0 < N - n" using gap by auto
  with gap_loop_gives_up [OF P(1) _ le0 reset h(1) \<open>\<forall>k \<in> _. _\<close>, of V d]
  obtain a where a: "app_gap_loop P V clk d (sm_conv \<sigma>) ?i (sm_seq (n - 1)) [] [Suc 0..<Suc (N - n)] b = Done a"
    "untouched a = untouched b" "map_of (a_highestReceivedSeq a) ?i = Some (seqAdd (sm_seq (n - 1)) (N - n))"
    "sub (a_receivedMessages a) ?i = []" "sub (a_outOfOrderBuffer a) ?i = []"
    by (auto simp del: upt_Suc)
  have "n - 1 + (N - n) = N - 1" using gap n by simp
  then have "map_of (a_highestReceivedSeq a) ?i = Some (sm_seq (N - 1))" using a(3) unfolding nth by simp
  then show ?thesis
    using recv_at_restart [OF at' _ _ a(2) _ a(4), of N] gap n a untouchedD(3) [OF a(2)] by (simp del: upt_Suc)
qed

text \<open>
  Two SYNCs more than four seconds apart: the first asks for the gap, the second writes it off. Each
  is handled by its own clock; the first within four seconds.
\<close>

lemma two_syncs_write_off:
  fixes V :: variant and k1 :: buffer
  assumes P: "contracts P" "stream_ok P \<sigma>" and at: "recv_at P \<sigma> n (as_client b)" and gap: "n < N" "N < n + 8388608"
    and b: "sub (a_outOfOrderBuffer b) (sm_sender \<sigma>) = []" "sub (a_nackTimestamps b) (sm_sender \<sigma>) = []"
      "can_reset P (sm_conv \<sigma>) (sm_sender \<sigma>) b" "app_getCurrentKey (sm_conv \<sigma>) b = Some key"
    and t: "0 < t1" "prompt t1 clk1" "\<forall>t \<in> readings clk1. \<forall>t' \<in> readings clk2. t + 4000 < t'" and nonce: "length nonce1 = 12" "length nonce2 = 12"
  defines "b1 \<equiv> app_handleMessage P V clk1 (sync_for P \<sigma> N key nonce1 k1) b"
  shows "recv_at P \<sigma> n (as_client b1)"
    "recv_at P (sm_restart \<sigma> N) N (as_client (app_handleMessage P V clk2 (sync_for P \<sigma> N key nonce2 k2) b1)) \<and>
    a_shown (app_handleMessage P V clk2 (sync_for P \<sigma> N key nonce2 k2) b1) = a_shown b"
proof -
  let ?i = "sm_sender \<sigma>"
  have key: "length key = 32" using b(3,4) by (auto simp: can_reset_def)
  have n: "1 \<le> n" and rec: "sub (a_receivedMessages b) ?i = sm_hist \<sigma> n"
    using P(2) at by (simp_all add: stream_ok_def recv_at_def ready_at_def)
  let ?b = "b\<lparr>a_receivedMessages := ensure (a_receivedMessages b) ?i\<rparr>"
  have run1: "b1 = state_of (app_gap_loop P V clk1 True (sm_conv \<sigma>) ?i (sm_seq (n - 1)) [] [1..<Suc (N - n)] ?b)"
    unfolding b1_def by (rule app_sync_runs [OF P at gap b(4) key nonce(1)])
  have at': "recv_at P \<sigma> n (as_client ?b)" "can_reset P (sm_conv \<sigma>) ?i ?b" "app_getCurrentKey (sm_conv \<sigma>) ?b = Some key"
    using at b(3,4) by (simp_all add: recv_at_def ready_at_def app_getChain_def can_reset_def app_getCurrentKey_def)
  have same: "as_client b1 = as_client ?b" "a_shown b1 = a_shown b"
    using gap_loop_asks [of t1 ?i ?b clk1] b(2) t(2) unfolding run1 by (simp_all add: stamped_since_def)
  have b1: "a_outOfOrderBuffer b1 = a_outOfOrderBuffer b" using arg_cong [OF same(1), of c_outOfOrderBuffer] by simp
  have nth: "seqAdd (sm_seq (n - 1)) k = sm_seq (n - 1 + k)" for k by (simp add: seqAdd_mod sm_seq_def mod_simps)
  have "\<forall>k \<in> set [1..<Suc (N - n)]. \<not> has (sub (a_outOfOrderBuffer ?b) ?i) (seqAdd (sm_seq (n - 1)) k) \<and>
      \<not> has (sub (a_receivedMessages ?b) ?i) (seqAdd (sm_seq (n - 1)) k)"
    using b(1) rec n gap unfolding nth by (auto simp: sm_hist_new)
  note stamps = conjunct2 [OF gap_loop_stamps [OF _ t(2) _ _ this, of "readings clk1" P V True "sm_conv \<sigma>" "[]", folded run1]]
  have late: "overdue clk2 ?i b1 (sm_seq j)" if "n \<le> j" "j < N" for j
  proof -
    have "j - (n - 1) \<in> set [1..<Suc (N - n)]" "n - 1 + (j - (n - 1)) = j" using that n by auto
    with stamps b(2) obtain t where "t \<in> readings clk1" "map_of (sub (a_nackTimestamps b1) ?i) (sm_seq j) = Some t"
      unfolding nth by (fastforce simp: stamped_since_def)
    then show ?thesis using t by (fastforce simp: overdue_def prompt_def)
  qed
  show at1: "recv_at P \<sigma> n (as_client b1)" using at'(1) same by simp
  have at2: "recv_at P \<sigma> n (as_client (b1\<lparr>a_receivedMessages := ensure (a_receivedMessages b1) ?i\<rparr>))"
    "can_reset P (sm_conv \<sigma>) ?i (b1\<lparr>a_receivedMessages := ensure (a_receivedMessages b1) ?i\<rparr>)"
    using at1 can_reset_same(1) [OF same(1), of P "sm_conv \<sigma>" ?i] at'(2)
    by (simp_all add: recv_at_def ready_at_def app_getChain_def can_reset_def app_getCurrentKey_def)
  show "recv_at P (sm_restart \<sigma> N) N (as_client (app_handleMessage P V clk2 (sync_for P \<sigma> N key nonce2 k2) b1)) \<and>
    a_shown (app_handleMessage P V clk2 (sync_for P \<sigma> N key nonce2 k2) b1) = a_shown b"
    using app_sync_runs [OF P at1 gap _ key nonce(2), of V clk2 k2] can_reset_same(2) [OF same(1), of "sm_conv \<sigma>"] at'(3)
      gap_written_off [OF P at2(1) gap at2(2), of clk2 V True] late b(1) b1 same(2)
    by (auto simp: overdue_def)
qed

text \<open>A data packet that arrives while the gap before it is overdue.\<close>

lemma data_after_overdue_gap:
  assumes P: "contracts P" "stream_ok P \<sigma>" and at: "recv_at P \<sigma> n (as_client b)" and gap: "n < j" "j < n + 8388607"
    and f: "is_frame P \<sigma> j f" "sm_idx \<sigma> j < 4294967296" and reset: "can_reset P (sm_conv \<sigma>) (sm_sender \<sigma>) b"
    and late: "\<forall>k. n \<le> k \<and> k < j \<longrightarrow> overdue clk (sm_sender \<sigma>) b (sm_seq k) \<and>
      \<not> has (sub (a_outOfOrderBuffer b) (sm_sender \<sigma>)) (sm_seq k)"
  shows "recv_at P (sm_restart \<sigma> j) j (as_client (app_handleMessage P V clk f b)) \<and>
    sub (a_outOfOrderBuffer (app_handleMessage P V clk f b)) (sm_sender \<sigma>) = [] \<and>
    a_shown (app_handleMessage P V clk f b) = a_shown b"
proof -
  let ?i = "sm_sender \<sigma>" and ?b = "b\<lparr>a_outOfOrderBuffer := set2 (a_outOfOrderBuffer b) (sm_sender \<sigma>) (sm_seq j) f\<rparr>"
  have h: "map_of (a_highestReceivedSeq b) ?i = Some (sm_seq (n - 1))" and n: "1 \<le> n"
    using at P(2) by (auto simp: recv_at_def ready_at_def stream_ok_def)
  have "seqDelta (sm_seq (n - 1)) (sm_seq j) = j - (n - 1)" using gap n by (intro sm_seq_delta) auto
  then have d: "seqDelta (sm_seq (n - 1)) (sm_seq j) = Suc (j - n)" using gap n by simp
  have run: "app_handleMessage P V clk f b
      = state_of (app_gap_loop P V clk False (sm_conv \<sigma>) ?i (sm_seq (n - 1)) [] [1..<Suc (j - n)] ?b)"
    using h d gap sm_frame_reads [OF P(2) f(2,1)]
    by (simp add: app_handleMessage_def app_try_def app_onData_def Let_def has_def SEQ_MOD_val TYPE_DATA_def del: upt_Suc)
  have "sm_seq k \<noteq> sm_seq j" if "n \<le> k" "k < j" for k using that gap sm_seq_inj [of k j] by auto
  then have late': "\<forall>k. n \<le> k \<and> k < j \<longrightarrow> overdue clk ?i ?b (sm_seq k) \<and> \<not> has (sub (a_outOfOrderBuffer ?b) ?i) (sm_seq k)"
    using late by (auto simp: overdue_def sub_set2)
  have "recv_at P \<sigma> n (as_client ?b)" "can_reset P (sm_conv \<sigma>) ?i ?b"
    using at reset by (simp_all add: as_client_buffer can_reset_def app_getCurrentKey_def)
  from gap_written_off [OF P this(1) gap(1) _ this(2) late', of V False] gap(2) show ?thesis
    by (auto simp: run simp del: upt_Suc)
qed

end
