(* ===== verification/Dart_App_Props.thy ===== *)
theory Dart_App_Props
  imports Dart_App_Inv Dart_App_Gaps Dart_Client_Props
begin

text \<open>
  The properties of the interactive clients: what is typed at one end is shown at the other, in order;
  what becomes of a gap that is never filled; sending rate, queue and reconnection.
\<close>

section \<open>States for the witnesses\<close>

definition carol :: App where
  "carol = (new_cli 7 '''' [7] 300)\<lparr>a_currentRoomId := 5,
     a_roster := [(5, [(7, ecdhPublic demo [7]), (9, ecdhPublic demo [9])])],
     a_serverPubKeys := [(5, ecdhPublic demo [1])], a_roomKeys := [(5, [(1, replicate 32 3)])],
     a_senderChains := [(5, [(1, [(7, \<lparr>cs_key = replicate 32 6, cs_index = 0\<rparr>)])])]\<rparr>"

definition dave :: App where
  "dave = (new_cli 9 '''' [9] 300)\<lparr>a_currentRoomId := 5, a_highestReceivedSeq := [(7, 0)],
     a_roster := [(5, [(7, ecdhPublic demo [7]), (9, ecdhPublic demo [9])])],
     a_serverPubKeys := [(5, ecdhPublic demo [1])], a_roomKeys := [(5, [(1, replicate 32 3)])],
     a_senderChains := [(5, [(1, [(7, \<lparr>cs_key = replicate 32 6, cs_index = 0\<rparr>)])])]\<rparr>"

lemma new_cli_fields [simp]:
  "a_senderId (new_cli i fp ecdh secs) = i" "a_nextSeq (new_cli i fp ecdh secs) = 1" "a_sentMessages (new_cli i fp ecdh secs) = []"
  "a_receivedMessages (new_cli i fp ecdh secs) = []" "a_outOfOrderBuffer (new_cli i fp ecdh secs) = []"
  "a_nackTimestamps (new_cli i fp ecdh secs) = []" "a_messageKeys (new_cli i fp ecdh secs) = []"
  "a_currentEpochs (new_cli i fp ecdh secs) = []" "a_lastSendTime (new_cli i fp ecdh secs) = 0"
  "a_shown (new_cli i fp ecdh secs) = []" "a_outbox (new_cli i fp ecdh secs) = []" "a_clientECDH (new_cli i fp ecdh secs) = ecdh"
  by (simp_all add: new_cli_def cli_connect_def app_restart_def blank_app_def)

lemma carol_dave_simps [simp]:
  "a_senderId carol = 7" "a_nextSeq carol = 1" "a_sentMessages carol = []" "a_currentEpochs carol = []" "a_messageKeys carol = []"
  "a_lastSendTime carol = 0" "a_currentRoomId carol = 5" "a_outbox carol = []" "app_getCurrentKey 5 carol = Some (replicate 32 3)"
  "app_getChain 5 (Suc 0) 7 carol = Some \<lparr>cs_key = replicate 32 6, cs_index = 0\<rparr>"
  "a_senderId dave = 9" "a_highestReceivedSeq dave = [(7, 0)]" "a_receivedMessages dave = []" "a_outOfOrderBuffer dave = []"
  "a_nackTimestamps dave = []" "a_shown dave = []" "app_getCurrentKey 5 dave = Some (replicate 32 3)"
  "app_getChain 5 (Suc 0) 7 dave = Some \<lparr>cs_key = replicate 32 6, cs_index = 0\<rparr>"
  "map_of (a_serverPubKeys dave) 5 = Some (ecdhPublic demo [1])" "a_clientECDH dave = [9]"
  by (simp_all add: carol_def dave_def app_getCurrentKey_def app_getChain_def get2_def sub_def)

lemma dave_at: "recv_at demo hello_stream 1 (as_client dave)"
  by (simp add: recv_at_def ready_at_def sm_hist_def sm_seq_def on_chain_def)

lemma carol_at: "sender_at demo hello_stream 1 (as_client carol)"
  by (simp add: sender_at_def sm_hist_def sm_seq_def sm_idx_def on_chain_def)

section \<open>Delivery\<close>

text \<open>
  C4. What arrives is shown, in the order of sending. An interactive client (terminal, browser or
  desktop) that expects message \<open>lo\<close> is handed packets of the messages \<open>lo\<close> to \<open>N - 1\<close> in any order
  and with duplicates; the clock may be read any number of times, all within four seconds. Then all of them have been processed, and their texts
  are displayed after what was there before, one by one in the sender's order.
\<close>

theorem texts_shown_in_order:
  assumes "stream_ok P \<sigma>" "sm_idx \<sigma> N \<le> 4294967296" "N < lo + 8388608" "lo < N"
    and "recv_at P \<sigma> lo (as_client a)" "sub (a_outOfOrderBuffer a) (sm_sender \<sigma>) = []" "sub (a_nackTimestamps a) (sm_sender \<sigma>) = []"
    and "list_all2 (\<lambda>j e. is_frame P \<sigma> j (snd e)) js packets" "set js = {lo..<N}"
    and "\<forall>e \<in> set packets. \<forall>t \<in> readings (fst e). t0 \<le> t \<and> t \<le> t0 + 4000"
  shows "recv_at P \<sigma> N (as_client (fold (\<lambda>e. app_handleMessage P V (fst e) (snd e)) packets a)) \<and>
    a_shown (fold (\<lambda>e. app_handleMessage P V (fst e) (snd e)) packets a)
      = a_shown a @ concat (map (\<lambda>n. shown_for (sm_sender \<sigma>) (sm_text \<sigma> n)) [lo..<N])"
  using ui.delivers [OF assms(1-3,5), of t0 js packets V] assms(4,6-10)
  by (simp add: stamped_since_def list_all_iff ui.told_def prompt_def)

theorem texts_shown_in_order_witness:
  "a_shown (fold (\<lambda>e. app_handleMessage demo Web (fst e) (snd e))
      [((10, [11, 12]), sm_frame demo hello_stream (replicate 12 1) 2), ((20, []), sm_frame demo hello_stream (replicate 12 2) 1)] dave)
    = [Said 7 [104], Said 7 [104]]"
proof -
  have packets: "list_all2 (\<lambda>j e. is_frame demo hello_stream j (snd e)) [2, 1]
      [((10, [11, 12]) :: clock, sm_frame demo hello_stream (replicate 12 1) 2), ((20, []), sm_frame demo hello_stream (replicate 12 2) 1)]"
    by (auto simp: is_frame_def intro: exI [of _ "replicate 12 1"] exI [of _ "replicate 12 2"])
  have range: "set [2, 1 :: nat] = {1..<3}" by auto
  have "shown_for 7 [104] = [Said 7 [104]]"
    by (simp add: shown_for_def js_startsWith_def js_text_def)
  then show ?thesis
    using texts_shown_in_order [OF hello_ok _ _ _ dave_at _ _ packets range, of 0 Web]
    by (simp add: sm_idx_def upt_conv_Cons readings_def)
qed

text \<open>
  C3. From the keyboard to the other screen. A line typed into the terminal client, at least 250 ms
  after the last one, in a room whose key it has, goes out as one datagram; handed to any interactive
  client that is up to date with this sender, it is shown there, trimmed, and both ends are ready for
  the next message.
\<close>

theorem typed_line_is_shown:
  assumes "stream_ok P \<sigma>" "sm_idx \<sigma> n < 4294967296" "sender_at P \<sigma> n (as_client a)"
    and "a_currentRoomId a = sm_conv \<sigma>" "app_getCurrentKey (sm_conv \<sigma>) a \<noteq> None" "250 \<le> now - a_lastSendTime a"
    and "text_trim line = sm_text \<sigma> n" "sm_text \<sigma> n \<notin> {[], js_text ''/quit'', js_text ''/exit''}"
    and "recv_at P \<sigma> n (as_client b)" "sub (a_outOfOrderBuffer b) (sm_sender \<sigma>) = []"
  shows "\<exists>a' f. cli_onLine P now line a = Some (Done a') \<and>
    a_outbox a' = a_outbox a @ [UdpSend (a_serverHost a) (a_serverPort a) f] \<and> sender_at P \<sigma> (Suc n) (as_client a') \<and>
    a_shown (app_handleMessage P V clk f b) = a_shown b @ shown_for (sm_sender \<sigma>) (sm_text \<sigma> n) \<and>
    recv_at P \<sigma> (Suc n) (as_client (app_handleMessage P V clk f b))"
proof -
  let ?f = "sm_frame P \<sigma> (randomBytes P (a_draws a) 12) n"
  have first: "sm_first \<sigma> \<le> n" using assms(9) by (simp add: recv_at_def ready_at_def)
  obtain a' where a': "app_sendData P Cli now (sm_conv \<sigma>) (sm_text \<sigma> n) a = Done a'" "sender_at P \<sigma> (Suc n) (as_client a')"
    "a_outbox a' = a_outbox a @ wire_for Cli a ?f"
    using app_sendData_sends [OF assms(1,3) first assms(5,6), of Cli] by blast
  have f: "is_frame P \<sigma> n ?f" using assms(1) by (auto simp: is_frame_def stream_ok_def random_sized_def)
  obtain b' where b': "app_handleMessage P V clk ?f b = app_buffered_loop P V (sm_sender \<sigma>) (sm_seq (Suc n)) b'"
    "recv_at P \<sigma> (Suc n) (as_client b')" "a_shown b' = a_shown b @ shown_for (sm_sender \<sigma>) (sm_text \<sigma> n)"
    "a_outOfOrderBuffer b' = a_outOfOrderBuffer b"
    using app_takes_due [OF assms(1,2) f recv_at_due [OF assms(1,9)], of 0 V clk] by (auto simp: stamped_since_def)
  have "app_handleMessage P V clk ?f b = b'" using b'(1,4) assms(10) by (simp add: app_buffered_loop.simps)
  then show ?thesis
    using a' b' assms(4,7,8) by (intro exI [of _ a'] exI [of _ ?f]) (simp add: cli_onLine_def Let_def wire_for_def)
qed

theorem typed_line_is_shown_witness:
  "\<exists>a' f. cli_onLine demo 300 [32, 104] carol = Some (Done a') \<and>
    a_shown (app_handleMessage demo Electron (400, []) f dave) = a_shown dave @ shown_for 7 [104]"
proof -
  have "text_trim [32, 104] = [104]" by (simp add: text_trim_def js_blank_def)
  then show ?thesis
    using typed_line_is_shown [OF hello_ok _ carol_at _ _ _ _ _ dave_at, of 300 "[32, 104]" Electron "(400, [])"]
    by (auto simp: sm_idx_def js_text_def)
qed

section \<open>Gaps that are never filled\<close>

lemma dave_can_reset: "can_reset demo 5 7 dave"
  by (simp add: can_reset_def pairwiseKey_def demo_def)

text \<open>
  C13. A lost tail does not block the stream for ever. The receiver misses the messages \<open>n\<close> to
  \<open>N - 1\<close> and nobody can supply them; the sender's SYNC is seen once, handled within four seconds, and
  again more than four seconds after that. Then the receiver has written the messages off: it expects message \<open>N\<close>, against a dictionary
  that starts afresh there, which is what the Dict-Reset it sends makes of the sender. Nothing is
  shown for the lost messages.
\<close>

theorem overdue_tail_is_written_off:
  assumes "contracts P" "stream_ok P \<sigma>" "recv_at P \<sigma> n (as_client b)" "n < N" "N < n + 8388608"
    and "sub (a_outOfOrderBuffer b) (sm_sender \<sigma>) = []" "sub (a_nackTimestamps b) (sm_sender \<sigma>) = []"
    and "can_reset P (sm_conv \<sigma>) (sm_sender \<sigma>) b" "app_getCurrentKey (sm_conv \<sigma>) b = Some key"
    and "0 < t1" "\<forall>t \<in> readings clk1. t1 \<le> t \<and> t \<le> t1 + 4000"
      "\<forall>t \<in> readings clk1. \<forall>t' \<in> readings clk2. t + 4000 < t'" "length nonce1 = 12" "length nonce2 = 12"
  shows "recv_at P (sm_restart \<sigma> N) N (as_client (app_handleMessage P V clk2 (sync_for P \<sigma> N key nonce2 k2)
      (app_handleMessage P V clk1 (sync_for P \<sigma> N key nonce1 k1) b))) \<and>
    a_shown (app_handleMessage P V clk2 (sync_for P \<sigma> N key nonce2 k2)
      (app_handleMessage P V clk1 (sync_for P \<sigma> N key nonce1 k1) b)) = a_shown b"
  using two_syncs_write_off(2) [OF assms(1-10) _ assms(12-14)] assms(11) by (simp add: prompt_def)

theorem overdue_tail_is_written_off_witness:
  "recv_at demo (sm_restart hello_stream 3) 3 (as_client (app_handleMessage demo Cli (5102, [5103])
     (sync_for demo hello_stream 3 (replicate 32 3) (replicate 12 2) [])
     (app_handleMessage demo Cli (1001, [1002]) (sync_for demo hello_stream 3 (replicate 32 3) (replicate 12 1) []) dave)))"
  using overdue_tail_is_written_off [OF demo_acquainted(1) hello_ok dave_at, of 3 "replicate 32 3" 1001 "(1001, [1002])" "(5102, [5103])"
      "replicate 12 1" "replicate 12 2" Cli "[]" "[]"] dave_can_reset
  by (simp add: readings_def)

text \<open>
  C32. The packet that reveals an overdue gap is lost with it. A packet of message \<open>j\<close> arrives intact
  while every message between the last one processed and \<open>j\<close> has been missing for more than four
  seconds: it is put into the buffer, which giving up on the gap then empties. The receiver expects
  message \<open>j\<close>, has shown nothing and has no copy of it any more.
\<close>

theorem packet_after_overdue_gap_is_dropped:
  assumes "contracts P" "stream_ok P \<sigma>" "recv_at P \<sigma> n (as_client b)" "n < j" "j < n + 8388607"
    and "is_frame P \<sigma> j f" "sm_idx \<sigma> j < 4294967296" "can_reset P (sm_conv \<sigma>) (sm_sender \<sigma>) b"
    and "\<forall>k. n \<le> k \<and> k < j \<longrightarrow> overdue clk (sm_sender \<sigma>) b (sm_seq k) \<and>
      \<not> has (sub (a_outOfOrderBuffer b) (sm_sender \<sigma>)) (sm_seq k)"
  shows "recv_at P (sm_restart \<sigma> j) j (as_client (app_handleMessage P V clk f b)) \<and>
    sub (a_outOfOrderBuffer (app_handleMessage P V clk f b)) (sm_sender \<sigma>) = [] \<and>
    a_shown (app_handleMessage P V clk f b) = a_shown b"
  by (rule data_after_overdue_gap [OF assms])

theorem packet_after_overdue_gap_is_dropped_witness:
  "a_shown (app_handleMessage demo Cli (9000, []) (sm_frame demo hello_stream (replicate 12 1) 2)
     (dave\<lparr>a_nackTimestamps := [(7, [(1, 1000)])]\<rparr>)) = [] \<and>
   sub (a_outOfOrderBuffer (app_handleMessage demo Cli (9000, []) (sm_frame demo hello_stream (replicate 12 1) 2)
     (dave\<lparr>a_nackTimestamps := [(7, [(1, 1000)])]\<rparr>))) 7 = []"
proof -
  let ?b = "dave\<lparr>a_nackTimestamps := [(7, [(1, 1000)])]\<rparr>"
  have at: "recv_at demo hello_stream 1 (as_client ?b)"
    using dave_at by (simp add: recv_at_def ready_at_def app_getChain_def)
  have f: "is_frame demo hello_stream 2 (sm_frame demo hello_stream (replicate 12 1) 2)"
    by (auto simp: is_frame_def intro: exI [of _ "replicate 12 1"])
  have reset: "can_reset demo (sm_conv hello_stream) (sm_sender hello_stream) ?b"
    using dave_can_reset by (simp add: can_reset_def app_getCurrentKey_def)
  have late: "\<forall>k. 1 \<le> k \<and> k < 2 \<longrightarrow> overdue (9000, []) (sm_sender hello_stream) ?b (sm_seq k) \<and>
      \<not> has (sub (a_outOfOrderBuffer ?b) (sm_sender hello_stream)) (sm_seq k)"
    by (auto simp: overdue_def sm_seq_def sub_def less_2_cases_iff has_def)
  show ?thesis
    using packet_after_overdue_gap_is_dropped [OF demo_acquainted(1) hello_ok at _ _ f _ reset late, of Cli]
    by (simp add: sm_idx_def)
qed

text \<open>
  C35. The clock of a gap is reset by traffic. Accepting any message of a sender prunes the time
  stamps of its missing sequence numbers, and with them the stamp of every number ahead of the
  newest one: the four seconds start again.
\<close>

theorem open_gap_forgets_its_age:
  assumes "map_of (a_highestReceivedSeq a) i = Some h" "h < SEQ_MOD" "0 < d" "d + 216 < SEQ_MOD"
  shows "map_of (sub (a_nackTimestamps (app_pruneReceived i a)) i) ((h + d) mod SEQ_MOD) = None"
proof -
  let ?k = "seqAdd h d"
  have d: "seqDelta h ?k = d" using assms(4) by (intro seqDelta_seqAdd) (simp add: SEQ_MOD_val)
  then have "?k \<noteq> h" using assms(2,3) by (auto simp: SEQ_MOD_val)
  then have "seqDelta ?k h = 16777216 - d"
    using seqDelta_swap [of ?k h] d assms(2) by (simp add: SEQ_MOD_val)
  then have far: "216 < seqDelta ?k h" using assms(4) by (simp add: SEQ_MOD_val)
  have "map_of (filter (\<lambda>(k, v). seqDelta k h \<le> 216) m) ?k = None" for m :: "(nat, nat) jsmap"
    using far by (subst map_of_filter_key) simp
  moreover have "(h + d) mod SEQ_MOD = ?k" by (simp add: seqAdd_mod SEQ_MOD_val)
  ultimately show ?thesis
    using assms(1) by (auto simp: app_pruneReceived_def Let_def gc.gc_filter DICT_WINDOW_def sub_def split: option.splits)
qed

theorem open_gap_forgets_its_age_witness:
  "map_of (sub (a_nackTimestamps (app_pruneReceived 7 (dave\<lparr>a_highestReceivedSeq := [(7, 4)], a_nackTimestamps := [(7, [(6, 1000)])]\<rparr>))) 7)
     ((4 + 2) mod SEQ_MOD) = None"
  by (rule open_gap_forgets_its_age) (simp_all add: SEQ_MOD_val)

lemma seqAdd_seqNext: "seqAdd (seqNext h) j = seqAdd h (Suc j)"
  by (simp add: seqAdd_mod seqNext_mod mod_simps)

lemma drain_loop_shape:
  "\<exists>k \<le> length (sub (a_outOfOrderBuffer a) i).
    sub (a_outOfOrderBuffer (app_buffered_loop P V i (seqNext h) a)) i
      = filter (\<lambda>(s, f). s \<notin> seqAdd h ` {1..k}) (sub (a_outOfOrderBuffer a) i) \<and>
    (\<forall>j \<in> {1..k}. has (sub (a_outOfOrderBuffer a) i) (seqAdd h j)) \<and>
    \<not> has (sub (a_outOfOrderBuffer (app_buffered_loop P V i (seqNext h) a)) i) (seqAdd h (Suc k))"
proof (induction "length (sub (a_outOfOrderBuffer a) i)" arbitrary: h a rule: less_induct)
  case less
  let ?b = "sub (a_outOfOrderBuffer a) i"
  have one: "seqNext h = seqAdd h 1" by (simp add: seqNext_as_add)
  show ?case
  proof (cases "map_of ?b (seqNext h)")
    case None
    then have "app_buffered_loop P V i (seqNext h) a = a" by (simp add: app_buffered_loop.simps)
    then show ?thesis using None by (intro exI [of _ 0]) (simp add: has_def one)
  next
    case (Some raw)
    let ?m = "AList.delete (seqNext h) ?b"
    let ?a = "app_processBuffered P V raw i (seqNext h) (a\<lparr>a_outOfOrderBuffer := AList.update i ?m (a_outOfOrderBuffer a)\<rparr>)"
    have m: "sub (a_outOfOrderBuffer ?a) i = ?m" by simp
    have run: "app_buffered_loop P V i (seqNext h) a = app_buffered_loop P V i (seqNext (seqNext h)) ?a"
      using Some by (subst app_buffered_loop.simps) simp
    have short: "length ?m < length ?b" using Some by (intro length_delete_less) (simp add: has_def)
    obtain k where k: "k \<le> length ?m"
      "sub (a_outOfOrderBuffer (app_buffered_loop P V i (seqNext (seqNext h)) ?a)) i = filter (\<lambda>(s, f). s \<notin> seqAdd (seqNext h) ` {1..k}) ?m"
      "\<forall>j \<in> {1..k}. has ?m (seqAdd (seqNext h) j)"
      "\<not> has (sub (a_outOfOrderBuffer (app_buffered_loop P V i (seqNext (seqNext h)) ?a)) i) (seqAdd (seqNext h) (Suc k))"
      using less.hyps [of ?a "seqNext h"] short unfolding m by auto
    have img: "seqAdd h ` {1..Suc k} = insert (seqNext h) (seqAdd (seqNext h) ` {1..k})"
    proof -
      have "{1..Suc k} = insert 1 (Suc ` {1..k})" by (auto simp: image_Suc_atLeastAtMost)
      then have "seqAdd h ` {1..Suc k} = insert (seqAdd h 1) ((\<lambda>j. seqAdd h (Suc j)) ` {1..k})"
        by (simp only: image_insert image_image)
      then show ?thesis unfolding seqAdd_seqNext [symmetric] one [symmetric] .
    qed
    have "filter (\<lambda>(s, f). s \<notin> seqAdd (seqNext h) ` {1..k}) ?m = filter (\<lambda>(s, f). s \<notin> seqAdd h ` {1..Suc k}) ?b"
      unfolding img by (auto simp: AList.delete_eq intro: filter_cong)
    moreover have "has ?b (seqAdd h j)" if "j \<in> {1..Suc k}" for j
    proof (cases j)
      case (Suc j')
      then show ?thesis
        using that k(3) [unfolded seqAdd_seqNext, rule_format, of j'] Some one
        by (cases "j' = 0") (auto simp: has_def split: if_splits)
    qed (use that in simp)
    ultimately show ?thesis
      unfolding run using k(1,2,4) short by (intro exI [of _ "Suc k"]) (simp add: seqAdd_seqNext)
  qed
qed

text \<open>
  C21. The drain loop ends. It runs at most as often as there are packets buffered for the sender,
  takes out exactly the packets that follow the newest message without a gap, and stops at the first
  sequence number that is not there.
\<close>

theorem drain_loop_ends_at_first_gap:
  assumes "map_of (a_highestReceivedSeq a) i = Some h"
  shows "\<exists>k \<le> length (sub (a_outOfOrderBuffer a) i).
    sub (a_outOfOrderBuffer (app_processBufferedPackets P V i a)) i
      = filter (\<lambda>(s, f). s \<notin> seqAdd h ` {1..k}) (sub (a_outOfOrderBuffer a) i) \<and>
    (\<forall>j \<in> {1..k}. has (sub (a_outOfOrderBuffer a) i) (seqAdd h j)) \<and>
    \<not> has (sub (a_outOfOrderBuffer (app_processBufferedPackets P V i a)) i) (seqAdd h (Suc k))"
  using drain_loop_shape [of a i P V h] assms by (simp add: app_processBufferedPackets_def)

theorem drain_loop_ends_at_first_gap_witness:
  "\<exists>k \<le> length (sub (a_outOfOrderBuffer (dave\<lparr>a_outOfOrderBuffer := [(7, [(1, []), (2, []), (4, [])])]\<rparr>)) 7).
    sub (a_outOfOrderBuffer (app_processBufferedPackets demo Cli 7 (dave\<lparr>a_outOfOrderBuffer := [(7, [(1, []), (2, []), (4, [])])]\<rparr>))) 7
      = filter (\<lambda>(s, f). s \<notin> seqAdd 0 ` {1..k}) (sub (a_outOfOrderBuffer (dave\<lparr>a_outOfOrderBuffer := [(7, [(1, []), (2, []), (4, [])])]\<rparr>)) 7)"
  using drain_loop_ends_at_first_gap [of "dave\<lparr>a_outOfOrderBuffer := [(7, [(1, []), (2, []), (4, [])])]\<rparr>" 7 0 demo Cli] by auto

section \<open>Sending\<close>

lemma send_step:
  "(now - a_lastSendTime a < 250 \<and> app_sendData P V now convId payload a = Done a) \<or>
   (250 \<le> now - a_lastSendTime a \<and> a_lastSendTime (state_of (app_sendData P V now convId payload a)) = now \<and>
    length (a_outbox (state_of (app_sendData P V now convId payload a))) \<le> Suc (length (a_outbox a)))"
proof -
  have sent: "a_lastSendTime (syncProbe i (clearSyncTimers (app_broadcast V b c))) = a_lastSendTime c"
    "length (a_outbox (syncProbe i (clearSyncTimers (app_broadcast V b c)))) \<le> Suc (length (a_outbox c))" for i b c
    using app_coreD(5) [OF sync_timers_keep(1)] app_coreD(5) [OF sync_timers_keep(2)] app_coreD(5) [OF app_core_broadcast]
    by (simp_all add: sync_timers_keep broadcast_outbox wire_for_def split: variant.splits option.splits)
  have prune: "a_lastSendTime (app_pruneSent c) = a_lastSendTime c" "a_outbox (app_pruneSent c) = a_outbox c"
    "a_outbox (app_setChain i e s st c) = a_outbox c" "a_lastSendTime (app_setChain i e s st c) = a_lastSendTime c" for c i e s st
    by (simp_all add: app_pruneSent_run app_setChain_def)
  show ?thesis
    using sent(2) by (auto simp: app_sendData_def Let_def app_random_def eval_in_def case_prod_unfold prune sent(1)
        split: option.splits sum.splits intro: le_SucI order_trans [OF sent(2)])
qed

text \<open>
  The times at which packets leave while \<^verbatim>\<open>sendData\<close> is called at given times, once for each packet.
\<close>

fun departures :: "prims \<Rightarrow> variant \<Rightarrow> (nat \<times> nat \<times> jsstring) list \<Rightarrow> App \<Rightarrow> nat list" where
  "departures P V [] a = []"
| "departures P V ((now, convId, payload) # calls) a =
     (let a' = state_of (app_sendData P V now convId payload a)
      in replicate (length (a_outbox a') - length (a_outbox a)) now @ departures P V calls a')"

text \<open>
  C22. The rate limit of the interactive clients. Whatever texts are handed to \<^verbatim>\<open>sendData\<close>, for whatever
  rooms and at whatever times, any two packets that leave are at least 250 ms apart, and the first
  leaves at least 250 ms after the last message accepted before.
\<close>

theorem sending_rate_bounded:
  "sorted_wrt (\<lambda>s t. s + 250 \<le> t) (a_lastSendTime a # departures P V calls a)"
proof (induction calls arbitrary: a)
  case (Cons call calls)
  obtain now convId payload where call: "call = (now, convId, payload)" by (cases call)
  let ?a = "state_of (app_sendData P V now convId payload a)"
  from send_step [of now a P V convId payload] show ?case
  proof
    assume "now - a_lastSendTime a < 250 \<and> app_sendData P V now convId payload a = Done a"
    then show ?thesis using Cons.IH [of a] by (simp add: call)
  next
    assume pass: "250 \<le> now - a_lastSendTime a \<and> a_lastSendTime ?a = now \<and> length (a_outbox ?a) \<le> Suc (length (a_outbox a))"
    then have "\<exists>n \<le> 1. length (a_outbox ?a) - length (a_outbox a) = n" by auto
    then show ?thesis using Cons.IH [of ?a] pass by (auto simp: call Let_def le_Suc_eq)
  qed
qed simp

lemma flush_drops:
  assumes "\<forall>t \<in> readings clk. t - a_lastSendTime a < 250"
  shows "flush_loop P V clk i a = Done a"
  using assms
proof (induction "length (a_pendingQueue a) - i" arbitrary: i clk)
  case (Suc n)
  have "app_sendData P V (clock_now clk) convId payload a = Done a" for convId payload
    using Suc.prems by (simp add: app_sendData_def)
  moreover have "flush_loop P V (clock_tick clk) (Suc i) a = Done a"
    using Suc.hyps(2) Suc.prems readings_tick [of clk] by (intro Suc.hyps(1)) auto
  ultimately show ?case by (subst flush_loop.simps) simp
qed (simp add: flush_loop.simps)

text \<open>
  C33. The messages queued during the key exchange are lost. When the first key is adopted the client
  greets the room and then hands the queue to \<^verbatim>\<open>sendData\<close>. If the event is over within 250 ms of the
  last message the rate limit let through, which is the greeting unless it was refused itself, every
  queued message is dropped: nothing but the greeting is sent, and the queue is emptied.
\<close>

theorem queued_messages_are_lost:
  assumes "\<forall>t \<in> readings clk. t - (if 250 \<le> clock_now clk - a_lastSendTime a then clock_now clk else a_lastSendTime a) < 250"
  shows "app_greet P V clk convId a =
    and_then (app_sendData P V (clock_now clk) convId (joined_text V (a_senderId a)) a) (\<lambda>b. Done (b\<lparr>a_pendingQueue := []\<rparr>))"
proof (cases "app_sendData P V (clock_now clk) convId (joined_text V (a_senderId a)) a")
  case (Done b)
  then have "a_lastSendTime b = (if 250 \<le> clock_now clk - a_lastSendTime a then clock_now clk else a_lastSendTime a)"
    using send_clock [of P V "clock_now clk" convId "joined_text V (a_senderId a)" a] by auto
  then have "\<forall>t \<in> readings (clock_tick clk). t - a_lastSendTime b < 250"
    using assms readings_tick [of clk] by auto
  then show ?thesis by (simp add: app_greet_def Done flush_drops)
qed (simp add: app_greet_def)

theorem queued_messages_are_lost_witness:
  "a_outbox (state_of (app_greet demo Cli (300, [310, 549]) 5 (carol\<lparr>a_pendingQueue := [(5, [104]), (5, [105])]\<rparr>)))
    = a_outbox (state_of (app_sendData demo Cli 300 5 (joined_text Cli 7) (carol\<lparr>a_pendingQueue := [(5, [104]), (5, [105])]\<rparr>)))"
proof -
  let ?a = "carol\<lparr>a_pendingQueue := [(5, [104]), (5, [105])]\<rparr>"
  have "\<forall>t \<in> readings (300, [310, 549]).
      t - (if 250 \<le> clock_now (300, [310, 549]) - a_lastSendTime ?a then clock_now (300, [310, 549]) else a_lastSendTime ?a) < 250"
    by (simp add: readings_def clock_now_def)
  from queued_messages_are_lost [OF this, of demo Cli 5] show ?thesis
    by (cases "app_sendData demo Cli 300 5 (joined_text Cli 7) ?a") (simp_all add: clock_now_def)
qed

section \<open>Reconnecting\<close>

text \<open>
  C34. A browser client that reconnects is not heard. \<^verbatim>\<open>connect\<close> starts the sequence numbers at 1
  again under the same sender id, while its peers remember the highest one they have seen: the first
  message after the reconnection goes out, and every interactive client that has processed a message
  of it before, with a highest number in the lower half of the sequence space, discards the packet as
  already seen, without even asking for anything.
\<close>

theorem reconnected_client_is_not_heard:
  assumes P: "digests_sized P" "gcm_correct P" "deflate_lossless P" "random_sized P"
    and ids: "convId < 65536" "a_senderId a < 65536" "epoch < 65536" "wf_utf16 txt"
    and a: "or_default (map_of (a_currentEpochs a) convId) 1 = epoch" "app_getCurrentKey convId a \<noteq> None"
      "app_getChain convId epoch (a_senderId a) a = Some s" "on_chain P seed s" "cs_index s < 4294967296"
      "250 \<le> now - a_lastSendTime a"
    and b: "map_of (a_highestReceivedSeq b) (a_senderId a) = Some h" "0 < h" "h < 8388608"
  shows "\<exists>a' f. web_sendData P now convId txt ((web_connect ecdh sock a)\<lparr>a_wsOpen := True\<rparr>) = Done a' \<and>
    a_outbox a' = a_outbox a @ [WsSend sock f] \<and> app_handleMessage P V clk f b = b"
proof -
  let ?a = "(web_connect ecdh sock a)\<lparr>a_wsOpen := True\<rparr>"
  define \<sigma> where "\<sigma> = \<lparr>sm_conv = convId, sm_sender = a_senderId a, sm_epoch = epoch, sm_seed = seed, sm_first = 1,
    sm_idx0 = cs_index s, sm_text = (\<lambda>n. if n = 1 then txt else [])\<rparr>"
  have f: "sm_conv \<sigma> = convId" "sm_sender \<sigma> = a_senderId a" "sm_epoch \<sigma> = epoch" "sm_first \<sigma> = 1" "sm_seed \<sigma> = seed"
    "sm_idx0 \<sigma> = cs_index s" "sm_text \<sigma> 1 = txt"
    by (simp_all add: \<sigma>_def)
  have ok: "stream_ok P \<sigma>" using P ids by (simp add: stream_ok_def \<sigma>_def)
  have conn: "a_senderId ?a = a_senderId a" "a_nextSeq ?a = 1" "a_sentMessages ?a = []" "a_currentEpochs ?a = a_currentEpochs a"
    "app_getChain convId epoch (a_senderId a) ?a = Some s" "app_getCurrentKey convId ?a = app_getCurrentKey convId a"
    "a_lastSendTime ?a = a_lastSendTime a" "a_outbox ?a = a_outbox a" "a_ws ?a = Some sock" "a_wsOpen ?a"
    using a(3) by (simp_all add: web_connect_def app_restart_def app_getChain_def app_getCurrentKey_def)
  have sender: "sender_at P \<sigma> 1 (as_client ?a)"
    using conn a(1,4) by (simp add: sender_at_def f sm_seq_def sm_idx_def sm_hist_def)
  let ?f = "sm_frame P \<sigma> (randomBytes P (a_draws ?a) 12) 1"
  obtain a' where a': "app_sendData P Web now convId txt ?a = Done a'" "a_outbox a' = a_outbox ?a @ wire_for Web ?a ?f"
    using app_sendData_sends [OF ok sender, of now Web] a(2,6) conn(6,7) f by auto
  have frame: "is_frame P \<sigma> 1 ?f" using P(4) by (auto simp: is_frame_def random_sized_def)
  have old: "\<not> seq_newer h 1" using b(2,3) sm_seq_newer [of 1 h] by (simp add: sm_seq_def)
  have idx: "sm_idx \<sigma> 1 < 4294967296" using a(5) f by (simp add: sm_idx_def)
  have "sm_seq 1 = 1" by (simp add: sm_seq_def)
  then have "app_handleMessage P V clk ?f b = b"
    using app_ignores_old [OF sm_frame_reads(1-5) [OF ok idx frame], of b h P V clk] b(1) old f(2) by simp
  moreover have "a_outbox a' = a_outbox a @ [WsSend sock ?f]"
    using a'(2) conn(8-10) by (simp add: wire_for_def)
  ultimately show ?thesis using a'(1) by (auto simp: web_sendData_def)
qed

theorem reconnected_client_is_not_heard_witness:
  "\<exists>a' f. web_sendData demo 300 5 [104] ((web_connect [8] 1 carol)\<lparr>a_wsOpen := True\<rparr>) = Done a' \<and>
    a_outbox a' = a_outbox carol @ [WsSend 1 f] \<and>
    app_handleMessage demo Cli (400, []) f (dave\<lparr>a_highestReceivedSeq := [(7, 3)]\<rparr>) = dave\<lparr>a_highestReceivedSeq := [(7, 3)]\<rparr>"
  by (rule reconnected_client_is_not_heard [OF demo_contracts(1,2,5,6), where epoch = 1 and seed = "replicate 32 6"
        and s = "\<lparr>cs_key = replicate 32 6, cs_index = 0\<rparr>" and h = 3])
    (simp_all add: on_chain_def is_high_def is_low_def)

section \<open>State\<close>

text \<open>
  C20. Chain shares, NACKs, ACKs and Dict-Resets change the state of an interactive client (sequence
  numbers, histories, chains, keys, acknowledgements) exactly as they change that of a client of
  \<^verbatim>\<open>client.ts\<close> in the same state.
\<close>

theorem control_packets_like_library_client:
  assumes "readUInt8 buf 0 = Inr kind" "kind \<in> {TYPE_CHAIN_SHARE, TYPE_NACK, TYPE_ACK, 0x06}"
  shows "client_core (as_client (app_handleMessage P V clk buf a)) = client_core (client_handleMessage P buf (as_client a))"
  using assms app_coreD(1) [OF app_core_nack, of P V buf a]
  by (auto simp: app_handleMessage_def client_handleMessage_def app_try_def client_try_def TYPE_defs
      app_chain_share app_ack app_dict_reset core_onNack)

theorem control_packets_like_library_client_witness:
  "client_core (as_client (app_handleMessage demo Web (0, []) [0x06, 1] dave)) = client_core (client_handleMessage demo [0x06, 1] (as_client dave))"
  by (rule control_packets_like_library_client [where kind = 6]) (simp_all add: readUIntBE_def unbe_def)

text \<open>
  C19. In every state an interactive client can reach, by packets, typing, timers, joining and
  reconnecting, all its sequence numbers have 24 bits: the next and the last one sent and the newest
  one of each sender. Each history, its own and each sender's, holds at most 217 messages under
  pairwise different numbers, each filed under the number and the sender it carries; so is every
  packet that waits in a buffer.
\<close>

theorem interactive_state_well_formed:
  assumes "app_started V a" "(app_step P V)\<^sup>*\<^sup>* a b"
  shows "a_nextSeq b < SEQ_MOD \<and> a_highestSentSeq b < SEQ_MOD \<and>
    (\<forall>h. map_of (a_highestReceivedSeq b) i = Some h \<longrightarrow> h < SEQ_MOD) \<and>
    filed (a_senderId b) (a_sentMessages b) \<and> filed i (sub (a_receivedMessages b) i) \<and>
    distinct (map fst (sub (a_outOfOrderBuffer b) i)) \<and>
    (\<forall>(k, f) \<in> set (sub (a_outOfOrderBuffer b) i). readUIntBE f 3 3 = Inr k \<and> readUInt16BE f 7 = Inr i)"
proof -
  have inv: "client_inv (as_client b)" using apps.inv_reach [OF assms] by (simp add: app_inv_def)
  have "msgs_ok (a_senderId b) (a_sentMessages b)" "msgs_ok i (sub (a_receivedMessages b) i)" "buffer_ok i (sub (a_outOfOrderBuffer b) i)"
    using client_invD(3) [OF inv] client_invD(4,5) [OF inv, of i] by simp_all
  then show ?thesis
    using client_invD(1,2) [OF inv] client_invD(6) [OF inv, of i]
    by (auto simp: msgs_ok_filed buffer_ok_def seq_keys_def is_map_def SEQ_MOD_val)
qed

theorem interactive_state_well_formed_witness:
  "filed 7 (a_sentMessages (state_of (app_sendData demo Web 300 5 [104] (new_web 7 [7] 1 300))))"
proof -
  let ?a = "new_web 7 [7] 1 300" and ?b = "state_of (app_sendData demo Web 300 5 [104] (new_web 7 [7] 1 300))"
  have "app_started Web ?a" by (auto simp: app_started_def)
  moreover have "(app_step demo Web)\<^sup>*\<^sup>* ?a ?b"
    by (rule r_into_rtranclp) (rule ap_send)
  ultimately have "filed (a_senderId ?b) (a_sentMessages ?b)" using interactive_state_well_formed by blast
  moreover have "a_senderId ?b = 7"
    by (simp add: app_sendData_def new_web_def web_connect_def app_restart_def blank_app_def app_getCurrentKey_def get2_def sub_def)
  ultimately show ?thesis by simp
qed

end
