(* ===== verification/Spec2Isabelle.thy ===== *)
theory Spec2Isabelle
  imports Dart_Core_Props Dart_Server_Props Dart_Client_Props Dart_App_Props Dart_Recovery
begin

text \<open>
  \<^bold>\<open>The DART protocol: a verification development of its TypeScript implementation.\<close>

  DART is a chat protocol over UDP (with TCP and WebSocket as other transports). Members of a
  conversation encrypt their messages end to end under per-sender ratchet chains; a relay server that
  never holds a key keeps the roster, fans packets out and repairs losses from a cache. The
  implementation modelled here is \<^verbatim>\<open>src/core.ts\<close> (wire format, sequence numbers, ratchet, control-frame
  authentication), \<^verbatim>\<open>src/server.ts\<close> (class \<^verbatim>\<open>DartGroupServer\<close>), \<^verbatim>\<open>src/client.ts\<close> (class
  \<^verbatim>\<open>DartClient\<close>, the client as a library) and the three programs a user runs: \<^verbatim>\<open>src/cli.ts\<close> (terminal),
  \<^verbatim>\<open>src/web-app.ts\<close> (browser) and \<^verbatim>\<open>src/electron-gui.ts\<close> (desktop). Each of the three carries its own copy of
  the client class, with a display, a limit on the rate of sending and a rule for giving lost packets up.

  \<^bold>\<open>How the parts interact.\<close> A client joins with KEY_REQ; the server records its public key and
  announces the roster to every member (MEMBER_INFO, sealed under the pairwise key of server and
  member). The creator of a conversation draws the group key and shares it (KEY_SHARE); every member
  draws a ratchet chain per epoch and shares it (CHAIN_SHARE). Data packets are compressed against a
  dictionary built from the sender's last 200 messages, sealed under the next key of the sender's
  chain, fanned out and cached by the server. A receiver processes a sender's packets strictly in
  order; a gap is buffered and answered with a NACK, which the server serves from its cache and passes
  on to the sender. A sender that falls silent announces its highest sequence number (SYNC), so that
  a lost tail is noticed too. The interactive clients do the same, but show each text as it is processed,
  and write a packet off once it has been missing for four seconds: they move past it, empty the
  buffer and send a dictionary reset.

  \<^bold>\<open>The theories, in dependency order.\<close>

  \<^descr> \<^verbatim>\<open>Dart_Prelude\<close>: exceptions as values (\<open>exn + 'a\<close>), statements that may throw half-way
    (\<open>'s outcome\<close>: \<open>Done\<close> or \<open>Raised\<close> with the state reached), JavaScript's 32-bit \<^verbatim>\<open>&\<close> and \<^verbatim>\<open>>>> 0\<close>, and
    \<^verbatim>\<open>Map\<close> as an association list in insertion order.
  \<^descr> \<^verbatim>\<open>Dart_Bytes\<close>: Node's \<^verbatim>\<open>Buffer\<close> (bytes are 8-bit words): bounds-checked big-endian reads and writes,
    \<^verbatim>\<open>copy\<close>, \<^verbatim>\<open>subarray\<close>; and the layout library that turns a header built by writes into a concatenation.
  \<^descr> \<^verbatim>\<open>Dart_Seq\<close>: \<^verbatim>\<open>seqDelta\<close>, \<^verbatim>\<open>seqNext\<close> and the order of 24-bit sequence numbers.
  \<^descr> \<^verbatim>\<open>Dart_Crypto\<close>: the primitives of \<^verbatim>\<open>crypto\<close> and \<^verbatim>\<open>pako\<close> as a record \<open>prims\<close> of functions, the parameter of
    everything that uses them; what the code relies on is stated as named hypotheses (\<open>digests_sized\<close>,
    \<open>gcm_correct\<close>, \<open>gcm_authentic\<close>, \<open>ecdh_agrees\<close>, \<open>deflate_lossless\<close>, \<open>random_sized\<close>), all of which hold of the concrete
    instance \<open>demo\<close> used by the witnesses. Then \<^verbatim>\<open>safeEqual\<close>, \<^verbatim>\<open>pairwiseKey\<close> and the signing of control frames.
  \<^descr> \<^verbatim>\<open>Dart_Utf8\<close>, \<^verbatim>\<open>Dart_Ratchet\<close>: strings as UTF-16 code units with their UTF-8 encoding; \<^verbatim>\<open>advanceChain\<close> and the
    chain as iterated \<^verbatim>\<open>chainNextKey\<close>.
  \<^descr> \<^verbatim>\<open>Dart_Codec\<close>, \<^verbatim>\<open>Dart_Codec_Laws\<close>: class \<^verbatim>\<open>Codec\<close>, one definition per method; the locale \<open>frame_codec\<close>
    (an encoder, a decoder, what the decoder recovers) is interpreted for each of the nine packet types.
  \<^descr> \<^verbatim>\<open>Dart_Framing\<close>: the 2-byte length framing of the TCP transport; the locale \<open>framing\<close> gives the
    independence of how the stream is cut into chunks. \<^verbatim>\<open>Dart_Window\<close>: the sliding-window garbage collection of
    both components (locale \<open>window\<close>) and the compression dictionary.
  \<^descr> \<^verbatim>\<open>Dart_Server\<close>: the record \<open>Server\<close> has the fields of \<^verbatim>\<open>DartGroupServer\<close> under their names, plus what was
    sent (\<open>outbox\<close>), the number of random draws and the state of the web sockets. One definition per method
    and per branch of \<^verbatim>\<open>handleMessage\<close>; \<open>onUdpMessage\<close>, \<open>onTcpData\<close>, \<open>onWsMessage\<close> are the transport callbacks.
    \<^verbatim>\<open>Dart_Server_Inv\<close>: the step relation \<open>server_step\<close>, the invariant \<open>server_inv\<close> and its preservation by every
    operation (locale \<open>machine\<close>). \<^verbatim>\<open>Dart_Relay\<close>: what each branch sends.
  \<^descr> \<^verbatim>\<open>Dart_Client\<close>: the record \<open>Client\<close> has the fields of \<^verbatim>\<open>DartClient\<close> with the prefix \<open>c_\<close>, plus the pending
    timers; a \<^verbatim>\<open>setTimeout\<close> closure is a value of the datatype \<open>task\<close>, \<open>run_task\<close> runs it and \<open>fire\<close> lets the
    event loop choose one. \<^verbatim>\<open>Dart_Client_Inv\<close>: the step relation \<open>client_step\<close> and the invariant \<open>client_inv\<close>.
    \<^verbatim>\<open>Dart_Pinning\<close>: what a client trusts (fingerprint, rosters, server keys) and the invariant \<open>pinned\<close> of a client that
    was given its server's fingerprint.
  \<^descr> \<^verbatim>\<open>Dart_Stream\<close>: the reference for a sender's stream. \<open>stream\<close> numbers messages by an unbounded counter; \<open>sender_at\<close>,
    \<open>recv_at\<close>, \<open>buf_at\<close> relate a client's 24-bit state to it, and the lemmas show that \<^verbatim>\<open>sendData\<close>, the opening of a
    frame and retransmission simulate it. \<^verbatim>\<open>Dart_Receive\<close>: the locale \<open>stream_receiver\<close>, the contract of a receive path
    (what one packet in order, ahead or behind does) and the consequences proved once from it: the buffer drains to the
    first gap, and a reordering with duplicates is delivered. It is interpreted for the library client (\<open>lib\<close>) here and for
    the interactive clients (\<open>ui\<close>) in \<^verbatim>\<open>Dart_App_Stream\<close>.
  \<^descr> \<^verbatim>\<open>Dart_Exchange\<close>: two clients and the server together (key and
    chain hand-over, roster announcements, sharing never throws on usable rosters). \<^verbatim>\<open>Dart_Recovery\<close>: SYNC, NACK and
    cache repair across client, server and client.
  \<^descr> \<^verbatim>\<open>Dart_App\<close>: the client class that \<^verbatim>\<open>cli.ts\<close>, \<^verbatim>\<open>web-app.ts\<close> and \<^verbatim>\<open>electron-gui.ts\<close> share; the datatype \<open>variant\<close> names the
    program and is branched on wherever the three copies differ (transport, counters, what is displayed). The record \<open>App\<close> has
    their fields with the prefix \<open>a_\<close>, the lines shown, the pending timers and the state of the socket. \<^verbatim>\<open>Date.now()\<close> is
    an argument: the value \<open>now\<close> for \<^verbatim>\<open>sendData\<close>, which reads it once; for events that may read it more often a
    \<open>clock\<close>, the list of the values successive readings give. \<^verbatim>\<open>Dart_Cli\<close>, \<^verbatim>\<open>Dart_Web\<close>, \<^verbatim>\<open>Dart_Electron\<close>: the entry points of each program
    (joining, the transport's callbacks, what the user types or clicks).
  \<^descr> \<^verbatim>\<open>Dart_App_Stream\<close>: a part of an \<open>App\<close> is a \<open>Client\<close> (\<open>as_client\<close>), so the stream reference is reused; the locale \<open>transport\<close>
    says what a broadcast may change and is interpreted for the three transports. \<^verbatim>\<open>Dart_App_Gaps\<close>: the
    bookkeeping of missing packets and what giving up does. \<^verbatim>\<open>Dart_App_Inv\<close>: the step relation \<open>app_step\<close>, the invariant
    \<open>app_inv\<close> (a second interpretation of \<open>machine\<close>) and the agreement of the control packets with the library client.
  \<^descr> \<^verbatim>\<open>Dart_Core_Props\<close>, \<^verbatim>\<open>Dart_Server_Props\<close>, \<^verbatim>\<open>Dart_Client_Props\<close>, \<^verbatim>\<open>Dart_App_Props\<close> and this theory: the properties, those
    with hypotheses with a witness on concrete data.

  \<^bold>\<open>What is shown.\<close> Every packet type decodes to what was encoded, and a data packet that opens is
  byte for byte one that the holder of the message key sealed. In every reachable state the relay's
  creator is a member and its cache is bounded and filed under the right numbers; data reaches every
  other peer unchanged; NACKs are answered from the cache; SYNC and Dict-Reset pass only if signed; a pinned
  client never takes a roster from another server. A
  receiver handed a sender's packets in any order, with duplicates and retransmissions, ends with the
  sender's history, across a wrap of the sequence space; conversations deliver their texts; group
  keys, chains and rosters arrive as sent; rotation returns and leaves no key older than four epochs.
  This theory composes the components: a message through the relay, the roster, and the recovery of
  a lost tail. For the interactive clients: a line typed at one is shown at the other, texts are shown in
  the order of sending whatever the order of arrival, the drain loop ends at the first gap, a tail that
  stays lost for four seconds is written off with a dictionary reset, control packets act as
  on the library client, any two packets of \<^verbatim>\<open>sendData\<close> leave at least 250 ms apart, and the state stays well formed in every
  reachable state. Some properties record where the code falls short of its comments: the rate limiter
  that never drops, the retransmission that uses another dictionary, the NACK timer that ignores a
  lost tail, the unchecked public key that makes a departure throw; and in the interactive clients
  the packet dropped by the very arrival that writes a gap off, the gap that forgets its age,
  the messages queued before the first key that the rate limit drops, and the reconnected client that
  nobody hears.

  \<^bold>\<open>Bounds.\<close> Sequence numbers are naturals below 2^24 with the masking written out; fields too wide for
  their place raise \<open>RangeError\<close> as in Node. The reader loop of the framing and the drain loop of the
  buffer are total functions with a measure (length of the buffer, size of the map), \<open>advance_loop\<close>
  recurses on the distance to the target index; the loop that flushes the queue of unsent messages ends because an
  event sees finitely many clock values and a standing clock lets at most one message through; there is no
  fuel anywhere. Stream lemmas ask the
  chain index to stay below 2^32, the width of its field, and reorderings to span less than half the
  sequence space, the limit of the modular comparison.

  \<^bold>\<open>What is not modelled.\<close> Sockets, files and the console (an operation's output is a list of
  \<open>wire_out\<close> values; loading the server's key file is the argument of \<open>init_server\<close>); real time (timers carry their delay,
  but \<open>fire\<close> may run any pending one; the values a clock shows are arbitrary); the static web page. Of the
  interactive programs the DOM, the prompt of \<^verbatim>\<open>readline\<close>, colours and the text of notices are left out: the
  lines shown are the payloads of data packets, and leaving the program is the value \<open>None\<close>. The
  end-to-end benchmark, the micro-benchmarks, the test script and the demo only drive these classes; the Go and
  Rust implementations are other programs. None of them is part of the model.
\<close>

section \<open>States for the witnesses\<close>

definition relay :: Server where
  "relay = (init_server [1] (\<lambda>w. False))
     \<lparr>groups := [(5, [udp_peer 0 ''ha'' 3, udp_peer 0 ''hb'' 2])],
      peerIdentity := [(endpoint ''udp'' ''ha'' 3, 7), (endpoint ''udp'' ''hb'' 2, 9)],
      clientMap := [(5, [(7, udp_peer 0 ''ha'' 3), (9, udp_peer 0 ''hb'' 2)])],
      members := [(5, [(7, ecdhPublic demo [7]), (9, ecdhPublic demo [9])])], creator := [(5, 7)],
      messageCache := [(5, [(7, [(1, sm_frame demo hello_stream (replicate 12 1) 1)])])]\<rparr>"

lemma relay_simps [simp]:
  "closed relay = False" "groups relay = [(5, [udp_peer 0 ''ha'' 3, udp_peer 0 ''hb'' 2])]"
  "peerIdentity relay = [(endpoint ''udp'' ''ha'' 3, 7), (endpoint ''udp'' ''hb'' 2, 9)]"
  "clientMap relay = [(5, [(7, udp_peer 0 ''ha'' 3), (9, udp_peer 0 ''hb'' 2)])]"
  "members relay = [(5, [(7, ecdhPublic demo [7]), (9, ecdhPublic demo [9])])]"
  "messageCache relay = [(5, [(7, [(1, sm_frame demo hello_stream (replicate 12 1) 1)])])]"
  "creator relay = [(5, 7)]" "serverECDH relay = [1]" "wsOpen relay = (\<lambda>w. False)"
  by (simp_all add: relay_def init_server_def)

lemma endpoints_differ [simp]: "endpoint ''udp'' ''hb'' 2 \<noteq> endpoint ''udp'' ''ha'' 3"
  by code_simp

definition keyed_alice :: Client where
  "keyed_alice = alice\<lparr>c_highestSentSeq := 1, c_roomKeys := [(5, [(1, replicate 32 3)])],
     c_serverPubKeys := [(5, ecdhPublic demo [1])]\<rparr>"

definition keyed_bob :: Client where
  "keyed_bob = bob\<lparr>c_highestReceivedSeq := [(7, 0)], c_roomKeys := [(5, [(1, replicate 32 3)])]\<rparr>"

section \<open>A message through the relay\<close>

text \<open>
  C2. End to end through the relay. The sender of a stream sends its next text; the datagram arrives
  at the server from an address whose identity is known; another member of the conversation is in
  the group under its UDP address. Then the server sends that member the very packet, and the
  member's client, which expects this message, stores the text under its sequence number and
  advances to it.
\<close>

theorem relayed_message_delivered:
  assumes "stream_ok P \<sigma>" "sender_at P \<sigma> n a" "sm_first \<sigma> \<le> n" "sm_idx \<sigma> n < 4294967296"
    and "\<not> c_closed a" "\<not> c_useFallback a"
    and "\<not> closed s" "map_of (peerIdentity s) (endpoint ''udp'' ha qa) = Some i"
    and "p \<in> set (sub (groups s) (sm_conv \<sigma>))" "p_id p \<noteq> endpoint ''udp'' ha qa"
    and "p_type p = Udp" "p_address p = Some hb" "p_port p = Some qb" "hb \<noteq> ''''" "qb \<noteq> 0"
    and "ready_at P \<sigma> n b" "due \<sigma> n b" "sub (c_outOfOrderBuffer b) (sm_sender \<sigma>) = []"
  shows "\<exists>a' f. sendData P (sm_conv \<sigma>) (sm_text \<sigma> n) a = Done a' \<and>
    sent_since a a' = replicate (length (c_peers a)) f \<and>
    UdpSend hb qb f \<in> set (outbox (onUdpMessage P now f ha qa s)) \<and>
    map_option dd_payload (get2 (c_receivedMessages (onUdp P False f b)) (sm_sender \<sigma>) (n mod SEQ_MOD)) = Some (sm_text \<sigma> n) \<and>
    map_of (c_highestReceivedSeq (onUdp P False f b)) (sm_sender \<sigma>) = Some (n mod SEQ_MOD)"
proof -
  let ?f = "sm_frame P \<sigma> (randomBytes P (c_draws a) 12) n" and ?p = "udp_peer now ha qa"
  obtain a' where a': "sendData P (sm_conv \<sigma>) (sm_text \<sigma> n) a = Done a'"
    "c_outbox a' = c_outbox a @ map (\<lambda>(address, port). UdpSend address port ?f) (c_peers a)"
    using sendData_sends [OF assms(1-3,5)] assms(6) by auto
  have f: "is_frame P \<sigma> n ?f" using assms(1) by (auto simp: is_frame_def stream_ok_def random_sized_def)
  note reads = sm_frame_reads(1-3) [OF assms(1,4) f]
  let ?j = "joinGroup (count_received s) (sm_conv \<sigma>) ?p"
  have "map_of (peerIdentity ?j) (p_id ?p) = Some i" "\<not> closed ?j"
    using assms(7,8) by (simp_all add: count_received_def)
  then have "outbox (onUdpMessage P now ?f ha qa s) = outbox s @ transmit_all ?f (others s (sm_conv \<sigma>) ?p) (wsOpen s)"
    using handleData_outbox [OF _ _ reads(3), of ?j ?p]
    by (simp add: onUdpMessage_handles handle_try_data [OF reads(1,2)] others_join)
  moreover have "p \<in> set (others s (sm_conv \<sigma>) ?p)" using assms(9,10) by (simp add: others_def)
  ultimately have sent: "UdpSend hb qb ?f \<in> set (outbox (onUdpMessage P now ?f ha qa s))"
    using transmit_udp [OF assms(11-15), of ?f "wsOpen s"] by (fastforce simp: transmit_all_def)
  have core: "client_core (count_bytes ?f b) = client_core b" by simp
  have "recv_at P \<sigma> (Suc n) (onUdp P False ?f b)"
    using takes_due_empty [OF assms(1,4) f, of "count_bytes ?f b"] assms(16-18) recv_at_core(4,5) [OF core] client_coreD(7) [OF core]
    by (simp add: onUdp_def)
  then have r: "sub (c_receivedMessages (onUdp P False ?f b)) (sm_sender \<sigma>) = sm_hist \<sigma> (Suc n)"
    "map_of (c_highestReceivedSeq (onUdp P False ?f b)) (sm_sender \<sigma>) = Some (sm_seq n)"
    by (simp_all add: recv_at_def ready_at_def)
  then show ?thesis
    using a' sent map_of_hist [of \<sigma> n "Suc n"] assms(3)
    by (intro exI [of _ a'] exI [of _ ?f]) (simp add: sent_since_udp get2_def sm_seq_def SEQ_MOD_val sm_dart_def)
qed

theorem relayed_message_delivered_witness:
  "\<exists>a' f. sendData demo 5 [104] alice = Done a' \<and>
    UdpSend ''hb'' 2 f \<in> set (outbox (onUdpMessage demo 0 f ''ha'' 3 relay)) \<and>
    map_option dd_payload (get2 (c_receivedMessages (onUdp demo False f bob)) 7 1) = Some [104]"
proof -
  have "sender_at demo hello_stream 1 alice"
    by (simp add: sender_at_def sm_hist_def sm_seq_def sm_idx_def)
  moreover have "ready_at demo hello_stream 1 bob" "due hello_stream 1 bob"
    by (simp_all add: ready_at_def due_def sm_hist_def sm_seq_def sm_idx_def)
  ultimately show ?thesis
    using relayed_message_delivered [OF hello_ok, of 1 alice relay "''ha''" 3 7 "udp_peer 0 ''hb'' 2" "''hb''" 2 bob 0]
    by (auto simp: sm_idx_def sub_def SEQ_MOD_val)
qed

lemma roster_of_distinct: "distinct (map fst ms) \<Longrightarrow> roster_of ms = ms"
proof -
  have "fold (\<lambda>(i, pub) m. AList.update i pub m) ms acc = acc @ ms"
    if "distinct (map fst ms)" "fst ` set acc \<inter> fst ` set ms = {}" for acc ms :: "(nat \<times> buffer) list"
    using that
  proof (induction ms arbitrary: acc)
    case (Cons x ms)
    have "\<not> has acc (fst x)" using Cons.prems(2) by (auto simp: has_def map_of_eq_None_iff)
    with Cons show ?case by (auto simp: update_new case_prod_unfold)
  qed simp
  then show "distinct (map fst ms) \<Longrightarrow> roster_of ms = ms" by (simp add: roster_of_def)
qed

section \<open>The roster\<close>

text \<open>
  C9. The roster reaches the members. When the server announces a conversation, every member it has
  a route to is sent a packet from which its client takes exactly the server's member table, the
  server's public key and whether it is the creator; a client that pins a fingerprint accepts it
  when the fingerprint is this server's.
\<close>

theorem roster_announcement_understood:
  assumes "contracts P" "\<not> closed s" "convId < 65536"
    and "map_of (members s) convId = Some mems" "valid_roster P mems" "distinct (map fst mems)"
    and "(c_senderId b, ecdhPublic P (c_clientECDH b)) \<in> set mems"
    and "get2 (clientMap s) convId (c_senderId b) = Some peer"
    and "c_serverFingerprint b = '''' \<or> serverFingerprint P (ecdhPublic P (serverECDH s)) = c_serverFingerprint b"
  shows "\<exists>s' f. notifyMembers P convId s = Done s' \<and> set (transmit f peer (wsOpen s)) \<subseteq> set (outbox s') \<and>
    map_of (c_roster (client_handleMessage P f b)) convId = Some mems \<and>
    map_of (c_serverPubKeys (client_handleMessage P f b)) convId = Some (ecdhPublic P (serverECDH s)) \<and>
    map_of (c_isCreator (client_handleMessage P f b)) convId = Some (map_of (creator s) convId = Some (c_senderId b))"
proof -
  let ?me = "c_senderId b" and ?info = "member_info P s convId mems (c_senderId b)"
  obtain s' new where s': "notify_loop P convId mems mems s = Done s'" "outbox s' = outbox s @ new"
    and all: "\<forall>(m, pub) \<in> set mems. \<forall>peer. get2 (clientMap s) convId m = Some peer \<longrightarrow>
      (\<exists>k d. pairwiseKey P (serverECDH s) pub = Inr k \<and>
        set (transmit (announcement P (member_info P s convId mems m) k (randomBytes P d 12)) peer (wsOpen s)) \<subseteq> set new)"
    using notify_loop_announces [OF assms(1,5) order_refl assms(3,2)] by blast
  from all assms(7,8) obtain k d where k: "pairwiseKey P (serverECDH s) (ecdhPublic P (c_clientECDH b)) = Inr k"
    and sent: "set (transmit (announcement P ?info k (randomBytes P d 12)) peer (wsOpen s)) \<subseteq> set new"
    by fastforce
  let ?f = "announcement P ?info k (randomBytes P d 12)"
  have kb: "pairwiseKey P (c_clientECDH b) (mi_serverPubKey ?info) = Inr k" "length k = 32"
    using pairwiseKey_agree [of P "serverECDH s" "c_clientECDH b"] pairwiseKey_length [OF _ k] k assms(1)
    by (auto simp: contracts_def member_info_def)
  have "?me < 65536" using assms(5,7) by (auto simp: valid_roster_def)
  note wf = wf_member_info [OF assms(1,5,3) this, of s]
  have "membership (client_handleMessage P ?f b) = membership (applyRoster (mi_serverPubKey ?info) ?info b)"
    using assms(1,9) by (intro announcement_received [OF assms(1) wf _ kb(2) _ kb(1)])
      (auto simp: member_info_def contracts_def random_sized_def)
  then have "c_roster (client_handleMessage P ?f b) = AList.update convId (roster_of mems) (c_roster b)"
    "c_serverPubKeys (client_handleMessage P ?f b) = AList.update convId (ecdhPublic P (serverECDH s)) (c_serverPubKeys b)"
    "c_isCreator (client_handleMessage P ?f b) = AList.update convId (map_of (creator s) convId = Some ?me) (c_isCreator b)"
    by (simp_all add: membership_def applyRoster_def Let_def member_info_def)
  moreover have "roster_of mems = mems" using assms(6) by (rule roster_of_distinct)
  ultimately show ?thesis
    using s' sent assms(4) by (intro exI [of _ s'] exI [of _ ?f]) (auto simp: notifyMembers_def)
qed

theorem roster_announcement_understood_witness:
  "\<exists>s' f. notifyMembers demo 5 relay = Done s' \<and> UdpSend ''hb'' 2 f \<in> set (outbox s') \<and>
    map_of (c_isCreator (client_handleMessage demo f bob)) 5 = Some False"
proof -
  have "c_serverFingerprint bob = ''''" by (simp add: bob_def new_client_def)
  moreover have "valid_roster demo [(7, ecdhPublic demo [7]), (9, ecdhPublic demo [9])]" by (auto simp: valid_roster_def)
  moreover have "transmit f (udp_peer 0 ''hb'' 2) ws = [UdpSend ''hb'' 2 f]" for f ws
    by (intro transmit_udp) simp_all
  ultimately show ?thesis
    using roster_announcement_understood [OF demo_acquainted(1), of relay 5 "[(7, ecdhPublic demo [7]), (9, ecdhPublic demo [9])]"
        bob "udp_peer 0 ''hb'' 2"]
    by (auto simp: get2_def sub_def)
qed

section \<open>Recovery of a lost tail\<close>

text \<open>
  C1. Recovery of a lost tail. The sender has sent the messages up to \<open>N - 1\<close>; the server has all of
  them from \<open>n\<close> on in its cache, but the receiver got none of these and no later packet will show
  it the gap. Then the sender's SYNC passes the server's signature check and reaches the receiver;
  the receiver answers with a NACK; the server answers the NACK with a packet of each of the missing
  messages; and once these have arrived, in any order and any number of times, the receiver has
  processed everything up to \<open>N - 1\<close>.
\<close>

theorem lost_tail_is_recovered:
  assumes P: "contracts P" "stream_ok P \<sigma>" and range: "sm_idx \<sigma> N \<le> 4294967296" "n < N" "N < n + 65536"
    and a: "c_senderId a = sm_sender \<sigma>" "c_highestSentSeq a = (N - 1) mod SEQ_MOD" "(N - 1) mod SEQ_MOD \<noteq> 0"
      "getCurrentKey (sm_conv \<sigma>) a = Some key" "length key = 32"
      "map_of (c_serverPubKeys a) (sm_conv \<sigma>) = Some (ecdhPublic P (serverECDH s))" "\<not> c_closed a" "\<not> c_useFallback a"
    and b: "recv_at P \<sigma> n b" "sub (c_outOfOrderBuffer b) (sm_sender \<sigma>) = []" "getCurrentKey (sm_conv \<sigma>) b = Some key"
      "c_senderId b < 65536" "get2 (c_roster b) (sm_conv \<sigma>) (sm_sender \<sigma>) = Some (ecdhPublic P (c_clientECDH a))"
      "\<not> c_closed b" "\<not> c_useFallback b"
    and s: "\<not> closed s" "get2 (members s) (sm_conv \<sigma>) (sm_sender \<sigma>) = Some (ecdhPublic P (c_clientECDH a))"
      "p \<in> set (sub (groups s) (sm_conv \<sigma>))" "p_id p = endpoint ''udp'' hb qb" "p_id p \<noteq> endpoint ''udp'' ha qa"
      "p_type p = Udp" "p_address p = Some hb" "p_port p = Some qb" "hb \<noteq> ''''" "qb \<noteq> 0"
    and cached: "\<forall>j. n \<le> j \<and> j < N \<longrightarrow> (\<exists>f. is_frame P \<sigma> j f \<and>
      map_of (sub (sub (messageCache s) (sm_conv \<sigma>)) (sm_sender \<sigma>)) (j mod SEQ_MOD) = Some f)"
  shows "\<exists>a' sync nack. sendSync P (sm_conv \<sigma>) a = Done a' \<and>
    sent_since a a' = replicate (length (c_peers a)) sync \<and>
    UdpSend hb qb sync \<in> set (outbox (onUdpMessage P t1 sync ha qa s)) \<and>
    sent_since b (onUdp P False sync b) = replicate (length (c_peers b)) nack \<and>
    (\<forall>j. n \<le> j \<and> j < N \<longrightarrow> (\<exists>f. is_frame P \<sigma> j f \<and>
      UdpSend hb qb f \<in> set (outbox (onUdpMessage P t2 nack hb qb (onUdpMessage P t1 sync ha qa s))))) \<and>
    (\<forall>js packets. list_all2 (is_frame P \<sigma>) js packets \<and> set js = {n..<N} \<longrightarrow>
      recv_at P \<sigma> N (fold (client_handleMessage P) packets (onUdp P False sync b)))"
proof -
  let ?conv = "sm_conv \<sigma>" and ?i = "sm_sender \<sigma>"
  have ids: "?conv < 65536" "?i < 65536" using P(2) by (simp_all add: stream_ok_def)
  obtain ks where ks: "pairwiseKey P (c_clientECDH a) (ecdhPublic P (serverECDH s)) = Inr ks"
    "pairwiseKey P (serverECDH s) (ecdhPublic P (c_clientECDH a)) = Inr ks"
    using pairwiseKey_agree [of P "c_clientECDH a" "serverECDH s"] P(1) by (auto simp: contracts_def)
  obtain kb where kb: "pairwiseKey P (c_clientECDH b) (ecdhPublic P (c_clientECDH a)) = Inr kb"
    using pairwiseKey_agree [of P "c_clientECDH b" "c_clientECDH a"] P(1) by (auto simp: contracts_def)
  define f where "f = sync_frame P \<lparr>sy_type = TYPE_SYNC, sy_convId = ?conv, sy_senderId = ?i, sy_highestSeq = sm_seq (N - 1)\<rparr>
    key (randomBytes P (c_draws a) 12) ks"
  have high: "c_highestSentSeq a = sm_seq (N - 1)" "sm_seq (N - 1) \<noteq> 0" using a(2,3) by (simp_all add: sm_seq_def SEQ_MOD_val)
  obtain a' where a': "sendSync P ?conv a = Done a'" "sent_since a a' = replicate (length (c_peers a)) f"
    using sendSync_sends [OF P(1) ids(1) _ _ a(4-6) ks(1) a(7,8)] ids(2) a(1) high unfolding f_def by auto
  let ?b1 = "onUdp P False f b" and ?s1 = "onUdpMessage P t1 f ha qa s"
  obtain nonce' where n': "length nonce' = 12"
    and asked: "sent_since b ?b1 = replicate (length (c_peers b)) (nack_frame P \<lparr>nk_type = TYPE_NACK, nk_convId = ?conv,
        nk_senderId = c_senderId b, nk_targetId = ?i, nk_missingSeq = map sm_seq [n..<N]\<rparr> key nonce' kb)"
    and at1: "recv_at P \<sigma> n ?b1" "sub (c_outOfOrderBuffer ?b1) ?i = []"
    using udp_sync_requests [OF P b(1) range(2,3) b(4,3) a(5) _ b(5) kb b(6,7), of "randomBytes P (c_draws a) 12" ks, folded f_def]
      P(1) b(2) by (auto simp: contracts_def random_sized_def)
  note s1 = udp_sync_relayed [OF P(1) ids s(1,2) ks(2) s(3,5-10), where h = "sm_seq (N - 1)" and key = key and nonce = "randomBytes P (c_draws a) 12" and now = t1, folded f_def]
  have answered: "\<exists>fr. is_frame P \<sigma> j fr \<and> UdpSend hb qb fr \<in> set (outbox (onUdpMessage P t2 (nack_frame P \<lparr>nk_type = TYPE_NACK,
      nk_convId = ?conv, nk_senderId = c_senderId b, nk_targetId = ?i, nk_missingSeq = map sm_seq [n..<N]\<rparr> key nonce' kb) hb qb ?s1))"
    if j: "n \<le> j" "j < N" for j
  proof -
    from cached j obtain fr where fr: "is_frame P \<sigma> j fr" "map_of (sub (sub (messageCache s) ?conv) ?i) (sm_seq j) = Some fr"
      by (auto simp: sm_seq_def SEQ_MOD_val)
    then show ?thesis
      using range(3) b(4) ids n' s1 j s(9,10)
      by (intro exI [of _ fr] conjI udp_nack_answered [OF P(1), where seq = "sm_seq j"]) auto
  qed
  have "recv_at P \<sigma> N (fold (client_handleMessage P) packets ?b1)"
    if "list_all2 (is_frame P \<sigma>) js packets" "set js = {n..<N}" for js packets
    using reordered_delivers [OF P(2) range(1) _ at1 that(2) _ that(1)] range(2,3) by simp
  then show ?thesis using a' s1(1) asked answered by blast
qed

theorem lost_tail_is_recovered_witness:
  "\<exists>a' sync nack f. sendSync demo 5 keyed_alice = Done a' \<and>
    UdpSend ''hb'' 2 sync \<in> set (outbox (onUdpMessage demo 0 sync ''ha'' 3 relay)) \<and>
    sent_since keyed_bob (onUdp demo False sync keyed_bob) = [nack] \<and> is_frame demo hello_stream 1 f \<and>
    UdpSend ''hb'' 2 f \<in> set (outbox (onUdpMessage demo 0 nack ''hb'' 2 (onUdpMessage demo 0 sync ''ha'' 3 relay)))"
proof -
  have a: "c_senderId keyed_alice = 7" "c_highestSentSeq keyed_alice = 1" "getCurrentKey 5 keyed_alice = Some (replicate 32 3)"
    "map_of (c_serverPubKeys keyed_alice) 5 = Some (ecdhPublic demo [1])" "\<not> c_closed keyed_alice" "\<not> c_useFallback keyed_alice"
    "c_clientECDH keyed_alice = [7]"
    by (simp_all add: keyed_alice_def getCurrentKey_def get2_def sub_def)
  have b: "recv_at demo hello_stream 1 keyed_bob" "sub (c_outOfOrderBuffer keyed_bob) 7 = []" "c_senderId keyed_bob = 9"
    "getCurrentKey 5 keyed_bob = Some (replicate 32 3)" "get2 (c_roster keyed_bob) 5 7 = Some (ecdhPublic demo [7])"
    "\<not> c_closed keyed_bob" "\<not> c_useFallback keyed_bob" "c_peers keyed_bob = [(''relay'', 9000)]"
    using hello_based
    by (simp_all add: keyed_bob_def recv_at_def ready_at_def getCurrentKey_def getChain_def get2_def sub_def)
      (simp_all add: bob_def new_client_def)
  have "is_frame demo hello_stream 1 (sm_frame demo hello_stream (replicate 12 1) 1)"
    by (auto simp: is_frame_def intro: exI [of _ "replicate 12 1"])
  then have cached: "\<forall>j. 1 \<le> j \<and> j < 2 \<longrightarrow> (\<exists>f. is_frame demo hello_stream j f \<and>
      map_of (sub (sub (messageCache relay) (sm_conv hello_stream)) (sm_sender hello_stream)) (j mod SEQ_MOD) = Some f)"
    by (auto simp: sub_def SEQ_MOD_val less_2_cases_iff)
  have range: "sm_idx hello_stream 2 \<le> 4294967296" by (simp add: sm_idx_def)
  from lost_tail_is_recovered [OF demo_acquainted(1) hello_ok range, of 1 keyed_alice "replicate 32 3" relay keyed_bob
      "udp_peer 0 ''hb'' 2" "''hb''" 2 "''ha''" 3 0 0] a b cached
  obtain a' sync nack where r: "sendSync demo 5 keyed_alice = Done a'"
    "UdpSend ''hb'' 2 sync \<in> set (outbox (onUdpMessage demo 0 sync ''ha'' 3 relay))"
    "sent_since keyed_bob (onUdp demo False sync keyed_bob) = [nack]"
    "\<forall>j. 1 \<le> j \<and> j < 2 \<longrightarrow> (\<exists>f. is_frame demo hello_stream j f \<and>
      UdpSend ''hb'' 2 f \<in> set (outbox (onUdpMessage demo 0 nack ''hb'' 2 (onUdpMessage demo 0 sync ''ha'' 3 relay))))"
    by (auto simp: SEQ_MOD_val get2_def sub_def)
  from r(4) [rule_format, of 1] r(1-3) show ?thesis by auto
qed

end
